theory Spec2Isabelle
  imports Complex_Main "HOL-Library.AList"
begin

section \<open>JavaScript values\<close>

text \<open>
  The logger passes values of type \<open>any\<close> around. The values the model covers:
  the primitives, arrays, plain objects (a list of own properties in insertion order)
  and \<open>Error\<close> instances (name, message, optional stack). Numbers are rationals or \<open>NaN\<close>;
  a \<open>BigInt\<close> is kept apart because \<open>JSON.stringify\<close> throws on it. \<open>JUninspectable m\<close>
  is an object with no own property whose class gives it a \<open>[util.inspect.custom]\<close>
  method that throws an \<open>Error\<close> with message \<open>m\<close>: everything treats it as the empty
  object, except the console, which calls that method to print it.
\<close>

datatype jsval =
    JUndefined
  | JNull
  | JBool bool
  | JNum rat
  | JNaN
  | JBigInt int
  | JStr string
  | JArr "jsval list"
  | JObj "(string \<times> jsval) list"
  | JError string string "string option"
  | JUninspectable string

text \<open>A thrown \<open>Error\<close>: its name and its message.\<close>

datatype exn = Exn string string

fun exn_message :: "exn \<Rightarrow> string" where
  "exn_message (Exn n m) = m"

text \<open>Truthiness, as \<open>||\<close> and \<open>if\<close> test it.\<close>

fun truthy :: "jsval \<Rightarrow> bool" where
  "truthy JUndefined = False"
| "truthy JNull = False"
| "truthy (JBool b) = b"
| "truthy (JNum q) = (q \<noteq> 0)"
| "truthy JNaN = False"
| "truthy (JBigInt i) = (i \<noteq> 0)"
| "truthy (JStr s) = (s \<noteq> [])"
| "truthy (JArr xs) = True"
| "truthy (JObj ps) = True"
| "truthy (JError n m st) = True"
| "truthy (JUninspectable m) = True"

text \<open>\<open>a || b\<close> on values.\<close>

definition js_or :: "jsval \<Rightarrow> jsval \<Rightarrow> jsval" where
  "js_or a b = (if truthy a then a else b)"

text \<open>\<open>s || d\<close> on a string that is never undefined.\<close>

definition str_or :: "string \<Rightarrow> string \<Rightarrow> string" where
  "str_or s d = (if s \<noteq> [] then s else d)"

text \<open>Reading an own property of a plain object; a missing one is \<open>undefined\<close>.\<close>

definition get_prop :: "(string \<times> jsval) list \<Rightarrow> string \<Rightarrow> jsval" where
  "get_prop ps k = (case map_of ps k of None \<Rightarrow> JUndefined | Some v \<Rightarrow> v)"

text \<open>
  The order of an object's own properties: the keys that are array indices (the
  decimal text, without a leading zero, of an integer from 0 to 2^32 - 2) come first,
  in ascending order, and the other keys follow in the order they were created.
\<close>

definition is_digit :: "char \<Rightarrow> bool" where
  "is_digit c = (c \<in> set ''0123456789'')"

definition nat_of_digits :: "string \<Rightarrow> nat" where
  "nat_of_digits k = foldl (\<lambda>a c. 10 * a + (of_char c - 48)) 0 k"

definition array_index :: "string \<Rightarrow> nat option" where
  "array_index k =
     (case k of
        [] \<Rightarrow> None
      | c # cs \<Rightarrow>
          if \<not> is_digit c then None
          else if c = CHR ''0'' \<and> cs \<noteq> [] then None
          else if \<not> list_all is_digit cs then None
          else if nat_of_digits k < 4294967295 then Some (nat_of_digits k) else None)"

definition index_of :: "string \<times> 'a \<Rightarrow> nat" where
  "index_of kv = (case array_index (fst kv) of Some n \<Rightarrow> n | None \<Rightarrow> 0)"

definition js_order :: "(string \<times> 'a) list \<Rightarrow> (string \<times> 'a) list" where
  "js_order ps =
     sort_key index_of (filter (\<lambda>kv. array_index (fst kv) \<noteq> None) ps)
     @ filter (\<lambda>kv. array_index (fst kv) = None) ps"

text \<open>
  Writing the properties of \<open>b\<close> over \<open>a\<close> one by one: a key already there keeps its
  place and takes the new value, a new key goes to the end.
\<close>

definition assign :: "(string \<times> 'a) list \<Rightarrow> (string \<times> 'a) list \<Rightarrow> (string \<times> 'a) list" where
  "assign a b = foldl (\<lambda>acc kv. AList.update (fst kv) (snd kv) acc) a b"

text \<open>
  Object spread \<open>{...a, ...b}\<close>: a new object that takes the properties of \<open>a\<close>, then
  those of \<open>b\<close>, and lists them in the order of an object's own properties.
\<close>

definition spread :: "(string \<times> jsval) list \<Rightarrow> (string \<times> jsval) list \<Rightarrow> (string \<times> jsval) list" where
  "spread a b = js_order (assign a b)"

text \<open>Does a value hold a \<open>BigInt\<close> anywhere \<open>JSON.stringify\<close> would visit?\<close>

fun has_bigint :: "jsval \<Rightarrow> bool" where
  "has_bigint (JBigInt i) = True"
| "has_bigint (JArr xs) = list_ex has_bigint xs"
| "has_bigint (JObj ps) = list_ex has_bigint (map snd ps)"
| "has_bigint v = False"

text \<open>Decimal text of a number, as a template literal prints it.\<close>

fun show_nat :: "nat \<Rightarrow> string" where
  "show_nat n =
     (if n < 10 then [char_of (48 + n)] else show_nat (n div 10) @ [char_of (48 + n mod 10)])"

declare show_nat.simps [simp del]

definition show_int :: "int \<Rightarrow> string" where
  "show_int i = (if i < 0 then CHR ''-'' # show_nat (nat (- i)) else show_nat (nat i))"

definition show_number :: "int option \<Rightarrow> string" where
  "show_number p = (case p of None \<Rightarrow> ''NaN'' | Some i \<Rightarrow> show_int i)"

section \<open>The runtime: sockets, timers, console\<close>

text \<open>
  What the transport hands to the socket: \<open>Buffer.from(logStr)\<close>, where \<open>logStr\<close> is the
  string itself or the JSON text of the value. The JSON text is kept symbolic.
\<close>

datatype payload = Raw string | Json jsval

text \<open>The two closures the transport passes to \<open>setTimeout\<close>.\<close>

datatype task = Reconnect | Drain

datatype console_method = CLog | CInfo | CError | CWarn | CDebug

text \<open>
  A socket of Node's \<open>dgram\<close>, as the module can see it. A new socket is not bound. The
  first \<open>send\<close> starts binding it, and until the bind completes the socket keeps a queue
  of the calls it was asked for: every \<open>send\<close> and every \<open>close\<close> made in that window
  is put on the queue and returns at once. When the bind completes (the
  \<open>'listening'\<close> event) the queue is run in order.
\<close>

datatype deferred = DSend | DClose

datatype sock = Unbound | Binding "deferred list" | Bound | Closed

text \<open>
  The part of the Node runtime the module touches. A socket handle is an index into
  \<open>sockets\<close>. A pending timer is (handle, delay in ms, task).
  \<open>datagrams\<close> lists the sends a socket took on while no \<open>close\<close> had been asked of
  it: (socket, port, host, payload). \<open>acks\<close> lists the completion callbacks invoked, by
  their tag. \<open>pino\<close> lists the calls to the pino logger. \<open>uncaught\<close> lists the
  exceptions thrown outside every \<open>try\<close> of the program, from a callback of the
  runtime: Node reports them as uncaught exceptions and, by default, ends the process.
\<close>

record runtime =
  sockets :: "sock list"
  timers :: "(nat \<times> nat \<times> task) list"
  next_timer :: nat
  datagrams :: "(nat \<times> int \<times> string \<times> payload) list"
  acks :: "nat list"
  console :: "(console_method \<times> jsval list) list"
  pino :: "(console_method \<times> jsval \<times> jsval list) list"
  uncaught :: "exn list"

definition runtime0 :: runtime where
  "runtime0 = \<lparr>sockets = [], timers = [], next_timer = 0, datagrams = [], acks = [],
     console = [], pino = [], uncaught = []\<rparr>"

text \<open>
  A console method called with strings only, as the transport calls it: a string is
  written as it is, and a failure of the output stream is swallowed by the console.
\<close>

definition console_print :: "console_method \<Rightarrow> jsval list \<Rightarrow> runtime \<Rightarrow> runtime" where
  "console_print m vs r = r\<lparr>console := console r @ [(m, vs)]\<rparr>"

text \<open>
  A console method called with values of any kind: every argument that is not a
  string is formatted by \<open>util.inspect\<close>, which calls the \<open>[util.inspect.custom]\<close>
  method of each object it visits. It visits the argument and what is nested up to
  three levels below it (the default depth of 2 stops the expansion, and the hook runs
  before the depth is checked), and the first 100 entries of an array. An exception of
  the hook leaves the console method as it is: nothing is printed.
\<close>

fun first_some :: "'a option list \<Rightarrow> 'a option" where
  "first_some [] = None"
| "first_some (None # xs) = first_some xs"
| "first_some (Some x # xs) = Some x"

fun inspect_throws :: "nat \<Rightarrow> jsval \<Rightarrow> string option" where
  "inspect_throws d (JUninspectable m) = Some m"
| "inspect_throws (Suc d) (JArr xs) = first_some (map (inspect_throws d) (take 100 xs))"
| "inspect_throws (Suc d) (JObj ps) = first_some (map (\<lambda>kv. inspect_throws d (snd kv)) ps)"
| "inspect_throws d v = None"

definition console_call :: "console_method \<Rightarrow> jsval list \<Rightarrow> runtime \<Rightarrow> exn + runtime" where
  "console_call m vs r =
     (case first_some (map (inspect_throws 3) vs) of
        Some e \<Rightarrow> Inl (Exn ''Error'' e)
      | None \<Rightarrow> Inr (console_print m vs r))"

definition setTimeout :: "task \<Rightarrow> nat \<Rightarrow> runtime \<Rightarrow> nat \<times> runtime" where
  "setTimeout f ms r =
     (next_timer r,
      r\<lparr>timers := timers r @ [(next_timer r, ms, f)], next_timer := Suc (next_timer r)\<rparr>)"

text \<open>\<open>clearTimeout\<close> of a timer that already fired or was cleared does nothing.\<close>

definition clearTimeout :: "nat \<Rightarrow> runtime \<Rightarrow> runtime" where
  "clearTimeout h r = r\<lparr>timers := filter (\<lambda>tm. fst tm \<noteq> h) (timers r)\<rparr>"

text \<open>
  \<open>dgram.createSocket('udp4')\<close>. Whether it throws is the runtime's choice, given as
  \<open>Some message\<close>.
\<close>

definition createSocket :: "string option \<Rightarrow> runtime \<Rightarrow> exn + (nat \<times> runtime)" where
  "createSocket fails r =
     (case fails of
        Some m \<Rightarrow> Inl (Exn ''Error'' m)
      | None \<Rightarrow> Inr (length (sockets r), r\<lparr>sockets := sockets r @ [Unbound]\<rparr>))"

text \<open>The state of a socket; a handle that names no socket counts as closed.\<close>

definition sock_state :: "nat \<Rightarrow> runtime \<Rightarrow> sock" where
  "sock_state s r = (if s < length (sockets r) then sockets r ! s else Closed)"

text \<open>
  A socket takes a send when it is not closed and no \<open>close\<close> waits in its queue.
\<close>

fun takes :: "sock \<Rightarrow> bool" where
  "takes Unbound = True"
| "takes (Binding q) = (DClose \<notin> set q)"
| "takes Bound = True"
| "takes Closed = False"

definition sock_takes :: "nat \<Rightarrow> runtime \<Rightarrow> bool" where
  "sock_takes s r = takes (sock_state s r)"

text \<open>
  \<open>socket.send\<close> first validates the port (\<open>ERR_SOCKET_BAD_PORT\<close> unless it is between
  1 and 65535), then throws \<open>ERR_SOCKET_DGRAM_NOT_RUNNING\<close> on a socket that was closed.
  On a socket that is not bound it starts the bind and queues the call; while the
  bind is pending it queues the call. A send that is carried out completes later,
  through its callback.
\<close>

definition valid_port :: "int \<Rightarrow> bool" where
  "valid_port p = (0 < p \<and> p < 65536)"

definition bad_port :: "int \<Rightarrow> exn" where
  "bad_port p =
     Exn ''RangeError''
       (''Port should be > 0 and < 65536. Received type number ('' @ show_int p @ '').'')"

definition not_running :: exn where
  "not_running = Exn ''Error'' ''Not running''"

definition sock_send :: "nat \<Rightarrow> payload \<Rightarrow> int \<Rightarrow> string \<Rightarrow> runtime \<Rightarrow> exn + runtime" where
  "sock_send s p prt hst r =
     (if valid_port prt then
        (case sock_state s r of
           Closed \<Rightarrow> Inl not_running
         | Bound \<Rightarrow> Inr (r\<lparr>datagrams := datagrams r @ [(s, prt, hst, p)]\<rparr>)
         | Unbound \<Rightarrow>
             Inr (r\<lparr>sockets := (sockets r)[s := Binding [DSend]],
                    datagrams := datagrams r @ [(s, prt, hst, p)]\<rparr>)
         | Binding q \<Rightarrow>
             if DClose \<in> set q
             then Inr (r\<lparr>sockets := (sockets r)[s := Binding (q @ [DSend])]\<rparr>)
             else Inr (r\<lparr>sockets := (sockets r)[s := Binding (q @ [DSend])],
                         datagrams := datagrams r @ [(s, prt, hst, p)]\<rparr>))
      else Inl (bad_port prt))"

text \<open>
  \<open>socket.close\<close> throws \<open>ERR_SOCKET_DGRAM_NOT_RUNNING\<close> on a socket that was closed,
  queues the call while the bind is pending, and closes the socket otherwise.
\<close>

definition sock_close :: "nat \<Rightarrow> runtime \<Rightarrow> exn + runtime" where
  "sock_close s r =
     (case sock_state s r of
        Closed \<Rightarrow> Inl not_running
      | Binding q \<Rightarrow> Inr (r\<lparr>sockets := (sockets r)[s := Binding (q @ [DClose])]\<rparr>)
      | Unbound \<Rightarrow> Inr (r\<lparr>sockets := (sockets r)[s := Closed]\<rparr>)
      | Bound \<Rightarrow> Inr (r\<lparr>sockets := (sockets r)[s := Closed]\<rparr>))"

text \<open>
  Running the queue when the bind completes: a queued send is carried out; a queued
  \<open>close\<close> closes the socket; whatever was queued behind a \<open>close\<close> finds the socket
  closed and throws \<open>ERR_SOCKET_DGRAM_NOT_RUNNING\<close>, which ends the run of the queue.
  That exception is thrown from the handler of the \<open>'listening'\<close> event, outside every
  \<open>try\<close> of the program. The result is the socket's state and the exception, if any.
\<close>

fun flush :: "deferred list \<Rightarrow> sock \<times> exn option" where
  "flush [] = (Bound, None)"
| "flush (DSend # q) = flush q"
| "flush [DClose] = (Closed, None)"
| "flush (DClose # d # q) = (Closed, Some not_running)"

text \<open>The bind of socket \<open>s\<close> completes: the \<open>'listening'\<close> event.\<close>

definition listening :: "nat \<Rightarrow> runtime \<Rightarrow> runtime" where
  "listening s r =
     (case sock_state s r of
        Binding q \<Rightarrow>
          (case snd (flush q) of
             None \<Rightarrow> r\<lparr>sockets := (sockets r)[s := fst (flush q)]\<rparr>
           | Some e \<Rightarrow> r\<lparr>sockets := (sockets r)[s := fst (flush q)], uncaught := uncaught r @ [e]\<rparr>)
      | _ \<Rightarrow> r)"

text \<open>
  The bind of socket \<open>s\<close> fails: the socket is unbound again and its queue is dropped,
  before the \<open>'error'\<close> event reaches the listeners.
\<close>

definition bind_failed :: "nat \<Rightarrow> runtime \<Rightarrow> runtime" where
  "bind_failed s r =
     (case sock_state s r of
        Binding q \<Rightarrow> r\<lparr>sockets := (sockets r)[s := Unbound]\<rparr>
      | _ \<Rightarrow> r)"

section \<open>GraylogTransport\<close>

text \<open>
  The class \<open>GraylogTransport\<close> of \<open>logger.ts\<close> (lines 78 to 191). A method takes the
  object and the runtime and returns both. \<open>buffer\<close> holds the record and the tag of
  the callback of each queued item.
\<close>

record transport =
  client :: "nat option"
  host :: string
  port :: int
  connected :: bool
  buffer :: "(jsval \<times> nat) list"
  maxBufferSize :: nat
  reconnectTimeout :: "nat option"

type_synonym state = "transport \<times> runtime"

text \<open>An item's callback is a tag; invoking it appends the tag to \<open>acks\<close>.\<close>

definition invoke :: "nat \<Rightarrow> state \<Rightarrow> state" where
  "invoke cb s = (fst s, (snd s)\<lparr>acks := acks (snd s) @ [cb]\<rparr>)"

text \<open>\<open>scheduleReconnect\<close> (lines 114 to 123).\<close>

definition scheduleReconnect :: "state \<Rightarrow> state" where
  "scheduleReconnect s =
     (let t = fst s;
          r1 = (case reconnectTimeout t of Some h \<Rightarrow> clearTimeout h (snd s) | None \<Rightarrow> snd s);
          hr = setTimeout Reconnect 30000 r1
      in (t\<lparr>reconnectTimeout := Some (fst hr)\<rparr>, snd hr))"

text \<open>
  The first two lines of the \<open>try\<close> block of \<open>sendLog\<close> (lines 163 and 164):
  \<open>typeof log === 'string' ? log : JSON.stringify(log)\<close>, then \<open>Buffer.from\<close>.
  \<open>JSON.stringify\<close> throws on a BigInt and returns \<open>undefined\<close> for \<open>undefined\<close>,
  which \<open>Buffer.from\<close> refuses.
\<close>

definition to_message :: "jsval \<Rightarrow> exn + payload" where
  "to_message lg =
     (case lg of
        JStr s \<Rightarrow> Inr (Raw s)
      | JUndefined \<Rightarrow> Inl (Exn ''TypeError'' ''The first argument must be of type string or an instance of Buffer, ArrayBuffer, or Array or an Array-like Object. Received undefined'')
      | _ \<Rightarrow> (if has_bigint lg then Inl (Exn ''TypeError'' ''Do not know how to serialize a BigInt'')
              else Inr (Json lg)))"

text \<open>
  \<open>sendLog\<close> (lines 158 to 176): the \<open>try\<close> block serialises and sends, the \<open>catch\<close>
  prints the error.
\<close>

definition sendLog :: "jsval \<Rightarrow> state \<Rightarrow> state" where
  "sendLog lg s =
     (let t = fst s; r = snd s in
      case client t of
        None \<Rightarrow> s
      | Some c \<Rightarrow>
          (case (case to_message lg of
                   Inl e \<Rightarrow> Inl e
                 | Inr buf \<Rightarrow> sock_send c buf (port t) (host t) r) of
             Inr r' \<Rightarrow> (t, r')
           | Inl e \<Rightarrow> (t, console_print CError [JStr (''Erro ao formatar/enviar log: '' @ exn_message e)] r)))"

text \<open>
  The callback given to \<open>client.send\<close> (lines 166 to 172), run by the runtime when a
  send completes;
  \<open>err\<close> is the error's message, if the send failed.
\<close>

definition send_callback :: "string option \<Rightarrow> state \<Rightarrow> state" where
  "send_callback err s =
     (case err of
        None \<Rightarrow> s
      | Some m \<Rightarrow>
          scheduleReconnect
            ((fst s)\<lparr>connected := False\<rparr>,
             console_print CError [JStr (''Erro ao enviar log para Graylog: '' @ m)] (snd s)))"

text \<open>
  The listener \<open>setupConnection\<close> registers for the socket's \<open>'error'\<close> event (lines 97
  to 101).
\<close>

definition on_error :: "string \<Rightarrow> state \<Rightarrow> state" where
  "on_error m s =
     scheduleReconnect
       ((fst s)\<lparr>connected := False\<rparr>,
        console_print CError [JStr (''Erro no cliente UDP Graylog: '' @ m)] (snd s))"

text \<open>
  \<open>processBuffer\<close> (lines 125 to 139); \<open>process_item\<close> is the body of its \<open>forEach\<close>.
\<close>

definition process_item :: "state \<Rightarrow> jsval \<times> nat \<Rightarrow> state" where
  "process_item s item = invoke (snd item) (sendLog (fst item) s)"

definition processBuffer :: "state \<Rightarrow> state" where
  "processBuffer s =
     (let t = fst s in
      if length (buffer t) > 0 \<and> connected t \<and> client t \<noteq> None then
        (let n = min 10 (length (buffer t));
             batch = take n (buffer t);
             s1 = foldl process_item (t\<lparr>buffer := drop n (buffer t)\<rparr>, snd s) batch
         in if length (buffer (fst s1)) > 0
            then (fst s1, snd (setTimeout Drain 100 (snd s1)))
            else s1)
      else s)"

text \<open>
  \<open>setupConnection\<close> (lines 93 to 112). Only \<open>createSocket\<close> can throw inside the \<open>try\<close>;
  it does so before \<open>this.client\<close> is assigned.
\<close>

definition setupConnection :: "string option \<Rightarrow> state \<Rightarrow> state" where
  "setupConnection fails s =
     (case createSocket fails (snd s) of
        Inr cr \<Rightarrow> processBuffer ((fst s)\<lparr>client := Some (fst cr), connected := True\<rparr>, snd cr)
      | Inl e \<Rightarrow>
          scheduleReconnect
            ((fst s)\<lparr>connected := False\<rparr>,
             console_print CError [JStr (''Erro ao configurar cliente UDP: '' @ exn_message e)] (snd s)))"

text \<open>The constructor (lines 87 to 91), with the initial values of the fields.\<close>

definition new_GraylogTransport :: "string \<Rightarrow> int \<Rightarrow> string option \<Rightarrow> runtime \<Rightarrow> state" where
  "new_GraylogTransport h p fails r =
     setupConnection fails
       (\<lparr>client = None, host = h, port = p, connected = False, buffer = [],
         maxBufferSize = 100, reconnectTimeout = None\<rparr>, r)"

text \<open>
  \<open>write\<close> (lines 141 to 156). \<open>shift\<close> on an empty array does nothing, as \<open>tl\<close> on the
  empty list.
\<close>

definition write_log :: "jsval \<Rightarrow> nat \<Rightarrow> state \<Rightarrow> state" where
  "write_log lg cb s =
     (let t = fst s in
      if \<not> connected t \<or> client t = None then
        (if length (buffer t) < maxBufferSize t
         then (t\<lparr>buffer := buffer t @ [(lg, cb)]\<rparr>, snd s)
         else (t\<lparr>buffer := tl (buffer t) @ [(lg, cb)]\<rparr>, snd s))
      else invoke cb (sendLog lg s))"

text \<open>
  \<open>close\<close> (lines 178 to 190): an exception thrown by the call \<open>client.close()\<close> is
  caught and ignored. The \<open>try\<close> covers the call only, not what a queued \<open>close\<close> does
  when the socket runs its queue.
\<close>

definition close :: "state \<Rightarrow> state" where
  "close s =
     (let t = fst s;
          r1 = (case reconnectTimeout t of Some h \<Rightarrow> clearTimeout h (snd s) | None \<Rightarrow> snd s)
      in case client t of
           None \<Rightarrow> (t, r1)
         | Some c \<Rightarrow> (case sock_close c r1 of Inr r2 \<Rightarrow> (t, r2) | Inl e \<Rightarrow> (t, r1)))"

text \<open>
  A pending timer fires: it leaves the pending list and its task runs. The reconnect
  task prints a line and calls \<open>setupConnection\<close> (\<open>fails\<close> is the runtime's choice
  for the socket it creates); the drain task calls \<open>processBuffer\<close>.
\<close>

fun run_task :: "task \<Rightarrow> string option \<Rightarrow> state \<Rightarrow> state" where
  "run_task Reconnect fails s =
     setupConnection fails (fst s, console_print CLog [JStr ''Tentando reconectar ao Graylog...''] (snd s))"
| "run_task Drain fails s = processBuffer s"

definition fire :: "nat \<Rightarrow> string option \<Rightarrow> state \<Rightarrow> state" where
  "fire h fails s =
     (case find (\<lambda>tm. fst tm = h) (timers (snd s)) of
        None \<Rightarrow> s
      | Some tm \<Rightarrow> run_task (snd (snd tm)) fails (fst s, clearTimeout h (snd s)))"

text \<open>Submitting a list of (record, callback) pairs, one \<open>write\<close> call each.\<close>

definition writes :: "(jsval \<times> nat) list \<Rightarrow> state \<Rightarrow> state" where
  "writes items s = foldl (\<lambda>acc item. write_log (fst item) (snd item) acc) s items"

text \<open>The \<open>i\<close>-th record of a sample run, with \<open>i\<close> as its callback tag.\<close>

definition rec_n :: "nat \<Rightarrow> jsval \<times> nat" where
  "rec_n i = (JObj [(''short_message'', JStr ''record''), (''_seq'', JNum (of_nat i))], i)"

text \<open>A transport that is not connected and holds nothing, with the default capacity.\<close>

definition idle_transport :: transport where
  "idle_transport = \<lparr>client = None, host = ''graylog.local'', port = 12201, connected = False,
     buffer = [], maxBufferSize = 100, reconnectTimeout = None\<rparr>"

section \<open>Configuration and the severity filter\<close>

text \<open>
  \<open>environment.ts\<close>: every field is the environment variable's text, or the empty
  string when the variable is not set; \<open>graylogPort\<close> is \<open>Number\<close> of that text, taken
  here as an integer or \<open>NaN\<close> (\<open>None\<close>). \<open>getValue(key)\<close> is the field's selector.
  \<open>graylogConfig\<close> in \<open>logger.ts\<close> copies the fields at load time.
\<close>

record Environment =
  graylogApplicationName :: string
  graylogEnvironment :: string
  graylogHost :: string
  graylogProduct :: string
  graylogPort :: "int option"
  graylogEnabled :: string
  graylogLogLevel :: string

text \<open>What the module reads when it is loaded: the environment and \<open>os.hostname()\<close>.\<close>

record settings =
  environment :: Environment
  hostname :: string

text \<open>
  What a call reads from outside: \<open>Date.now()\<close> (milliseconds), the \<open>uuidv4()\<close> token,
  whether the pino logger throws, whether \<open>dgram.createSocket\<close> throws, and how a
  direct send of \<open>testGraylogConnection\<close> ends.
\<close>

datatype direct_send = ErrorEvent | SendDone "string option"

record ambient =
  now :: nat
  uuid :: string
  pino_fails :: "string option"
  socket_fails :: "string option"
  direct :: direct_send

text \<open>The table \<open>LOG_LEVELS\<close> (lines 50 to 56) and its five numbers.\<close>

definition LOG_LEVELS_fatal :: int where
  "LOG_LEVELS_fatal = 2"

definition LOG_LEVELS_error :: int where
  "LOG_LEVELS_error = 3"

definition LOG_LEVELS_warn :: int where
  "LOG_LEVELS_warn = 4"

definition LOG_LEVELS_info :: int where
  "LOG_LEVELS_info = 6"

definition LOG_LEVELS_debug :: int where
  "LOG_LEVELS_debug = 7"

definition LOG_LEVELS :: "(string \<times> int) list" where
  "LOG_LEVELS = [(''fatal'', LOG_LEVELS_fatal), (''error'', LOG_LEVELS_error),
     (''warn'', LOG_LEVELS_warn), (''info'', LOG_LEVELS_info), (''debug'', LOG_LEVELS_debug)]"

text \<open>
  \<open>LOG_LEVELS[key]\<close>: an own property is a number; a key of \<open>Object.prototype\<close> gives
  an inherited function or object; any other key gives \<open>undefined\<close>.
\<close>

datatype level_lookup = Own int | Inherited | Missing

definition Object_prototype_keys :: "string list" where
  "Object_prototype_keys = [''constructor'', ''toString'', ''toLocaleString'', ''valueOf'',
     ''hasOwnProperty'', ''isPrototypeOf'', ''propertyIsEnumerable'', ''__proto__'',
     ''__defineGetter__'', ''__defineSetter__'', ''__lookupGetter__'', ''__lookupSetter__'']"

definition LOG_LEVELS_at :: "string \<Rightarrow> level_lookup" where
  "LOG_LEVELS_at k =
     (case map_of LOG_LEVELS k of
        Some n \<Rightarrow> Own n
      | None \<Rightarrow> if k \<in> set Object_prototype_keys then Inherited else Missing)"

text \<open>
  \<open>logLevel <= v\<close>: \<open>undefined\<close>, a function and \<open>Object.prototype\<close> all convert to
  \<open>NaN\<close>, and a comparison with \<open>NaN\<close> is false.
\<close>

fun js_le :: "int \<Rightarrow> level_lookup \<Rightarrow> bool" where
  "js_le l (Own n) = (l \<le> n)"
| "js_le l Inherited = False"
| "js_le l Missing = False"

text \<open>\<open>shouldLog\<close> (lines 68 to 75).\<close>

definition shouldLog :: "Environment \<Rightarrow> int \<Rightarrow> bool" where
  "shouldLog env logLevel =
     (let configLogLevel = str_or (graylogLogLevel env) ''info'';
          configLevelValue = LOG_LEVELS_at configLogLevel
      in js_le logLevel configLevelValue)"

section \<open>formatLog\<close>

text \<open>\<open>defaultLogValues\<close> (lines 37 to 47).\<close>

definition defaultLogValues :: "settings \<Rightarrow> (string \<times> jsval) list" where
  "defaultLogValues st =
     [(''version'', JStr ''1.1''),
      (''host'', JStr (str_or (hostname st) ''unknown-host'')),
      (''short_message'', JStr []),
      (''timestamp'', JNum 0),
      (''_application_name'', JStr (str_or (graylogApplicationName (environment st)) ''default-app'')),
      (''_environment'', JStr (str_or (graylogEnvironment (environment st)) ''development'')),
      (''_product'', JStr (str_or (graylogProduct (environment st)) ''default-product'')),
      (''_service_name'', JStr (str_or (graylogApplicationName (environment st)) ''default-app'')),
      (''_service_version'', JStr ''1.0.0'')]"

text \<open>
  The own enumerable properties of a value, as a rest pattern and a spread see them:
  an object's properties, an array's and a string's indices, nothing for the rest.
\<close>

fun own_props :: "jsval \<Rightarrow> (string \<times> jsval) list" where
  "own_props (JObj ps) = ps"
| "own_props (JArr xs) = zip (map show_nat [0..<length xs]) xs"
| "own_props (JStr s) = zip (map show_nat [0..<length s]) (map (\<lambda>c. JStr [c]) s)"
| "own_props v = []"

text \<open>
  \<open>message.k\<close> for the names \<open>formatLog\<close> reads, on a value that is neither \<open>null\<close>
  nor \<open>undefined\<close>: only a plain object can have them.
\<close>

fun prop_of :: "jsval \<Rightarrow> string \<Rightarrow> jsval" where
  "prop_of (JObj ps) k = get_prop ps k"
| "prop_of v k = JUndefined"

text \<open>An optional string as a value: the \<open>stack\<close> of an error.\<close>

definition opt_str :: "string option \<Rightarrow> jsval" where
  "opt_str s = (case s of None \<Rightarrow> JUndefined | Some x \<Rightarrow> JStr x)"

text \<open>
  \<open>formatLog\<close> (lines 214 to 263). The timestamp is \<open>Date.now() / 1000\<close> as an exact
  quotient. Reading \<open>message.msg\<close> throws on \<open>null\<close> and \<open>undefined\<close>.
\<close>

definition formatLog :: "settings \<Rightarrow> ambient \<Rightarrow> jsval \<Rightarrow> int \<Rightarrow> exn + (string \<times> jsval) list" where
  "formatLog st am mess level =
     (let timestamp = JNum (of_nat (now am) / 1000);
          correlationId = JStr (uuid am)
      in case mess of
           JStr s \<Rightarrow>
             Inr (spread (defaultLogValues st)
                    [(''short_message'', JStr s), (''timestamp'', timestamp),
                     (''level'', JNum (of_int level)), (''_correlation_id'', correlationId)])
         | JError nm m stack \<Rightarrow>
             Inr (spread (defaultLogValues st)
                    [(''short_message'', JStr m), (''full_message'', opt_str stack),
                     (''timestamp'', timestamp), (''level'', JNum (of_int LOG_LEVELS_error)),
                     (''_error_message'', JStr m), (''_error_code'', JStr nm),
                     (''_correlation_id'', correlationId)])
         | JUndefined \<Rightarrow>
             Inl (Exn ''TypeError'' ''Cannot read properties of undefined (reading 'msg')'')
         | JNull \<Rightarrow>
             Inl (Exn ''TypeError'' ''Cannot read properties of null (reading 'msg')'')
         | _ \<Rightarrow>
             (let shortMessage =
                    js_or (prop_of mess ''msg'')
                      (js_or (prop_of mess ''message'')
                         (js_or (prop_of mess ''short_message'') (JStr ''No Content'')));
                  fullMessage =
                    js_or (prop_of mess ''fullMessage'')
                      (js_or (prop_of mess ''full_message'') (prop_of mess ''details''));
                  rest = filter (\<lambda>kv. fst kv \<notin> {''msg'', ''message'', ''short_message'', ''full_message''})
                           (own_props mess);
                  standardLog =
                    spread (spread (defaultLogValues st)
                      [(''short_message'', shortMessage), (''timestamp'', timestamp),
                       (''level'', JNum (of_int level)),
                       (''_correlation_id'', js_or (prop_of mess ''_correlation_id'') correlationId)])
                      rest
              in Inr (if truthy fullMessage
                      then AList.update ''full_message'' fullMessage standardLog
                      else standardLog)))"

section \<open>The facade\<close>

text \<open>
  The module's state: \<open>graylogTransport\<close> (\<open>None\<close> is \<open>null\<close>) and the runtime.
\<close>

type_synonym world = "transport option \<times> runtime"

text \<open>
  \<open>sendToGraylog\<close> (lines 266 to 270). The empty callback \<open>() => {}\<close> carries tag 0.
\<close>

definition sendToGraylog :: "settings \<Rightarrow> jsval \<Rightarrow> world \<Rightarrow> world" where
  "sendToGraylog st lg w =
     (case fst w of
        Some t \<Rightarrow>
          if graylogEnabled (environment st) \<noteq> []
          then (let s = write_log lg 0 (t, snd w) in (Some (fst s), snd s))
          else w
      | None \<Rightarrow> w)"

text \<open>A call \<open>logger.info(obj, ...args)\<close> of the pino logger, which may throw.\<close>

definition logger_call :: "console_method \<Rightarrow> string option \<Rightarrow> jsval \<Rightarrow> jsval list \<Rightarrow> runtime \<Rightarrow> exn + runtime" where
  "logger_call m fails obj args r =
     (case fails of
        Some e \<Rightarrow> Inl (Exn ''Error'' e)
      | None \<Rightarrow> Inr (r\<lparr>pino := pino r @ [(m, obj, args)]\<rparr>))"

text \<open>
  The \<open>try\<close> block shared by the eight emit functions (lines 347 to 394 and 401 to
  452); they differ in the level constant, in the method of \<open>logger\<close> and \<open>console\<close>
  they call, and in the context fields merged over the record (\<open>None\<close> for the four
  functions of \<open>safeLogger\<close> itself). \<open>Inl\<close> is an exception, with the world it was
  thrown in.
\<close>

definition emit_try :: "console_method \<Rightarrow> int \<Rightarrow> settings \<Rightarrow> (string \<times> jsval) list option \<Rightarrow> ambient \<Rightarrow> jsval \<Rightarrow> jsval list \<Rightarrow> world \<Rightarrow> exn \<times> world + world" where
  "emit_try m level st ctx am mess args w =
     (if \<not> shouldLog (environment st) level then Inr w
      else case formatLog st am mess level of
             Inl e \<Rightarrow> Inl (e, w)
           | Inr baseLog \<Rightarrow>
               (let contextualLog = (case ctx of None \<Rightarrow> baseLog | Some c \<Rightarrow> spread baseLog c)
                in case logger_call m (pino_fails am) (JObj contextualLog) args (snd w) of
                     Inl e \<Rightarrow> Inl (e, w)
                   | Inr r1 \<Rightarrow> Inr (sendToGraylog st (JObj contextualLog) (fst w, r1))))"

text \<open>
  An emit function: the \<open>try\<close> block, and the \<open>catch\<close> that prints the fallback line
  with the console method of its level. The call of the console is not inside a
  \<open>try\<close>: an exception it throws leaves the emit function. \<open>Inl\<close> is an exception
  reaching the caller.
\<close>

definition emit :: "console_method \<Rightarrow> int \<Rightarrow> settings \<Rightarrow> (string \<times> jsval) list option \<Rightarrow> ambient \<Rightarrow> jsval \<Rightarrow> jsval list \<Rightarrow> world \<Rightarrow> exn + world" where
  "emit m level st ctx am mess args w =
     (case emit_try m level st ctx am mess args w of
        Inr w' \<Rightarrow> Inr w'
      | Inl ew \<Rightarrow>
          (case console_call m ([JStr ''[FALLBACK]'', mess] @ args) (snd (snd ew)) of
             Inl e \<Rightarrow> Inl e
           | Inr r' \<Rightarrow> Inr (fst (snd ew), r')))"

definition safeLogger_info :: "settings \<Rightarrow> ambient \<Rightarrow> jsval \<Rightarrow> jsval list \<Rightarrow> world \<Rightarrow> exn + world" where
  "safeLogger_info st = emit CInfo LOG_LEVELS_info st None"

definition safeLogger_error :: "settings \<Rightarrow> ambient \<Rightarrow> jsval \<Rightarrow> jsval list \<Rightarrow> world \<Rightarrow> exn + world" where
  "safeLogger_error st = emit CError LOG_LEVELS_error st None"

definition safeLogger_warn :: "settings \<Rightarrow> ambient \<Rightarrow> jsval \<Rightarrow> jsval list \<Rightarrow> world \<Rightarrow> exn + world" where
  "safeLogger_warn st = emit CWarn LOG_LEVELS_warn st None"

definition safeLogger_debug :: "settings \<Rightarrow> ambient \<Rightarrow> jsval \<Rightarrow> jsval list \<Rightarrow> world \<Rightarrow> exn + world" where
  "safeLogger_debug st = emit CDebug LOG_LEVELS_debug st None"

text \<open>
  \<open>createContext(contextData)\<close> copies the fields and returns four functions.
\<close>

definition context_info :: "settings \<Rightarrow> (string \<times> jsval) list \<Rightarrow> ambient \<Rightarrow> jsval \<Rightarrow> jsval list \<Rightarrow> world \<Rightarrow> exn + world" where
  "context_info st contextData = emit CInfo LOG_LEVELS_info st (Some (spread [] contextData))"

definition context_error :: "settings \<Rightarrow> (string \<times> jsval) list \<Rightarrow> ambient \<Rightarrow> jsval \<Rightarrow> jsval list \<Rightarrow> world \<Rightarrow> exn + world" where
  "context_error st contextData = emit CError LOG_LEVELS_error st (Some (spread [] contextData))"

definition context_warn :: "settings \<Rightarrow> (string \<times> jsval) list \<Rightarrow> ambient \<Rightarrow> jsval \<Rightarrow> jsval list \<Rightarrow> world \<Rightarrow> exn + world" where
  "context_warn st contextData = emit CWarn LOG_LEVELS_warn st (Some (spread [] contextData))"

definition context_debug :: "settings \<Rightarrow> (string \<times> jsval) list \<Rightarrow> ambient \<Rightarrow> jsval \<Rightarrow> jsval list \<Rightarrow> world \<Rightarrow> exn + world" where
  "context_debug st contextData = emit CDebug LOG_LEVELS_debug st (Some (spread [] contextData))"

text \<open>\<open>safeLogger.close\<close> (lines 464 to 468).\<close>

definition safeLogger_close :: "world \<Rightarrow> world" where
  "safeLogger_close w =
     (case fst w of
        Some t \<Rightarrow> (let s = close (t, snd w) in (Some (fst s), snd s))
      | None \<Rightarrow> w)"

section \<open>testGraylogConnection and the module's load\<close>

text \<open>Letters outside ASCII in the module's messages, as Latin-1 code units.\<close>

abbreviation a_acute :: char where "a_acute \<equiv> CHR 0xE1"
abbreviation a_tilde :: char where "a_tilde \<equiv> CHR 0xE3"
abbreviation c_cedilla :: char where "c_cedilla \<equiv> CHR 0xE7"
abbreviation o_tilde :: char where "o_tilde \<equiv> CHR 0xF5"

definition msg_not_enabled :: string where
  "msg_not_enabled = ''Graylog n'' @ [a_tilde] @ ''o est'' @ [a_acute] @ '' ativado nas configura''
     @ [c_cedilla, o_tilde] @ ''es.''"

definition msg_established :: "string \<Rightarrow> string" where
  "msg_established testId = ''Conex'' @ [a_tilde] @ ''o com Graylog estabelecida. Teste enviado com ID: '' @ testId"

definition msg_connection_error :: "string \<Rightarrow> string" where
  "msg_connection_error m = ''Erro na conex'' @ [a_tilde] @ ''o com Graylog: '' @ m"

record test_result =
  success :: bool
  message :: string

text \<open>
  \<open>parseInt(String(graylogConfig.port), 10)\<close>: the text of an integer parses back to
  it, and \<open>"NaN"\<close> parses to \<open>NaN\<close>. This holds of the integers below 10^21 in absolute
  value, which \<open>String\<close> prints in full; the port is taken to be one of them (a larger
  number prints with an exponent, and \<open>parseInt\<close> stops at its first digits).
\<close>

definition parsed_port :: "Environment \<Rightarrow> int option" where
  "parsed_port env = graylogPort env"

text \<open>
  The direct send of \<open>testGraylogConnection\<close>, used when there is no transport: the
  promise's executor creates a socket and sends, which starts the bind. \<open>direct am\<close>
  says what comes next: the socket's \<open>'error'\<close> event (the bind failed), whose listener
  closes the socket and resolves to \<open>false\<close>; or the bind completes and the send's
  callback runs, which closes the socket a second later and resolves to whether the send
  succeeded. The result is what the promise resolves to, \<open>Inl\<close> when the executor throws.
  A \<open>close\<close> that throws in one of these callbacks would be uncaught.
\<close>

definition close_in_callback :: "nat \<Rightarrow> runtime \<Rightarrow> runtime" where
  "close_in_callback c r =
     (case sock_close c r of Inr r' \<Rightarrow> r' | Inl e \<Rightarrow> r\<lparr>uncaught := uncaught r @ [e]\<rparr>)"

definition direct_test_send :: "ambient \<Rightarrow> jsval \<Rightarrow> int \<Rightarrow> string \<Rightarrow> runtime \<Rightarrow> exn \<times> runtime + bool \<times> runtime" where
  "direct_test_send am testLog prt hst r =
     (case createSocket (socket_fails am) r of
        Inl e \<Rightarrow> Inl (e, r)
      | Inr cr \<Rightarrow>
          (case to_message testLog of
             Inl e \<Rightarrow> Inl (e, snd cr)
           | Inr payload \<Rightarrow>
               (case sock_send (fst cr) payload prt hst (snd cr) of
                  Inl e \<Rightarrow> Inl (e, snd cr)
                | Inr r1 \<Rightarrow>
                    (case direct am of
                       ErrorEvent \<Rightarrow>
                         Inr (False, close_in_callback (fst cr) (bind_failed (fst cr) r1))
                     | SendDone err \<Rightarrow>
                         Inr (err = None, close_in_callback (fst cr) (listening (fst cr) r1))))))"

text \<open>
  \<open>testGraylogConnection\<close> (lines 273 to 343): the value its promise resolves to, and
  the world then.
\<close>

definition testGraylogConnection :: "settings \<Rightarrow> ambient \<Rightarrow> world \<Rightarrow> test_result \<times> world" where
  "testGraylogConnection st am w =
     (let env = environment st in
      if graylogEnabled env = [] then (\<lparr>success = False, message = msg_not_enabled\<rparr>, w)
      else
        (let testId = ''test-'' @ show_nat (now am) in
         case parsed_port env of
           None \<Rightarrow>
             (\<lparr>success = False,
               message = ''Porta inv'' @ [a_acute] @ ''lida: '' @ show_number (graylogPort env)\<rparr>, w)
         | Some prt \<Rightarrow>
             (case formatLog st am
                     (JObj [(''short_message'', JStr (''Teste de conex'' @ [a_tilde] @ ''o ['' @ testId @ '']'')),
                            (''_test_id'', JStr testId),
                            (''_tags'', JArr [JStr ''test''])])
                     LOG_LEVELS_info of
                Inl e \<Rightarrow> (\<lparr>success = False, message = msg_connection_error (exn_message e)\<rparr>, w)
              | Inr testLog \<Rightarrow>
                  (case fst w of
                     Some t \<Rightarrow>
                       (let s = write_log (JObj testLog) 0 (t, snd w)
                        in (\<lparr>success = True, message = msg_established testId\<rparr>, (Some (fst s), snd s)))
                   | None \<Rightarrow>
                       (case direct_test_send am (JObj testLog) prt (graylogHost env) (snd w) of
                          Inl er \<Rightarrow>
                            (\<lparr>success = False, message = msg_connection_error (exn_message (fst er))\<rparr>,
                             (None, snd er))
                        | Inr br \<Rightarrow>
                            (\<lparr>success = fst br,
                              message = (if fst br then msg_established testId
                                         else ''Falha ao enviar mensagem para Graylog.'')\<rparr>,
                             (None, snd br)))))))"

text \<open>
  What loading the module does (lines 194 to 202 and 476 to 484): it creates the
  transport when the feature is enabled, the port is a number and the host is not
  empty, and then emits its first record. Between the two the module constructs the
  \<open>pino\<close> logger (lines 205 to 211); the library is outside this development, and the
  constructor is taken to return.
\<close>

definition js_number :: "int option \<Rightarrow> jsval" where
  "js_number p = (case p of None \<Rightarrow> JNaN | Some i \<Rightarrow> JNum (of_int i))"

definition create_transport :: "settings \<Rightarrow> ambient \<Rightarrow> runtime \<Rightarrow> world" where
  "create_transport st am r =
     (let env = environment st in
      if graylogEnabled env \<noteq> [] then
        (case parsed_port env of
           Some prt \<Rightarrow>
             if graylogHost env \<noteq> [] then
               (let s = new_GraylogTransport (graylogHost env) prt (socket_fails am) r
                in (Some (fst s),
                    console_print CLog
                      [JStr (''Transporte UDP para Graylog configurado em '' @ graylogHost env @ '':'' @ show_int prt)]
                      (snd s)))
             else (None, r)
         | None \<Rightarrow> (None, r))
      else (None, r))"

definition module_load :: "settings \<Rightarrow> ambient \<Rightarrow> runtime \<Rightarrow> exn + world" where
  "module_load st am r =
     (let env = environment st; w = create_transport st am r in
      if graylogEnabled env \<noteq> [] then
        safeLogger_info st am
          (JObj [(''short_message'', JStr (''Configura'' @ [c_cedilla, a_tilde] @ ''o do Graylog carregada'')),
                 (''host'', JStr (graylogHost env)),
                 (''port'', js_number (graylogPort env))])
          []
          (fst w,
           console_print CLog
             [JStr (''Graylog configurado em '' @ graylogHost env @ '':'' @ show_number (graylogPort env))]
             (snd w))
      else Inr w)"

section \<open>Runs of the transport\<close>

text \<open>
  The states a transport can be in: it is constructed on a fresh runtime, and then
  records are written, pending timers fire, sends complete, the socket reports errors,
  \<open>close\<close> is called and the bind of a socket completes or fails, in any order.
\<close>

inductive reachable :: "state \<Rightarrow> bool" where
  constructed: "reachable (new_GraylogTransport h p fails runtime0)"
| written: "reachable s \<Longrightarrow> reachable (write_log lg cb s)"
| fired: "reachable s \<Longrightarrow> reachable (fire h fails s)"
| completed: "reachable s \<Longrightarrow> reachable (send_callback err s)"
| errored: "reachable s \<Longrightarrow> reachable (on_error m s)"
| closed: "reachable s \<Longrightarrow> reachable (close s)"
| bound: "reachable s \<Longrightarrow> reachable (fst s, listening c (snd s))"
| unbound: "reachable s \<Longrightarrow> reachable (fst s, bind_failed c (snd s))"

text \<open>
  Bookkeeping of the timers: handles are distinct and below the next handle, the
  handle the transport remembers is below it too, and a pending timer is a reconnect
  timer exactly when its handle is the remembered one.
\<close>

fun handle_below :: "nat option \<Rightarrow> nat \<Rightarrow> bool" where
  "handle_below None n = True"
| "handle_below (Some h) n = (h < n)"

definition timers_tracked :: "state \<Rightarrow> bool" where
  "timers_tracked s =
     (distinct (map fst (timers (snd s))) \<and>
      list_all (\<lambda>tm. fst tm < next_timer (snd s)) (timers (snd s)) \<and>
      handle_below (reconnectTimeout (fst s)) (next_timer (snd s)) \<and>
      list_all (\<lambda>tm. (snd (snd tm) = Reconnect) = (reconnectTimeout (fst s) = Some (fst tm)))
        (timers (snd s)))"

text \<open>The handle of the oldest pending drain timer.\<close>

definition next_drain :: "runtime \<Rightarrow> nat option" where
  "next_drain r = map_option fst (find (\<lambda>tm. snd (snd tm) = Drain) (timers r))"

text \<open>Letting the oldest pending drain timer fire, \<open>n\<close> times over.\<close>

fun drain_steps :: "nat \<Rightarrow> state \<Rightarrow> state" where
  "drain_steps 0 s = s"
| "drain_steps (Suc n) s =
     (case next_drain (snd s) of
        None \<Rightarrow> s
      | Some h \<Rightarrow> drain_steps n (fire h None s))"

text \<open>
  What the \<open>try\<close> block of \<open>sendLog\<close> comes to before it reaches the socket: the
  payload, or the exception thrown by the serialisation or by the port check.
\<close>

definition send_attempt :: "int \<Rightarrow> jsval \<Rightarrow> exn + payload" where
  "send_attempt prt lg =
     (case to_message lg of
        Inl e \<Rightarrow> Inl e
      | Inr p \<Rightarrow> if valid_port prt then Inr p else Inl (bad_port prt))"

text \<open>
  What a batch of queue entries adds to the runtime when the socket takes sends: a
  datagram for each record that reaches the socket, an error line for each of the others.
\<close>

definition batch_datagrams :: "nat \<Rightarrow> int \<Rightarrow> string \<Rightarrow> (jsval \<times> nat) list \<Rightarrow> (nat \<times> int \<times> string \<times> payload) list" where
  "batch_datagrams c prt hst items =
     concat (map (\<lambda>it. case send_attempt prt (fst it) of
                          Inr p \<Rightarrow> [(c, prt, hst, p)]
                        | Inl e \<Rightarrow> [])
                 items)"

definition batch_errors :: "int \<Rightarrow> (jsval \<times> nat) list \<Rightarrow> (console_method \<times> jsval list) list" where
  "batch_errors prt items =
     concat (map (\<lambda>it. case send_attempt prt (fst it) of
                          Inr p \<Rightarrow> []
                        | Inl e \<Rightarrow> [(CError, [JStr (''Erro ao formatar/enviar log: '' @ exn_message e)])])
                 items)"

section \<open>Concrete settings and inputs\<close>

definition env_of_level :: "string \<Rightarrow> Environment" where
  "env_of_level lv = \<lparr>graylogApplicationName = ''shop'', graylogEnvironment = ''production'',
     graylogHost = ''graylog.local'', graylogProduct = ''store'', graylogPort = Some 12201,
     graylogEnabled = ''true'', graylogLogLevel = lv\<rparr>"

definition settings_of_level :: "string \<Rightarrow> settings" where
  "settings_of_level lv = \<lparr>environment = env_of_level lv, hostname = ''web-1''\<rparr>"

text \<open>No variable of the environment is set.\<close>

definition disabled_settings :: settings where
  "disabled_settings =
     \<lparr>environment = \<lparr>graylogApplicationName = [], graylogEnvironment = [], graylogHost = [],
        graylogProduct = [], graylogPort = Some 0, graylogEnabled = [], graylogLogLevel = []\<rparr>,
      hostname = ''web-1''\<rparr>"

text \<open>Only the enabled flag is set: no host, and the port is \<open>Number("")\<close>, which is 0.\<close>

definition hostless_settings :: settings where
  "hostless_settings =
     \<lparr>environment = \<lparr>graylogApplicationName = [], graylogEnvironment = [], graylogHost = [],
        graylogProduct = [], graylogPort = Some 0, graylogEnabled = ''true'', graylogLogLevel = []\<rparr>,
      hostname = ''web-1''\<rparr>"

definition ambient0 :: ambient where
  "ambient0 = \<lparr>now = 1234, uuid = ''0b0e7a52-6c1d-4c58-9d4f-6a3f0d1c2e11'',
     pino_fails = None, socket_fails = None, direct = SendDone None\<rparr>"

text \<open>
  A state in the middle of draining, through socket \<open>c\<close>, the queue that transport
  \<open>t0\<close> held when the runtime was \<open>r0\<close>: the first \<open>k\<close> entries were processed in
  order, the rest is still queued, and a drain timer is pending as long as something
  is queued.
\<close>

definition drain_progress :: "transport \<Rightarrow> runtime \<Rightarrow> nat \<Rightarrow> nat \<Rightarrow> state \<Rightarrow> bool" where
  "drain_progress t0 r0 c k s =
     (connected (fst s) \<and> client (fst s) = Some c \<and> sock_takes c (snd s) \<and>
      timers_tracked s \<and> port (fst s) = port t0 \<and> host (fst s) = host t0 \<and>
      buffer (fst s) = drop k (buffer t0) \<and>
      acks (snd s) = acks r0 @ map snd (take k (buffer t0)) \<and>
      datagrams (snd s)
        = datagrams r0 @ batch_datagrams c (port t0) (host t0) (take k (buffer t0)) \<and>
      (buffer (fst s) = [] \<or> next_drain (snd s) \<noteq> None))"

text \<open>
  A transport whose socket could not be created at construction, given records 1 to
  \<open>n\<close> while it waits for its reconnect timer.
\<close>

definition backlog :: "nat \<Rightarrow> state" where
  "backlog n =
     writes (map rec_n [1..<Suc n])
       (new_GraylogTransport ''graylog.local'' 12201 (Some ''socket EMFILE'') runtime0)"

text \<open>The queue is within the capacity the class gives it.\<close>

definition within_capacity :: "state \<Rightarrow> bool" where
  "within_capacity s = (maxBufferSize (fst s) = 100 \<and> length (buffer (fst s)) \<le> maxBufferSize (fst s))"


section \<open>The bounded queue\<close>

lemma write_log_queued:
  "\<not> connected t \<or> client t = None \<Longrightarrow>
   write_log lg cb (t, r) =
     (t\<lparr>buffer := (if length (buffer t) < maxBufferSize t then buffer t else tl (buffer t)) @ [(lg, cb)]\<rparr>, r)"
  by (auto simp: write_log_def Let_def)

lemma evict_drop:
  assumes "0 < n" "length b = n"
  shows "drop (length ((tl b @ [x]) @ xs) - n) ((tl b @ [x]) @ xs)
         = drop (length (b @ x # xs) - n) (b @ x # xs)"
proof -
  from assms obtain y ys where b: "b = y # ys" by (cases b) auto
  have n: "n = Suc (length ys)" using assms b by simp
  show ?thesis unfolding b n by simp
qed

lemma writes_queued:
  "(\<not> connected t \<or> client t = None) \<Longrightarrow> 0 < maxBufferSize t \<Longrightarrow>
   length (buffer t) \<le> maxBufferSize t \<Longrightarrow>
   writes items (t, r) =
     (t\<lparr>buffer := drop (length (buffer t @ items) - maxBufferSize t) (buffer t @ items)\<rparr>, r)"
proof (induction items arbitrary: t)
  case Nil
  then show ?case by (simp add: writes_def)
next
  case (Cons x xs)
  let ?b = "(if length (buffer t) < maxBufferSize t then buffer t else tl (buffer t)) @ [x]"
  let ?t = "t\<lparr>buffer := ?b\<rparr>"
  have w: "write_log (fst x) (snd x) (t, r) = (?t, r)"
    using write_log_queued[OF Cons.prems(1), of "fst x" "snd x" r] by simp
  have len: "length (buffer ?t) \<le> maxBufferSize ?t" using Cons.prems by auto
  have "writes (x # xs) (t, r) = writes xs (?t, r)"
    by (simp add: writes_def w)
  also have "\<dots> = (?t\<lparr>buffer := drop (length (buffer ?t @ xs) - maxBufferSize ?t) (buffer ?t @ xs)\<rparr>, r)"
    using Cons.IH[of ?t] Cons.prems len by simp
  also have "drop (length (buffer ?t @ xs) - maxBufferSize ?t) (buffer ?t @ xs)
       = drop (length (buffer t @ x # xs) - maxBufferSize t) (buffer t @ x # xs)"
  proof (cases "length (buffer t) < maxBufferSize t")
    case True
    then show ?thesis by simp
  next
    case False
    with Cons.prems have "length (buffer t) = maxBufferSize t" by simp
    with False evict_drop[OF Cons.prems(2) this, of x xs] show ?thesis by simp
  qed
  finally show ?case by simp
qed

lemma fresh_disconnected:
  "new_GraylogTransport h p (Some m) runtime0 =
    (\<lparr>client = None, host = h, port = p, connected = False, buffer = [],
         maxBufferSize = 100, reconnectTimeout = Some 0\<rparr>,
     runtime0\<lparr>timers := [(0, 30000, Reconnect)], next_timer := 1,
       console := [(CError, [JStr (''Erro ao configurar cliente UDP: '' @ m)])]\<rparr>)"
  by (simp add: new_GraylogTransport_def setupConnection_def createSocket_def scheduleReconnect_def
      setTimeout_def console_print_def runtime0_def Let_def)

lemma overflow_scenario:
  "buffer (fst (writes (map rec_n [1..<151]) (new_GraylogTransport h p (Some m) runtime0)))
   = map rec_n [51..<151]"
  apply (simp only: fresh_disconnected)
  apply (subst writes_queued)
     apply simp
    apply simp
   apply simp
  apply (simp add: drop_map del: upt_Suc)
  done

section \<open>The severity filter\<close>

lemma LOG_LEVELS_at_known:
  "map_of LOG_LEVELS k = Some n \<Longrightarrow> LOG_LEVELS_at k = Own n"
  by (simp add: LOG_LEVELS_at_def)

lemma LOG_LEVELS_at_unknown:
  "k \<notin> set (map fst LOG_LEVELS) \<Longrightarrow> LOG_LEVELS_at k = Inherited \<or> LOG_LEVELS_at k = Missing"
  by (auto simp: LOG_LEVELS_at_def map_of_eq_None_iff[symmetric]
      simp del: map_of_eq_None_iff split: option.splits)

lemma shouldLog_known:
  "map_of LOG_LEVELS (graylogLogLevel env) = Some n \<Longrightarrow> shouldLog env l = (l \<le> n)"
  apply (cases "graylogLogLevel env = []")
   apply (simp add: LOG_LEVELS_def)
  apply (simp add: shouldLog_def str_or_def LOG_LEVELS_at_known)
  done

lemma shouldLog_unknown:
  "graylogLogLevel env \<noteq> [] \<Longrightarrow> graylogLogLevel env \<notin> set (map fst LOG_LEVELS) \<Longrightarrow>
   \<not> shouldLog env l"
  using LOG_LEVELS_at_unknown[of "graylogLogLevel env"]
  by (auto simp: shouldLog_def str_or_def)

lemma shouldLog_empty:
  "graylogLogLevel env = [] \<Longrightarrow> shouldLog env l = (l \<le> LOG_LEVELS_info)"
  by (simp add: shouldLog_def str_or_def LOG_LEVELS_at_def LOG_LEVELS_def)

lemma shouldLog_warn:
  "graylogLogLevel env = ''warn'' \<Longrightarrow> shouldLog env l = (l \<le> 4)"
  by (rule shouldLog_known) (simp add: LOG_LEVELS_def LOG_LEVELS_warn_def)

lemma emit_suppressed:
  "\<not> shouldLog (environment st) level \<Longrightarrow> emit m level st ctx am mess args w = Inr w"
  by (simp add: emit_def emit_try_def)

lemma emit_fallback:
  "emit_try m level st ctx am mess args w = Inl (e, w1) \<Longrightarrow>
   emit m level st ctx am mess args w
     = (case first_some (map (inspect_throws 3) (mess # args)) of
          Some x \<Rightarrow> Inl (Exn ''Error'' x)
        | None \<Rightarrow> Inr (fst w1, console_print m ([JStr ''[FALLBACK]'', mess] @ args) (snd w1)))"
  by (simp add: emit_def console_call_def split: option.splits)

lemma emit_returns:
  "first_some (map (inspect_throws 3) (mess # args)) = None \<Longrightarrow>
   \<exists>w'. emit m level st ctx am mess args w = Inr w'"
  by (cases "emit_try m level st ctx am mess args w")
     (auto simp: emit_def console_call_def)

lemma emit_passes:
  "shouldLog (environment st) level \<Longrightarrow> pino_fails am = None \<Longrightarrow>
   formatLog st am mess level = Inr rec \<Longrightarrow>
   emit m level st None am mess args w
     = Inr (sendToGraylog st (JObj rec)
              (fst w, (snd w)\<lparr>pino := pino (snd w) @ [(m, JObj rec, args)]\<rparr>))"
  by (simp add: emit_def emit_try_def logger_call_def)

lemma set_js_order: "set (js_order ps) = set ps"
  by (auto simp add: js_order_def)

lemma map_of_filter_key: "map_of xs k = map_of (filter (\<lambda>kv. fst kv = k) xs) k"
  by (induction xs) auto

lemma filter_key_sort:
  "filter (\<lambda>kv. fst kv = k) (sort_key index_of xs) = filter (\<lambda>kv. fst kv = k) xs"
proof -
  have e: "\<And>zs :: (string \<times> 'a) list. filter (\<lambda>kv. fst kv = k) zs
             = filter (\<lambda>kv. fst kv = k) (filter (\<lambda>kv. index_of kv = index_of (k, undefined)) zs)"
    by (auto simp add: index_of_def intro: filter_cong)
  show ?thesis
    by (subst e, subst (2) e) (simp only: sort_key_stable)
qed

lemma map_of_js_order: "map_of (js_order ps) k = map_of ps k"
proof -
  have "filter (\<lambda>kv. fst kv = k) (js_order ps) = filter (\<lambda>kv. fst kv = k) ps"
  proof (cases "array_index k")
    case None
    have a: "filter (\<lambda>x. array_index (fst x) \<noteq> None \<and> fst x = k) ps = filter (\<lambda>x. False) ps"
      using None by (intro filter_cong) auto
    have b: "filter (\<lambda>x. array_index (fst x) = None \<and> fst x = k) ps = filter (\<lambda>x. fst x = k) ps"
      using None by (intro filter_cong) auto
    show ?thesis
      by (simp add: js_order_def filter_key_sort a b del: not_None_eq)
  next
    case (Some n)
    have a: "filter (\<lambda>x. array_index (fst x) \<noteq> None \<and> fst x = k) ps = filter (\<lambda>x. fst x = k) ps"
      using Some by (intro filter_cong) auto
    have b: "filter (\<lambda>x. array_index (fst x) = None \<and> fst x = k) ps = filter (\<lambda>x. False) ps"
      using Some by (intro filter_cong) auto
    show ?thesis
      by (simp add: js_order_def filter_key_sort a b del: not_None_eq)
  qed
  then show ?thesis
    using map_of_filter_key [of "js_order ps" k] map_of_filter_key [of ps k] by simp
qed

lemma get_prop_js_order: "get_prop (js_order ps) k = get_prop ps k"
  by (simp add: get_prop_def map_of_js_order)

lemma has_bigint_js_order: "has_bigint (JObj (js_order ps)) = has_bigint (JObj ps)"
  by (simp add: list_ex_iff set_js_order)

lemma set_update_subset: "set (AList.update k v ps) \<subseteq> insert (k, v) (set ps)"
  by (induction ps) auto

lemma set_assign: "set (assign a b) \<subseteq> set a \<union> set b"
proof (induction b arbitrary: a)
  case Nil
  show ?case by (simp add: assign_def)
next
  case (Cons kv b)
  have "set (assign (AList.update (fst kv) (snd kv) a) b) \<subseteq> set (AList.update (fst kv) (snd kv) a) \<union> set b"
    by (rule Cons.IH)
  moreover have "set (AList.update (fst kv) (snd kv) a) \<subseteq> insert kv (set a)"
    using set_update_subset [of "fst kv" "snd kv" a] by simp
  ultimately show ?case by (auto simp add: assign_def)
qed

lemma no_bigint_assign:
  "\<not> has_bigint (JObj a) \<Longrightarrow> \<not> has_bigint (JObj b) \<Longrightarrow> \<not> has_bigint (JObj (assign a b))"
  using set_assign [of a b] by (auto simp add: list_ex_iff)

lemma spread_index_keys:
  "spread [(''version'', JStr ''1.1''), (''host'', JStr ''h'')] (own_props (JArr [JStr ''a'', JStr ''b'']))
     = [(''0'', JStr ''a''), (''1'', JStr ''b''), (''version'', JStr ''1.1''), (''host'', JStr ''h'')]"
proof -
  have k: "own_props (JArr [JStr ''a'', JStr ''b'']) = [(''0'', JStr ''a''), (''1'', JStr ''b'')]"
    by code_simp
  show ?thesis
    unfolding k
    by (simp add: spread_def assign_def js_order_def index_of_def array_index_def is_digit_def
        nat_of_digits_def)
qed

lemma get_prop_spread: "get_prop (spread a b) k = get_prop (assign a b) k"
  by (simp add: spread_def get_prop_js_order)

lemma no_bigint_spread:
  "\<not> has_bigint (JObj a) \<Longrightarrow> \<not> has_bigint (JObj b) \<Longrightarrow> \<not> has_bigint (JObj (spread a b))"
  unfolding spread_def has_bigint_js_order by (rule no_bigint_assign)

lemma no_bigint_defaults: "\<not> has_bigint (JObj (defaultLogValues st))"
  by (simp add: defaultLogValues_def)

lemma get_prop_update:
  "get_prop (AList.update k v ps) k' = (if k' = k then v else get_prop ps k')"
  by (simp add: get_prop_def update_conv')

lemma formatLog_error:
  "\<exists>rec. formatLog st am (JError nm m stack) level = Inr rec \<and>
     get_prop rec ''level'' = JNum 3 \<and> get_prop rec ''short_message'' = JStr m \<and>
     get_prop rec ''full_message'' = opt_str stack \<and> get_prop rec ''_error_code'' = JStr nm"
  by (simp add: formatLog_def get_prop_spread assign_def get_prop_update LOG_LEVELS_error_def Let_def)

lemma formatLog_string:
  "\<exists>rec. formatLog st am (JStr s) level = Inr rec \<and>
     get_prop rec ''level'' = JNum (of_int level) \<and> get_prop rec ''short_message'' = JStr s"
  by (simp add: formatLog_def get_prop_spread assign_def get_prop_update Let_def)

text \<open>
  C8. The filter is a function of the level and the configuration alone. When the
  configured name is one of the table \<open>LOG_LEVELS\<close> (fatal 2, error 3, warn 4, info 6,
  debug 7), \<open>shouldLog\<close> holds exactly when the level is at most the configured number.
  Configured at \<open>warn\<close>, it rejects debug and info and accepts error and warn; the
  debug and info emit functions, context-bound or not, then return with the world
  unchanged, so nothing reaches the logger or the transport, while an error or warn
  record goes to the logger and on to \<open>sendToGraylog\<close>.
\<close>

theorem shouldLog_severity_filter:
  "(\<forall>env l n. map_of LOG_LEVELS (graylogLogLevel env) = Some n \<longrightarrow> shouldLog env l = (l \<le> n))
   \<and> LOG_LEVELS = [(''fatal'', 2), (''error'', 3), (''warn'', 4), (''info'', 6), (''debug'', 7)]
   \<and> (\<forall>env. graylogLogLevel env = ''warn'' \<longrightarrow>
         \<not> shouldLog env LOG_LEVELS_debug \<and> \<not> shouldLog env LOG_LEVELS_info \<and>
         shouldLog env LOG_LEVELS_error \<and> shouldLog env LOG_LEVELS_warn)
   \<and> (\<forall>st am mess args c w. graylogLogLevel (environment st) = ''warn'' \<longrightarrow>
         safeLogger_debug st am mess args w = Inr w \<and>
         safeLogger_info st am mess args w = Inr w \<and>
         context_debug st c am mess args w = Inr w \<and>
         context_info st c am mess args w = Inr w)
   \<and> (\<forall>st am s args w.
         graylogLogLevel (environment st) = ''warn'' \<and> pino_fails am = None \<longrightarrow>
         (\<exists>rec. formatLog st am (JStr s) LOG_LEVELS_error = Inr rec \<and>
            safeLogger_error st am (JStr s) args w
              = Inr (sendToGraylog st (JObj rec)
                       (fst w, (snd w)\<lparr>pino := pino (snd w) @ [(CError, JObj rec, args)]\<rparr>))) \<and>
         (\<exists>rec. formatLog st am (JStr s) LOG_LEVELS_warn = Inr rec \<and>
            safeLogger_warn st am (JStr s) args w
              = Inr (sendToGraylog st (JObj rec)
                       (fst w, (snd w)\<lparr>pino := pino (snd w) @ [(CWarn, JObj rec, args)]\<rparr>))))"
proof (intro conjI allI impI)
  fix env :: Environment and l n
  assume "map_of LOG_LEVELS (graylogLogLevel env) = Some n"
  then show "shouldLog env l = (l \<le> n)" by (rule shouldLog_known)
next
  show "LOG_LEVELS = [(''fatal'', 2), (''error'', 3), (''warn'', 4), (''info'', 6), (''debug'', 7)]"
    by (simp add: LOG_LEVELS_def LOG_LEVELS_fatal_def LOG_LEVELS_error_def LOG_LEVELS_warn_def
        LOG_LEVELS_info_def LOG_LEVELS_debug_def)
next
  fix env :: Environment
  assume w: "graylogLogLevel env = ''warn''"
  show "\<not> shouldLog env LOG_LEVELS_debug" by (simp add: shouldLog_warn[OF w] LOG_LEVELS_debug_def)
  show "\<not> shouldLog env LOG_LEVELS_info" by (simp add: shouldLog_warn[OF w] LOG_LEVELS_info_def)
  show "shouldLog env LOG_LEVELS_error" by (simp add: shouldLog_warn[OF w] LOG_LEVELS_error_def)
  show "shouldLog env LOG_LEVELS_warn" by (simp add: shouldLog_warn[OF w] LOG_LEVELS_warn_def)
next
  fix st :: settings and am :: ambient and mess args c and w :: world
  assume w: "graylogLogLevel (environment st) = ''warn''"
  have d: "\<not> shouldLog (environment st) LOG_LEVELS_debug"
    by (simp add: shouldLog_warn[OF w] LOG_LEVELS_debug_def)
  have i: "\<not> shouldLog (environment st) LOG_LEVELS_info"
    by (simp add: shouldLog_warn[OF w] LOG_LEVELS_info_def)
  show "safeLogger_debug st am mess args w = Inr w"
    by (simp add: safeLogger_debug_def emit_suppressed[OF d])
  show "safeLogger_info st am mess args w = Inr w"
    by (simp add: safeLogger_info_def emit_suppressed[OF i])
  show "context_debug st c am mess args w = Inr w"
    by (simp add: context_debug_def emit_suppressed[OF d])
  show "context_info st c am mess args w = Inr w"
    by (simp add: context_info_def emit_suppressed[OF i])
next
  fix st :: settings and am :: ambient and s args and w :: world
  assume h: "graylogLogLevel (environment st) = ''warn'' \<and> pino_fails am = None"
  then have w: "graylogLogLevel (environment st) = ''warn''" and p: "pino_fails am = None" by auto
  have e: "shouldLog (environment st) LOG_LEVELS_error"
    by (simp add: shouldLog_warn[OF w] LOG_LEVELS_error_def)
  have wn: "shouldLog (environment st) LOG_LEVELS_warn"
    by (simp add: shouldLog_warn[OF w] LOG_LEVELS_warn_def)
  obtain r1 where r1: "formatLog st am (JStr s) LOG_LEVELS_error = Inr r1"
    using formatLog_string[of st am s LOG_LEVELS_error] by blast
  obtain r2 where r2: "formatLog st am (JStr s) LOG_LEVELS_warn = Inr r2"
    using formatLog_string[of st am s LOG_LEVELS_warn] by blast
  show "\<exists>rec. formatLog st am (JStr s) LOG_LEVELS_error = Inr rec \<and>
            safeLogger_error st am (JStr s) args w
              = Inr (sendToGraylog st (JObj rec)
                       (fst w, (snd w)\<lparr>pino := pino (snd w) @ [(CError, JObj rec, args)]\<rparr>))"
    using emit_passes[OF e p r1] r1 by (simp add: safeLogger_error_def)
  show "\<exists>rec. formatLog st am (JStr s) LOG_LEVELS_warn = Inr rec \<and>
            safeLogger_warn st am (JStr s) args w
              = Inr (sendToGraylog st (JObj rec)
                       (fst w, (snd w)\<lparr>pino := pino (snd w) @ [(CWarn, JObj rec, args)]\<rparr>))"
    using emit_passes[OF wn p r2] r2 by (simp add: safeLogger_warn_def)
qed

theorem shouldLog_severity_filter_witness:
  "map_of LOG_LEVELS (graylogLogLevel (env_of_level ''warn'')) = Some 4 \<and>
   shouldLog (env_of_level ''warn'') 3 \<and> shouldLog (env_of_level ''warn'') 4 \<and>
   shouldLog (env_of_level ''warn'') 6 = False \<and> shouldLog (env_of_level ''warn'') 7 = False \<and>
   safeLogger_debug (settings_of_level ''warn'') ambient0 (JStr ''cache miss'') [] (None, runtime0)
     = Inr (None, runtime0) \<and>
   safeLogger_info (settings_of_level ''warn'') ambient0 (JStr ''cart updated'') [] (None, runtime0)
     = Inr (None, runtime0) \<and>
   (\<exists>rec. formatLog (settings_of_level ''warn'') ambient0 (JStr ''payment failed'') LOG_LEVELS_error
            = Inr rec \<and>
      safeLogger_error (settings_of_level ''warn'') ambient0 (JStr ''payment failed'') []
          (None, runtime0)
        = Inr (None, runtime0\<lparr>pino := [(CError, JObj rec, [])]\<rparr>))"
proof -
  have m: "map_of LOG_LEVELS (graylogLogLevel (env_of_level ''warn'')) = Some 4"
    by (simp add: env_of_level_def LOG_LEVELS_def LOG_LEVELS_warn_def)
  have w: "graylogLogLevel (environment (settings_of_level ''warn'')) = ''warn''"
    by (simp add: settings_of_level_def env_of_level_def)
  have p: "pino_fails ambient0 = None" by (simp add: ambient0_def)
  note T = shouldLog_severity_filter
  from T have c1: "\<forall>env l n. map_of LOG_LEVELS (graylogLogLevel env) = Some n \<longrightarrow>
      shouldLog env l = (l \<le> n)"
    by (rule conjunct1)
  from T have c4: "\<forall>st am mess args c w. graylogLogLevel (environment st) = ''warn'' \<longrightarrow>
         safeLogger_debug st am mess args w = Inr w \<and>
         safeLogger_info st am mess args w = Inr w \<and>
         context_debug st c am mess args w = Inr w \<and>
         context_info st c am mess args w = Inr w"
    by (elim conjE)
  from T have c5: "\<forall>st am s args w.
         graylogLogLevel (environment st) = ''warn'' \<and> pino_fails am = None \<longrightarrow>
         (\<exists>rec. formatLog st am (JStr s) LOG_LEVELS_error = Inr rec \<and>
            safeLogger_error st am (JStr s) args w
              = Inr (sendToGraylog st (JObj rec)
                       (fst w, (snd w)\<lparr>pino := pino (snd w) @ [(CError, JObj rec, args)]\<rparr>))) \<and>
         (\<exists>rec. formatLog st am (JStr s) LOG_LEVELS_warn = Inr rec \<and>
            safeLogger_warn st am (JStr s) args w
              = Inr (sendToGraylog st (JObj rec)
                       (fst w, (snd w)\<lparr>pino := pino (snd w) @ [(CWarn, JObj rec, args)]\<rparr>)))"
    by (elim conjE)
  have s: "shouldLog (env_of_level ''warn'') l = (l \<le> 4)" for l
    using c1[rule_format, OF m] .
  have d: "safeLogger_debug (settings_of_level ''warn'') ambient0 (JStr ''cache miss'') [] (None, runtime0)
     = Inr (None, runtime0)"
    using c4[rule_format, OF w] by blast
  have i: "safeLogger_info (settings_of_level ''warn'') ambient0 (JStr ''cart updated'') [] (None, runtime0)
     = Inr (None, runtime0)"
    using c4[rule_format, OF w] by blast
  from c5[rule_format, OF conjI[OF w p], of "''payment failed''" "[]" "(None, runtime0)"]
  obtain rec where
    "formatLog (settings_of_level ''warn'') ambient0 (JStr ''payment failed'') LOG_LEVELS_error = Inr rec"
    "safeLogger_error (settings_of_level ''warn'') ambient0 (JStr ''payment failed'') [] (None, runtime0)
        = Inr (sendToGraylog (settings_of_level ''warn'') (JObj rec)
                 (fst (None :: transport option, runtime0),
                  (snd (None :: transport option, runtime0))
                     \<lparr>pino := pino (snd (None :: transport option, runtime0)) @ [(CError, JObj rec, [])]\<rparr>))"
    by blast
  then have e: "\<exists>rec. formatLog (settings_of_level ''warn'') ambient0 (JStr ''payment failed'') LOG_LEVELS_error
            = Inr rec \<and>
      safeLogger_error (settings_of_level ''warn'') ambient0 (JStr ''payment failed'') []
          (None, runtime0)
        = Inr (None, runtime0\<lparr>pino := [(CError, JObj rec, [])]\<rparr>)"
    by (simp add: sendToGraylog_def runtime0_def)
  show ?thesis using m d i e by (simp add: s)
qed

text \<open>
  C10. When the configured level is a non-empty string other than fatal, error, warn,
  info and debug, \<open>shouldLog\<close> is false at every level, and every emit function returns
  with the world unchanged. When the configured level is empty, the filter is that
  of info: it holds exactly at levels up to 6.
\<close>

theorem shouldLog_unrecognised_level:
  "(\<forall>env l. graylogLogLevel env \<noteq> [] \<and>
        graylogLogLevel env \<notin> {''fatal'', ''error'', ''warn'', ''info'', ''debug''} \<longrightarrow>
        \<not> shouldLog env l)
   \<and> (\<forall>m level st ctx am mess args w. graylogLogLevel (environment st) \<noteq> [] \<and>
        graylogLogLevel (environment st) \<notin> {''fatal'', ''error'', ''warn'', ''info'', ''debug''} \<longrightarrow>
        emit m level st ctx am mess args w = Inr w)
   \<and> (\<forall>env l. graylogLogLevel env = [] \<longrightarrow> shouldLog env l = (l \<le> LOG_LEVELS_info))
   \<and> LOG_LEVELS_info = 6"
proof (intro conjI allI impI)
  fix env :: Environment and l
  assume "graylogLogLevel env \<noteq> [] \<and>
        graylogLogLevel env \<notin> {''fatal'', ''error'', ''warn'', ''info'', ''debug''}"
  then show "\<not> shouldLog env l"
    by (intro shouldLog_unknown) (auto simp: LOG_LEVELS_def)
next
  fix m level and st :: settings and ctx am mess args and w :: world
  assume "graylogLogLevel (environment st) \<noteq> [] \<and>
        graylogLogLevel (environment st) \<notin> {''fatal'', ''error'', ''warn'', ''info'', ''debug''}"
  then have "\<not> shouldLog (environment st) level"
    by (intro shouldLog_unknown) (auto simp: LOG_LEVELS_def)
  then show "emit m level st ctx am mess args w = Inr w" by (rule emit_suppressed)
next
  fix env :: Environment and l
  assume "graylogLogLevel env = []"
  then show "shouldLog env l = (l \<le> LOG_LEVELS_info)" by (rule shouldLog_empty)
next
  show "LOG_LEVELS_info = 6" by (simp add: LOG_LEVELS_info_def)
qed

theorem shouldLog_unrecognised_level_witness:
  "graylogLogLevel (env_of_level ''verbose'') = ''verbose'' \<and>
   shouldLog (env_of_level ''verbose'') 2 = False \<and>
   shouldLog (env_of_level ''toString'') 2 = False \<and>
   emit CError LOG_LEVELS_error (settings_of_level ''verbose'') None ambient0
       (JStr ''payment failed'') [] (None, runtime0) = Inr (None, runtime0) \<and>
   shouldLog (env_of_level []) 6 \<and> shouldLog (env_of_level []) 7 = False"
proof -
  note T = shouldLog_unrecognised_level
  from T have c1: "\<forall>env l. graylogLogLevel env \<noteq> [] \<and>
        graylogLogLevel env \<notin> {''fatal'', ''error'', ''warn'', ''info'', ''debug''} \<longrightarrow>
        \<not> shouldLog env l" by (rule conjunct1)
  from T have c2: "\<forall>m level st ctx am mess args w. graylogLogLevel (environment st) \<noteq> [] \<and>
        graylogLogLevel (environment st) \<notin> {''fatal'', ''error'', ''warn'', ''info'', ''debug''} \<longrightarrow>
        emit m level st ctx am mess args w = Inr w"
    by (elim conjE)
  from T have c3: "\<forall>env l. graylogLogLevel env = [] \<longrightarrow> shouldLog env l = (l \<le> LOG_LEVELS_info)"
    by (elim conjE)
  have a: "\<not> shouldLog (env_of_level ''verbose'') 2"
    by (rule c1[rule_format]) (simp add: env_of_level_def)
  have b: "\<not> shouldLog (env_of_level ''toString'') 2"
    by (rule c1[rule_format]) (simp add: env_of_level_def)
  have c: "shouldLog (env_of_level []) l = (l \<le> LOG_LEVELS_info)" for l
    by (rule c3[rule_format]) (simp add: env_of_level_def)
  have e: "emit CError LOG_LEVELS_error (settings_of_level ''verbose'') None ambient0
       (JStr ''payment failed'') [] (None, runtime0) = Inr (None, runtime0)"
    by (rule c2[rule_format]) (simp add: settings_of_level_def env_of_level_def)
  have g: "graylogLogLevel (env_of_level ''verbose'') = ''verbose''"
    by (simp add: env_of_level_def)
  show ?thesis using a b g e by (simp add: c LOG_LEVELS_info_def)
qed

section \<open>Records made from errors\<close>

text \<open>
  C9. For an \<open>Error\<close> value \<open>formatLog\<close> returns a record whose level is 3 whatever
  level it was called with, whose short message is the error's message, whose full
  message is its stack and whose error code is its name. So an error emitted through
  \<open>warn\<close>, \<open>info\<close> or \<open>debug\<close>, when the filter lets that level through and the logger
  does not throw, reaches the logger and \<open>sendToGraylog\<close> as a record of level 3.
\<close>

theorem formatLog_error_level:
  "(\<forall>st am nm m stack level.
      \<exists>rec. formatLog st am (JError nm m stack) level = Inr rec \<and>
        get_prop rec ''level'' = JNum 3 \<and> get_prop rec ''short_message'' = JStr m \<and>
        get_prop rec ''full_message'' = opt_str stack \<and> get_prop rec ''_error_code'' = JStr nm)
   \<and> (\<forall>st am nm m stack args w.
        shouldLog (environment st) LOG_LEVELS_warn \<and> pino_fails am = None \<longrightarrow>
        (\<exists>rec. safeLogger_warn st am (JError nm m stack) args w
              = Inr (sendToGraylog st (JObj rec)
                       (fst w, (snd w)\<lparr>pino := pino (snd w) @ [(CWarn, JObj rec, args)]\<rparr>)) \<and>
          get_prop rec ''level'' = JNum 3 \<and> get_prop rec ''short_message'' = JStr m \<and>
          get_prop rec ''full_message'' = opt_str stack \<and> get_prop rec ''_error_code'' = JStr nm))
   \<and> (\<forall>st am nm m stack args w.
        shouldLog (environment st) LOG_LEVELS_info \<and> pino_fails am = None \<longrightarrow>
        (\<exists>rec. safeLogger_info st am (JError nm m stack) args w
              = Inr (sendToGraylog st (JObj rec)
                       (fst w, (snd w)\<lparr>pino := pino (snd w) @ [(CInfo, JObj rec, args)]\<rparr>)) \<and>
          get_prop rec ''level'' = JNum 3 \<and> get_prop rec ''short_message'' = JStr m \<and>
          get_prop rec ''full_message'' = opt_str stack \<and> get_prop rec ''_error_code'' = JStr nm))
   \<and> (\<forall>st am nm m stack args w.
        shouldLog (environment st) LOG_LEVELS_debug \<and> pino_fails am = None \<longrightarrow>
        (\<exists>rec. safeLogger_debug st am (JError nm m stack) args w
              = Inr (sendToGraylog st (JObj rec)
                       (fst w, (snd w)\<lparr>pino := pino (snd w) @ [(CDebug, JObj rec, args)]\<rparr>)) \<and>
          get_prop rec ''level'' = JNum 3 \<and> get_prop rec ''short_message'' = JStr m \<and>
          get_prop rec ''full_message'' = opt_str stack \<and> get_prop rec ''_error_code'' = JStr nm))"
proof -
  have through: "\<exists>rec. emit cm level st None am (JError nm m stack) args w
              = Inr (sendToGraylog st (JObj rec)
                       (fst w, (snd w)\<lparr>pino := pino (snd w) @ [(cm, JObj rec, args)]\<rparr>)) \<and>
          get_prop rec ''level'' = JNum 3 \<and> get_prop rec ''short_message'' = JStr m \<and>
          get_prop rec ''full_message'' = opt_str stack \<and> get_prop rec ''_error_code'' = JStr nm"
    if "shouldLog (environment st) level \<and> pino_fails am = None"
    for cm level st am nm m stack args and w :: world
  proof -
    from that have s: "shouldLog (environment st) level" and p: "pino_fails am = None" by auto
    obtain rec where f: "formatLog st am (JError nm m stack) level = Inr rec"
      and g: "get_prop rec ''level'' = JNum 3" "get_prop rec ''short_message'' = JStr m"
        "get_prop rec ''full_message'' = opt_str stack" "get_prop rec ''_error_code'' = JStr nm"
      using formatLog_error[of st am nm m stack level] by blast
    from emit_passes[OF s p f] g show ?thesis by blast
  qed
  show ?thesis
    apply (intro conjI allI impI)
       apply (rule formatLog_error)
      apply (simp only: safeLogger_warn_def, erule through)
     apply (simp only: safeLogger_info_def, erule through)
    apply (simp only: safeLogger_debug_def, erule through)
    done
qed

theorem formatLog_error_level_witness:
  "shouldLog (environment (settings_of_level ''debug'')) LOG_LEVELS_warn \<and>
   shouldLog (environment (settings_of_level ''debug'')) LOG_LEVELS_info \<and>
   shouldLog (environment (settings_of_level ''debug'')) LOG_LEVELS_debug \<and>
   pino_fails ambient0 = None \<and>
   (\<exists>rec. safeLogger_warn (settings_of_level ''debug'') ambient0
            (JError ''RangeError'' ''out of range'' (Some ''RangeError: out of range at f'')) []
            (None, runtime0)
          = Inr (None, runtime0\<lparr>pino := [(CWarn, JObj rec, [])]\<rparr>) \<and>
      get_prop rec ''level'' = JNum 3 \<and> get_prop rec ''short_message'' = JStr ''out of range'' \<and>
      get_prop rec ''full_message'' = JStr ''RangeError: out of range at f'' \<and>
      get_prop rec ''_error_code'' = JStr ''RangeError'') \<and>
   (\<exists>rec. safeLogger_info (settings_of_level ''debug'') ambient0
            (JError ''RangeError'' ''out of range'' None) [] (None, runtime0)
          = Inr (None, runtime0\<lparr>pino := [(CInfo, JObj rec, [])]\<rparr>) \<and>
      get_prop rec ''level'' = JNum 3 \<and> get_prop rec ''full_message'' = JUndefined) \<and>
   (\<exists>rec. safeLogger_debug (settings_of_level ''debug'') ambient0
            (JError ''RangeError'' ''out of range'' None) [] (None, runtime0)
          = Inr (None, runtime0\<lparr>pino := [(CDebug, JObj rec, [])]\<rparr>) \<and>
      get_prop rec ''level'' = JNum 3 \<and> get_prop rec ''_error_code'' = JStr ''RangeError'')"
proof -
  have s: "shouldLog (environment (settings_of_level ''debug'')) l = (l \<le> 7)" for l
    by (simp add: shouldLog_def str_or_def settings_of_level_def env_of_level_def
        LOG_LEVELS_at_def LOG_LEVELS_def LOG_LEVELS_debug_def)
  have sw: "shouldLog (environment (settings_of_level ''debug'')) LOG_LEVELS_warn"
    and si: "shouldLog (environment (settings_of_level ''debug'')) LOG_LEVELS_info"
    and sd: "shouldLog (environment (settings_of_level ''debug'')) LOG_LEVELS_debug"
    by (simp_all add: s LOG_LEVELS_warn_def LOG_LEVELS_info_def LOG_LEVELS_debug_def)
  have p: "pino_fails ambient0 = None" by (simp add: ambient0_def)
  note T = formatLog_error_level
  from T have cw:
    "\<forall>st am nm m stack args w.
        shouldLog (environment st) LOG_LEVELS_warn \<and> pino_fails am = None \<longrightarrow>
        (\<exists>rec. safeLogger_warn st am (JError nm m stack) args w
              = Inr (sendToGraylog st (JObj rec)
                       (fst w, (snd w)\<lparr>pino := pino (snd w) @ [(CWarn, JObj rec, args)]\<rparr>)) \<and>
          get_prop rec ''level'' = JNum 3 \<and> get_prop rec ''short_message'' = JStr m \<and>
          get_prop rec ''full_message'' = opt_str stack \<and> get_prop rec ''_error_code'' = JStr nm)"
    by (elim conjE)
  from T have ci:
    "\<forall>st am nm m stack args w.
        shouldLog (environment st) LOG_LEVELS_info \<and> pino_fails am = None \<longrightarrow>
        (\<exists>rec. safeLogger_info st am (JError nm m stack) args w
              = Inr (sendToGraylog st (JObj rec)
                       (fst w, (snd w)\<lparr>pino := pino (snd w) @ [(CInfo, JObj rec, args)]\<rparr>)) \<and>
          get_prop rec ''level'' = JNum 3 \<and> get_prop rec ''short_message'' = JStr m \<and>
          get_prop rec ''full_message'' = opt_str stack \<and> get_prop rec ''_error_code'' = JStr nm)"
    by (elim conjE)
  from T have cd:
    "\<forall>st am nm m stack args w.
        shouldLog (environment st) LOG_LEVELS_debug \<and> pino_fails am = None \<longrightarrow>
        (\<exists>rec. safeLogger_debug st am (JError nm m stack) args w
              = Inr (sendToGraylog st (JObj rec)
                       (fst w, (snd w)\<lparr>pino := pino (snd w) @ [(CDebug, JObj rec, args)]\<rparr>)) \<and>
          get_prop rec ''level'' = JNum 3 \<and> get_prop rec ''short_message'' = JStr m \<and>
          get_prop rec ''full_message'' = opt_str stack \<and> get_prop rec ''_error_code'' = JStr nm)"
    by (elim conjE)
  have w: "\<exists>rec. safeLogger_warn (settings_of_level ''debug'') ambient0
            (JError ''RangeError'' ''out of range'' (Some ''RangeError: out of range at f'')) []
            (None, runtime0)
          = Inr (None, runtime0\<lparr>pino := [(CWarn, JObj rec, [])]\<rparr>) \<and>
      get_prop rec ''level'' = JNum 3 \<and> get_prop rec ''short_message'' = JStr ''out of range'' \<and>
      get_prop rec ''full_message'' = JStr ''RangeError: out of range at f'' \<and>
      get_prop rec ''_error_code'' = JStr ''RangeError''"
    using cw[rule_format, OF conjI[OF sw p], of "''RangeError''" "''out of range''"
      "Some ''RangeError: out of range at f''" "[]" "(None, runtime0)"]
    by (simp add: sendToGraylog_def runtime0_def opt_str_def)
  have i: "\<exists>rec. safeLogger_info (settings_of_level ''debug'') ambient0
            (JError ''RangeError'' ''out of range'' None) [] (None, runtime0)
          = Inr (None, runtime0\<lparr>pino := [(CInfo, JObj rec, [])]\<rparr>) \<and>
      get_prop rec ''level'' = JNum 3 \<and> get_prop rec ''full_message'' = JUndefined"
    using ci[rule_format, OF conjI[OF si p], of "''RangeError''" "''out of range''" None "[]"
        "(None, runtime0)"]
    by (auto simp: sendToGraylog_def runtime0_def opt_str_def)
  have d: "\<exists>rec. safeLogger_debug (settings_of_level ''debug'') ambient0
            (JError ''RangeError'' ''out of range'' None) [] (None, runtime0)
          = Inr (None, runtime0\<lparr>pino := [(CDebug, JObj rec, [])]\<rparr>) \<and>
      get_prop rec ''level'' = JNum 3 \<and> get_prop rec ''_error_code'' = JStr ''RangeError''"
    using cd[rule_format, OF conjI[OF sd p], of "''RangeError''" "''out of range''" None "[]"
        "(None, runtime0)"]
    by (auto simp: sendToGraylog_def runtime0_def opt_str_def)
  show ?thesis
    by (intro conjI) (rule sw si sd p w i d)+
qed

section \<open>The emit functions and the fallback line\<close>

text \<open>
  A transport constructed when the socket can be created: connected, on a new socket
  that is not bound yet.
\<close>

lemma new_connected:
  "new_GraylogTransport h p None r
     = (\<lparr>client = Some (length (sockets r)), host = h, port = p, connected = True,
         buffer = [], maxBufferSize = 100, reconnectTimeout = None\<rparr>,
        r\<lparr>sockets := sockets r @ [Unbound]\<rparr>)"
  by (simp add: new_GraylogTransport_def setupConnection_def createSocket_def processBuffer_def
      Let_def)

lemma fresh_connected:
  "new_GraylogTransport ''graylog.local'' 12201 None runtime0
     = (\<lparr>client = Some 0, host = ''graylog.local'', port = 12201, connected = True,
         buffer = [], maxBufferSize = 100, reconnectTimeout = None\<rparr>,
        runtime0\<lparr>sockets := [Unbound]\<rparr>)"
  by (simp add: new_connected runtime0_def)

text \<open>The first record written to that transport starts the bind of its socket.\<close>

lemma first_record:
  "write_log (fst (rec_n 1)) 1 (new_GraylogTransport ''graylog.local'' 12201 None runtime0)
     = (\<lparr>client = Some 0, host = ''graylog.local'', port = 12201, connected = True,
         buffer = [], maxBufferSize = 100, reconnectTimeout = None\<rparr>,
        runtime0\<lparr>sockets := [Binding [DSend]],
          datagrams := [(0, 12201, ''graylog.local'', Json (fst (rec_n 1)))], acks := [1]\<rparr>)"
  unfolding fresh_connected
  by (simp add: write_log_def sendLog_def to_message_def rec_n_def sock_send_def sock_state_def
      valid_port_def invoke_def runtime0_def Let_def)

lemma to_message_object:
  "\<not> has_bigint (JObj rec) \<Longrightarrow> to_message (JObj rec) = Inr (Json (JObj rec))"
  by (simp add: to_message_def)

lemma shouldLog_sample: "shouldLog (environment (settings_of_level ''info'')) l = (l \<le> 6)"
  by (simp add: shouldLog_def str_or_def settings_of_level_def env_of_level_def
        LOG_LEVELS_at_def LOG_LEVELS_def LOG_LEVELS_info_def)

lemma formatLog_string_payload:
  "\<exists>rec. formatLog st am (JStr s) level = Inr rec \<and> \<not> has_bigint (JObj rec)"
  by (simp add: formatLog_def Let_def no_bigint_spread [simplified] no_bigint_defaults [simplified])

text \<open>
  Loading the module with the sample settings creates the transport and emits the
  first record, which starts the bind of the socket.
\<close>

lemma load_record:
  "\<exists>rec. formatLog (settings_of_level ''info'') ambient0
          (JObj [(''short_message'', JStr (''Configura'' @ [c_cedilla, a_tilde] @ ''o do Graylog carregada'')),
                 (''host'', JStr ''graylog.local''),
                 (''port'', JNum 12201)]) LOG_LEVELS_info = Inr rec \<and> \<not> has_bigint (JObj rec)"
  by (simp add: formatLog_def Let_def no_bigint_spread [simplified] no_bigint_defaults [simplified]
      js_or_def get_prop_def)

lemma loaded:
  "\<exists>t r. module_load (settings_of_level ''info'') ambient0 runtime0 = Inr (Some t, r) \<and>
     client t = Some 0 \<and> connected t \<and> reconnectTimeout t = None \<and> buffer t = [] \<and>
     port t = 12201 \<and> host t = ''graylog.local'' \<and>
     sockets r = [Binding [DSend]] \<and> uncaught r = [] \<and> timers r = [] \<and>
     length (datagrams r) = 1"
proof -
  let ?st = "settings_of_level ''info''"
  let ?t = "\<lparr>client = Some 0, host = ''graylog.local'', port = 12201, connected = True,
         buffer = [], maxBufferSize = 100, reconnectTimeout = None\<rparr>"
  define r0 where "r0 = console_print CLog
             [JStr (''Graylog configurado em '' @ ''graylog.local'' @ '':'' @ show_number (Some 12201))]
             (console_print CLog
                      [JStr (''Transporte UDP para Graylog configurado em '' @ ''graylog.local'' @ '':'' @ show_int 12201)]
                (runtime0\<lparr>sockets := [Unbound]\<rparr>))"
  have e: "graylogEnabled (environment ?st) = ''true''" "graylogHost (environment ?st) = ''graylog.local''"
    "graylogPort (environment ?st) = Some 12201" "socket_fails ambient0 = None"
    "pino_fails ambient0 = None"
    by (simp_all add: settings_of_level_def env_of_level_def ambient0_def)
  have ct: "create_transport ?st ambient0 runtime0
      = (Some ?t, console_print CLog
                      [JStr (''Transporte UDP para Graylog configurado em '' @ ''graylog.local'' @ '':'' @ show_int 12201)]
                (runtime0\<lparr>sockets := [Unbound]\<rparr>))"
    unfolding create_transport_def parsed_port_def Let_def e new_connected
    by (simp add: runtime0_def)
  obtain rec where f: "formatLog ?st ambient0
          (JObj [(''short_message'', JStr (''Configura'' @ [c_cedilla, a_tilde] @ ''o do Graylog carregada'')),
                 (''host'', JStr ''graylog.local''),
                 (''port'', JNum 12201)]) LOG_LEVELS_info = Inr rec" and nb: "\<not> has_bigint (JObj rec)"
    using load_record by blast
  have s: "shouldLog (environment ?st) LOG_LEVELS_info"
    by (simp add: shouldLog_sample LOG_LEVELS_info_def)
  have m: "module_load ?st ambient0 runtime0
      = Inr (sendToGraylog ?st (JObj rec) (Some ?t, r0\<lparr>pino := pino r0 @ [(CInfo, JObj rec, [])]\<rparr>))"
    unfolding module_load_def Let_def ct e safeLogger_info_def fst_conv snd_conv js_number_def
    using emit_passes[OF s e(5) f, of CInfo "[]" "(Some ?t, r0)"]
    by (simp add: r0_def)
  have r0: "sockets r0 = [Unbound]" "uncaught r0 = []" "timers r0 = []" "datagrams r0 = []"
    by (simp_all add: r0_def console_print_def runtime0_def)
  show ?thesis
    unfolding m
    by (simp add: sendToGraylog_def e write_log_def Let_def invoke_def sendLog_def
        to_message_object[OF nb] sock_send_def sock_state_def valid_port_def r0)
qed

text \<open>
  A record emitted after \<open>close\<close>, while the bind of the socket is still pending: the
  socket queues the send behind the \<open>close\<close>, \<open>sendLog\<close> catches nothing and prints
  nothing, and the emit function returns. When the bind completes, the queued send
  finds the socket closed and its exception is uncaught.
\<close>

lemma send_behind_close:
  assumes "client t = Some 0" "connected t" "reconnectTimeout t = None" "port t = 12201"
    "sockets r = [Binding [DSend]]" "uncaught r = []"
  shows "\<exists>w'. safeLogger_error (settings_of_level ''info'') ambient0 (JStr ''payment failed'') []
            (safeLogger_close (Some t, r)) = Inr w' \<and>
          console (snd w') = console r \<and> datagrams (snd w') = datagrams r \<and>
          sockets (snd w') = [Binding [DSend, DClose, DSend]] \<and>
          uncaught (listening 0 (snd w')) = [not_running]"
proof -
  let ?st = "settings_of_level ''info''"
  have c: "safeLogger_close (Some t, r) = (Some t, r\<lparr>sockets := [Binding [DSend, DClose]]\<rparr>)"
    using assms by (simp add: safeLogger_close_def close_def Let_def sock_close_def sock_state_def)
  obtain rec where f: "formatLog ?st ambient0 (JStr ''payment failed'') LOG_LEVELS_error = Inr rec"
    and nb: "\<not> has_bigint (JObj rec)"
    using formatLog_string_payload by blast
  have s: "shouldLog (environment ?st) LOG_LEVELS_error"
    by (simp add: shouldLog_sample LOG_LEVELS_error_def)
  have p: "pino_fails ambient0 = None" by (simp add: ambient0_def)
  have e: "graylogEnabled (environment ?st) = ''true''"
    by (simp add: settings_of_level_def env_of_level_def)
  show ?thesis
    unfolding c safeLogger_error_def emit_passes[OF s p f]
    using assms
    by (simp add: sendToGraylog_def e write_log_def Let_def invoke_def sendLog_def
        to_message_object[OF nb] sock_send_def sock_state_def valid_port_def listening_def)
qed

text \<open>
  C4 fails on the code. The \<open>catch\<close> block of an emit function calls the console with
  the caller's message and arguments, outside any \<open>try\<close>. When the \<open>try\<close> block throws
  (here: \<open>formatLog\<close> on \<open>null\<close> or \<open>undefined\<close>, or the logger) and one of those values
  cannot be inspected, the exception of the console reaches the caller; no fallback
  line is printed. The last conjunct is the failure of the transport that \<open>sendLog\<close>
  does not catch: after the module is loaded and closed, an emitted record raises an
  uncaught exception when the bind of the socket completes.
\<close>

theorem emit_fallback_throws:
  "emit_try CInfo LOG_LEVELS_info (settings_of_level ''info'') None ambient0 JNull
       [JUninspectable ''boom''] (None, runtime0)
     = Inl (Exn ''TypeError'' ''Cannot read properties of null (reading 'msg')'', (None, runtime0)) \<and>
   safeLogger_info (settings_of_level ''info'') ambient0 JNull [JUninspectable ''boom'']
       (None, runtime0)
     = Inl (Exn ''Error'' ''boom'') \<and>
   safeLogger_error (settings_of_level ''info'') (ambient0\<lparr>pino_fails := Some ''worker has exited''\<rparr>)
       (JObj [(''msg'', JStr ''payment failed''), (''order'', JUninspectable ''boom'')]) []
       (None, runtime0)
     = Inl (Exn ''Error'' ''boom'') \<and>
   context_warn (settings_of_level ''info'') [(''request'', JStr ''r-17'')] ambient0 JUndefined
       [JArr [JUninspectable ''boom'']] (None, runtime0)
     = Inl (Exn ''Error'' ''boom'') \<and>
   (\<exists>t r w'. module_load (settings_of_level ''info'') ambient0 runtime0 = Inr (Some t, r) \<and>
      safeLogger_error (settings_of_level ''info'') ambient0 (JStr ''payment failed'') []
          (safeLogger_close (Some t, r)) = Inr w' \<and>
      console (snd w') = console r \<and>
      sockets (snd w') = [Binding [DSend, DClose, DSend]] \<and>
      uncaught (listening 0 (snd w')) = [not_running])"
proof -
  let ?st = "settings_of_level ''info''"
  have a: "emit_try CInfo LOG_LEVELS_info ?st None ambient0 JNull [JUninspectable ''boom'']
        (None, runtime0)
     = Inl (Exn ''TypeError'' ''Cannot read properties of null (reading 'msg')'', (None, runtime0))"
    by (simp add: emit_try_def shouldLog_sample LOG_LEVELS_info_def formatLog_def Let_def)
  have b: "safeLogger_info ?st ambient0 JNull [JUninspectable ''boom''] (None, runtime0)
     = Inl (Exn ''Error'' ''boom'')"
    unfolding safeLogger_info_def emit_fallback[OF a] by simp
  have c0: "emit_try CError LOG_LEVELS_error ?st None (ambient0\<lparr>pino_fails := Some ''worker has exited''\<rparr>)
       (JObj [(''msg'', JStr ''payment failed''), (''order'', JUninspectable ''boom'')]) []
       (None, runtime0) = Inl (Exn ''Error'' ''worker has exited'', (None, runtime0))"
    by (simp add: emit_try_def shouldLog_sample LOG_LEVELS_error_def formatLog_def Let_def
        logger_call_def)
  have c: "safeLogger_error ?st (ambient0\<lparr>pino_fails := Some ''worker has exited''\<rparr>)
       (JObj [(''msg'', JStr ''payment failed''), (''order'', JUninspectable ''boom'')]) []
       (None, runtime0) = Inl (Exn ''Error'' ''boom'')"
    unfolding safeLogger_error_def emit_fallback[OF c0] by (simp add: numeral_3_eq_3)
  have d0: "emit_try CWarn LOG_LEVELS_warn ?st (Some (spread [] [(''request'', JStr ''r-17'')])) ambient0
       JUndefined [JArr [JUninspectable ''boom'']] (None, runtime0)
     = Inl (Exn ''TypeError'' ''Cannot read properties of undefined (reading 'msg')'', (None, runtime0))"
    by (simp add: emit_try_def shouldLog_sample LOG_LEVELS_warn_def formatLog_def Let_def)
  have d: "context_warn ?st [(''request'', JStr ''r-17'')] ambient0 JUndefined
       [JArr [JUninspectable ''boom'']] (None, runtime0) = Inl (Exn ''Error'' ''boom'')"
    unfolding context_warn_def emit_fallback[OF d0] by (simp add: numeral_3_eq_3)
  obtain t r where l: "module_load ?st ambient0 runtime0 = Inr (Some t, r)"
    and t: "client t = Some 0" "connected t" "reconnectTimeout t = None" "port t = 12201"
    and r: "sockets r = [Binding [DSend]]" "uncaught r = []"
    using loaded by blast
  from send_behind_close[OF t r] obtain w' where
    "safeLogger_error ?st ambient0 (JStr ''payment failed'') [] (safeLogger_close (Some t, r)) = Inr w'"
    "console (snd w') = console r" "sockets (snd w') = [Binding [DSend, DClose, DSend]]"
    "uncaught (listening 0 (snd w')) = [not_running]"
    by blast
  with l have e: "\<exists>t r w'. module_load ?st ambient0 runtime0 = Inr (Some t, r) \<and>
      safeLogger_error ?st ambient0 (JStr ''payment failed'') []
          (safeLogger_close (Some t, r)) = Inr w' \<and>
      console (snd w') = console r \<and>
      sockets (snd w') = [Binding [DSend, DClose, DSend]] \<and>
      uncaught (listening 0 (snd w')) = [not_running]"
    by blast
  show ?thesis
    by (intro conjI) (rule a b c d e)+
qed

section \<open>The connection test when the feature is off\<close>

text \<open>
  With the enabled flag set and no transport, the test takes the direct path of lines
  309 to 337, which creates a socket of its own whatever the host is.
\<close>

lemma formatLog_object: "\<exists>rec. formatLog st am (JObj ps) level = Inr rec"
  by (simp add: formatLog_def Let_def)

lemma sockets_length:
  "sock_send s p prt hst r = Inr r' \<Longrightarrow> length (sockets r') = length (sockets r)"
  "sock_close s r = Inr r' \<Longrightarrow> length (sockets r') = length (sockets r)"
  "length (sockets (listening s r)) = length (sockets r)"
  "length (sockets (bind_failed s r)) = length (sockets r)"
  "length (sockets (close_in_callback s r)) = length (sockets r)"
  by (auto simp: sock_send_def sock_close_def listening_def bind_failed_def close_in_callback_def
      split: if_splits sock.splits option.splits sum.splits)

lemma direct_test_send_sockets:
  assumes "socket_fails am = None"
  shows "case direct_test_send am lg prt hst r of
           Inl er \<Rightarrow> length (sockets (snd er)) = Suc (length (sockets r))
         | Inr br \<Rightarrow> length (sockets (snd br)) = Suc (length (sockets r))"
  using assms
  by (auto simp: direct_test_send_def createSocket_def sockets_length Let_def
      split: sum.splits direct_send.splits)

lemma formatLog_object_Inr: "formatLog st am (JObj ps) level \<noteq> Inl e"
  using formatLog_object[of st am ps level] by auto

lemma direct_test_send_Inl:
  "socket_fails am = None \<Longrightarrow> direct_test_send am lg prt hst r = Inl er
   \<Longrightarrow> length (sockets (snd er)) = Suc (length (sockets r))"
  using direct_test_send_sockets[where am = am and lg = lg and prt = prt and hst = hst and r = r] by simp

lemma direct_test_send_Inr:
  "socket_fails am = None \<Longrightarrow> direct_test_send am lg prt hst r = Inr br
   \<Longrightarrow> length (sockets (snd br)) = Suc (length (sockets r))"
  using direct_test_send_sockets[where am = am and lg = lg and prt = prt and hst = hst and r = r] by simp

lemma test_direct_creates_socket:
  assumes "graylogEnabled (environment st) \<noteq> []" "graylogPort (environment st) = Some prt"
    "socket_fails am = None"
  shows "length (sockets (snd (snd (testGraylogConnection st am (None, r)))))
         = Suc (length (sockets r))"
  using assms
  by (auto simp: testGraylogConnection_def Let_def parsed_port_def formatLog_object_Inr
      split: sum.splits dest: direct_test_send_Inl direct_test_send_Inr)

text \<open>
  C7 as stated fails: with no variable of the environment set, the message of the
  result is not the text \<open>disabled\<close>. And an empty host alone does not turn the test
  off: with only the enabled flag set, the test creates a socket.
\<close>

theorem testGraylogConnection_detail_counterexample:
  "message (fst (testGraylogConnection disabled_settings ambient0 (None, runtime0))) \<noteq> ''disabled'' \<and>
   graylogHost (environment hostless_settings) = [] \<and>
   length (sockets (snd (snd (testGraylogConnection hostless_settings ambient0 (None, runtime0))))) = 1"
proof -
  have 1: "message (fst (testGraylogConnection disabled_settings ambient0 (None, runtime0))) \<noteq> ''disabled''"
    by (simp add: testGraylogConnection_def Let_def disabled_settings_def msg_not_enabled_def)
  have 2: "graylogHost (environment hostless_settings) = []"
    by (simp add: hostless_settings_def)
  have e: "graylogEnabled (environment hostless_settings) \<noteq> []"
    and p: "graylogPort (environment hostless_settings) = Some 0"
    and f: "socket_fails ambient0 = None"
    by (simp_all add: hostless_settings_def ambient0_def)
  have 3: "length (sockets (snd (snd (testGraylogConnection hostless_settings ambient0 (None, runtime0))))) = 1"
    using test_direct_creates_socket[OF e p f, of runtime0] by (simp add: runtime0_def)
  show ?thesis using 1 2 3 by (intro conjI)
qed

text \<open>
  C7, amended. When the enabled flag of the configuration is empty,
  \<open>testGraylogConnection\<close> resolves to \<open>success = false\<close> with the Portuguese message
  of line 277 (Graylog is not enabled in the settings; the last conjunct spells it
  out), and leaves the world as it was: no socket is created, nothing is sent.
  Loading the module with that configuration creates no transport and no socket either.
\<close>

theorem testGraylogConnection_disabled:
  "(\<forall>st am w. graylogEnabled (environment st) = [] \<longrightarrow>
      testGraylogConnection st am w = (\<lparr>success = False, message = msg_not_enabled\<rparr>, w))
   \<and> (\<forall>st am r. graylogEnabled (environment st) = [] \<longrightarrow> module_load st am r = Inr (None, r))
   \<and> msg_not_enabled = ''Graylog n'' @ [CHR 0xE3] @ ''o est'' @ [CHR 0xE1]
        @ '' ativado nas configura'' @ [CHR 0xE7, CHR 0xF5] @ ''es.''"
  by (simp add: testGraylogConnection_def module_load_def create_transport_def Let_def
      msg_not_enabled_def)

theorem testGraylogConnection_disabled_witness:
  "graylogEnabled (environment disabled_settings) = [] \<and>
   success (fst (testGraylogConnection disabled_settings ambient0 (None, runtime0))) = False \<and>
   snd (testGraylogConnection disabled_settings ambient0 (None, runtime0)) = (None, runtime0) \<and>
   sockets (snd (snd (testGraylogConnection disabled_settings ambient0 (None, runtime0)))) = [] \<and>
   module_load disabled_settings ambient0 runtime0 = Inr (None, runtime0)"
proof -
  have d: "graylogEnabled (environment disabled_settings) = []"
    by (simp add: disabled_settings_def)
  from testGraylogConnection_disabled have
    "\<forall>st am w. graylogEnabled (environment st) = [] \<longrightarrow>
      testGraylogConnection st am w = (\<lparr>success = False, message = msg_not_enabled\<rparr>, w)"
    by (rule conjunct1)
  note a = this[rule_format, OF d, of ambient0 "(None, runtime0)"]
  from testGraylogConnection_disabled have
    "\<forall>st am r. graylogEnabled (environment st) = [] \<longrightarrow> module_load st am r = Inr (None, r)"
    by (elim conjE)
  note b = this[rule_format, OF d, of ambient0 runtime0]
  show ?thesis using a b d by (simp add: runtime0_def)
qed

section \<open>Closing twice\<close>

lemma flush_sends: "DClose \<notin> set q \<Longrightarrow> flush q = (Bound, None)"
  by (induction q rule: flush.induct) simp_all

lemma flush_one_close: "DClose \<notin> set q \<Longrightarrow> flush (q @ [DClose]) = (Closed, None)"
  by (induction q rule: flush.induct) simp_all

lemma flush_behind_close: "DClose \<in> set q \<Longrightarrow> flush (q @ [d]) = (Closed, Some not_running)"
  by (induction q rule: flush.induct) simp_all

lemma sock_state_update:
  "c < length (sockets r) \<Longrightarrow> sock_state c (r\<lparr>sockets := (sockets r)[c := x]\<rparr>) = x"
  by (simp add: sock_state_def)

lemma sock_state_Binding:
  "sock_state c r = Binding q \<Longrightarrow> c < length (sockets r)"
  by (simp add: sock_state_def split: if_splits)

lemma listening_Binding:
  assumes "sock_state c r = Binding q"
  shows "sock_state c (listening c r) = fst (flush q)"
    and "uncaught (listening c r) = uncaught r @ (case snd (flush q) of None \<Rightarrow> [] | Some e \<Rightarrow> [e])"
proof -
  have l: "c < length (sockets r)" using assms by (rule sock_state_Binding)
  show "sock_state c (listening c r) = fst (flush q)"
    unfolding listening_def assms using l by (simp add: sock_state_def split: option.splits)
  show "uncaught (listening c r) = uncaught r @ (case snd (flush q) of None \<Rightarrow> [] | Some e \<Rightarrow> [e])"
    unfolding listening_def assms by (simp split: option.splits)
qed

text \<open>
  The first \<open>close\<close> on a socket that is settled (not bound yet and never used, or
  bound) closes it; a second one finds it closed, and the exception of
  \<open>client.close()\<close> is swallowed by the \<open>catch\<close>: the second call changes nothing.
\<close>

lemma close_twice_settled:
  assumes "client (fst s) = None \<or>
     (\<exists>c. client (fst s) = Some c \<and> (\<forall>q. sock_state c (snd s) \<noteq> Binding q))"
  shows "close (close s) = close s"
proof -
  obtain t r where s: "s = (t, r)" by (cases s)
  show ?thesis
  proof (cases "client t")
    case None
    then show ?thesis
      by (simp add: s close_def Let_def clearTimeout_def split: option.splits)
  next
    case (Some c)
    with assms have nb: "\<And>q. sock_state c r \<noteq> Binding q" by (simp add: s)
    have cl: "sock_state c (clearTimeout h r) = sock_state c r" for h
      by (simp add: sock_state_def clearTimeout_def)
    show ?thesis
      using nb
      by (cases "sock_state c r"; cases "c < length (sockets r)")
         (auto simp: s Some close_def Let_def sock_close_def sock_state_def clearTimeout_def
            split: option.splits)
  qed
qed

text \<open>
  While the bind of the socket is pending, each \<open>close\<close> is queued by the socket and
  returns: the second call does not throw inside the \<open>try\<close>. When the bind completes,
  the first queued \<open>close\<close> closes the socket and the second throws, outside the \<open>try\<close>.
\<close>

lemma close_twice_binding:
  assumes "client t = Some c" "sock_state c r = Binding q" "DClose \<notin> set q"
  shows "sock_state c (snd (close (t, r))) = Binding (q @ [DClose])"
    and "uncaught (listening c (snd (close (t, r)))) = uncaught r"
    and "sock_state c (listening c (snd (close (t, r)))) = Closed"
    and "sock_state c (snd (close (close (t, r)))) = Binding (q @ [DClose, DClose])"
    and "uncaught (snd (close (close (t, r)))) = uncaught r"
    and "uncaught (listening c (snd (close (close (t, r))))) = uncaught r @ [not_running]"
    and "sock_state c (listening c (snd (close (close (t, r))))) = Closed"
proof -
  have l: "c < length (sockets r)" using assms(2) by (rule sock_state_Binding)
  define r1 where "r1 = (case reconnectTimeout t of Some h \<Rightarrow> clearTimeout h r | None \<Rightarrow> r)"
  have r1: "sockets r1 = sockets r" "uncaught r1 = uncaught r" "sock_state c r1 = Binding q"
    using assms(2) by (simp_all add: r1_def sock_state_def clearTimeout_def split: option.splits if_splits)
  have c1: "close (t, r) = (t, r1\<lparr>sockets := (sockets r1)[c := Binding (q @ [DClose])]\<rparr>)"
    unfolding close_def Let_def fst_conv snd_conv r1_def[symmetric]
    using assms(1) r1(3) by (simp add: sock_close_def)
  define r2 where "r2 = r1\<lparr>sockets := (sockets r1)[c := Binding (q @ [DClose])]\<rparr>"
  have s2: "sock_state c r2 = Binding (q @ [DClose])" "uncaught r2 = uncaught r"
    "c < length (sockets r2)"
    using l by (simp_all add: r2_def r1 sock_state_def)
  define r3 where "r3 = (case reconnectTimeout t of Some h \<Rightarrow> clearTimeout h r2 | None \<Rightarrow> r2)"
  have r3: "sockets r3 = sockets r2" "uncaught r3 = uncaught r" "sock_state c r3 = Binding (q @ [DClose])"
    using s2 by (simp_all add: r3_def sock_state_def clearTimeout_def split: option.splits if_splits)
  have c2: "close (t, r2) = (t, r3\<lparr>sockets := (sockets r3)[c := Binding ((q @ [DClose]) @ [DClose])]\<rparr>)"
    unfolding close_def Let_def fst_conv snd_conv r3_def[symmetric]
    using assms(1) r3(3) by (simp add: sock_close_def)
  define r4 where "r4 = r3\<lparr>sockets := (sockets r3)[c := Binding ((q @ [DClose]) @ [DClose])]\<rparr>"
  have s4: "sock_state c r4 = Binding (q @ [DClose, DClose])" "uncaught r4 = uncaught r"
    using s2(3) by (simp_all add: r4_def r3 sock_state_def)
  have f1: "flush (q @ [DClose]) = (Closed, None)" using assms(3) by (rule flush_one_close)
  have f2: "flush (q @ [DClose, DClose]) = (Closed, Some not_running)"
    using flush_behind_close[of "q @ [DClose]" DClose] by simp
  show "sock_state c (snd (close (t, r))) = Binding (q @ [DClose])"
    unfolding c1 r2_def[symmetric] by (simp add: s2)
  show "uncaught (listening c (snd (close (t, r)))) = uncaught r"
    unfolding c1 r2_def[symmetric] snd_conv listening_Binding(2)[OF s2(1)] by (simp add: f1 s2)
  show "sock_state c (listening c (snd (close (t, r)))) = Closed"
    unfolding c1 r2_def[symmetric] snd_conv listening_Binding(1)[OF s2(1)] by (simp add: f1)
  show "sock_state c (snd (close (close (t, r)))) = Binding (q @ [DClose, DClose])"
    unfolding c1 r2_def[symmetric] c2 r4_def[symmetric] by (simp add: s4)
  show "uncaught (snd (close (close (t, r)))) = uncaught r"
    unfolding c1 r2_def[symmetric] c2 r4_def[symmetric] by (simp add: s4)
  show "uncaught (listening c (snd (close (close (t, r))))) = uncaught r @ [not_running]"
    unfolding c1 r2_def[symmetric] c2 r4_def[symmetric] snd_conv listening_Binding(2)[OF s4(1)]
    by (simp add: f2 s4)
  show "sock_state c (listening c (snd (close (close (t, r))))) = Closed"
    unfolding c1 r2_def[symmetric] c2 r4_def[symmetric] snd_conv listening_Binding(1)[OF s4(1)]
    by (simp add: f2)
qed

text \<open>
  A transport that was given one record, which started the bind of its socket, and
  was closed twice before the bind completed: the completed bind raises an uncaught
  exception. Closed once, it raises none.
\<close>

lemma close_twice_after_write:
  "sockets (snd (write_log (fst (rec_n 1)) 1
      (new_GraylogTransport ''graylog.local'' 12201 None runtime0))) = [Binding [DSend]]"
  "uncaught (listening 0 (snd (close (write_log (fst (rec_n 1)) 1
      (new_GraylogTransport ''graylog.local'' 12201 None runtime0))))) = []"
  "uncaught (listening 0 (snd (close (close (write_log (fst (rec_n 1)) 1
      (new_GraylogTransport ''graylog.local'' 12201 None runtime0))))))
     = [Exn ''Error'' ''Not running'']"
proof -
  let ?t0 = "\<lparr>client = Some 0, host = ''graylog.local'', port = 12201, connected = True,
         buffer = [], maxBufferSize = 100, reconnectTimeout = None\<rparr>"
  let ?r0 = "runtime0\<lparr>sockets := [Binding [DSend]],
           datagrams := [(0, 12201, ''graylog.local'', Json (fst (rec_n 1)))], acks := [1]\<rparr>"
  note w = first_record
  have t0: "client ?t0 = Some 0" by simp
  have b0: "sock_state 0 ?r0 = Binding [DSend]" by (simp add: sock_state_def)
  have n: "DClose \<notin> set [DSend]" by simp
  note D = close_twice_binding[OF t0 b0 n]
  show "sockets (snd (write_log (fst (rec_n 1)) 1
      (new_GraylogTransport ''graylog.local'' 12201 None runtime0))) = [Binding [DSend]]"
    unfolding w by simp
  show "uncaught (listening 0 (snd (close (write_log (fst (rec_n 1)) 1
      (new_GraylogTransport ''graylog.local'' 12201 None runtime0))))) = []"
    unfolding w D(2) by (simp add: runtime0_def)
  show "uncaught (listening 0 (snd (close (close (write_log (fst (rec_n 1)) 1
      (new_GraylogTransport ''graylog.local'' 12201 None runtime0))))))
     = [Exn ''Error'' ''Not running'']"
    unfolding w D(6) by (simp add: runtime0_def not_running_def)
qed

text \<open>
  C5 fails on the code. The module is loaded with the sample settings, which sends the
  first record and so starts the bind of the transport's socket; then \<open>safeLogger.close\<close>
  is called twice. The socket queues both calls, so the second \<open>client.close()\<close> does
  not throw inside the \<open>try\<close> of \<open>close\<close>. After one call, the completed bind closes the
  socket and nothing is thrown. After two calls, it closes the socket and the second
  queued \<open>close\<close> throws \<open>ERR_SOCKET_DGRAM_NOT_RUNNING\<close>, uncaught: the second call has an
  effect of its own, and it is an error.
\<close>

theorem close_twice_while_binding:
  "\<exists>t r. module_load (settings_of_level ''info'') ambient0 runtime0 = Inr (Some t, r) \<and>
      sockets r = [Binding [DSend]] \<and> uncaught r = [] \<and>
      sockets (snd (safeLogger_close (Some t, r))) = [Binding [DSend, DClose]] \<and>
      sockets (listening 0 (snd (safeLogger_close (Some t, r)))) = [Closed] \<and>
      uncaught (listening 0 (snd (safeLogger_close (Some t, r)))) = [] \<and>
      sockets (snd (safeLogger_close (safeLogger_close (Some t, r))))
        = [Binding [DSend, DClose, DClose]] \<and>
      uncaught (snd (safeLogger_close (safeLogger_close (Some t, r)))) = [] \<and>
      sockets (listening 0 (snd (safeLogger_close (safeLogger_close (Some t, r))))) = [Closed] \<and>
      uncaught (listening 0 (snd (safeLogger_close (safeLogger_close (Some t, r)))))
        = [Exn ''Error'' ''Not running'']"
proof -
  let ?st = "settings_of_level ''info''"
  obtain t r where l: "module_load ?st ambient0 runtime0 = Inr (Some t, r)"
    and t: "client t = Some 0" and r: "sockets r = [Binding [DSend]]" "uncaught r = []"
    using loaded by blast
  have b: "sock_state 0 r = Binding [DSend]" by (simp add: sock_state_def r)
  have n: "DClose \<notin> set [DSend]" by simp
  note C = close_twice_binding[OF t b n]
  have one: "sockets r' = [x]" if "length (sockets r') = 1" "sock_state 0 r' = x" for r' x
    using that by (cases "sockets r'") (simp_all add: sock_state_def)
  have cf: "close (t, r') = (t, snd (close (t, r')))" for r'
    by (simp add: close_def Let_def split: option.splits sum.splits)
  have sc: "safeLogger_close (Some t, r') = (Some t, snd (close (t, r')))" for r'
    by (simp add: safeLogger_close_def Let_def close_def split: option.splits sum.splits)
  have cc: "snd (close (t, snd (close (t, r)))) = snd (close (close (t, r)))"
    using cf[of r] by simp
  have len: "length (sockets (snd (close s))) = length (sockets (snd s))" for s
    by (cases s) (auto simp: close_def Let_def sock_close_def clearTimeout_def
        split: option.splits sock.splits)
  have l1: "length (sockets (snd (close (t, r)))) = 1"
    "length (sockets (snd (close (close (t, r))))) = 1"
    by (simp_all add: len r)
  have l2: "length (sockets (listening 0 (snd (close (t, r))))) = 1"
    "length (sockets (listening 0 (snd (close (close (t, r)))))) = 1"
    by (simp_all add: sockets_length l1)
  show ?thesis
    apply (rule exI[of _ t], rule exI[of _ r])
    unfolding sc snd_conv cc
    using l r one[OF l1(1) C(1)] one[OF l2(1) C(3)] C(2) one[OF l1(2) C(4)] C(5)
      one[OF l2(2) C(7)] C(6)
    by (simp add: not_running_def)
qed

section \<open>What each operation of the transport touches\<close>

lemma sock_frame:
  "sock_state c (r\<lparr>datagrams := d\<rparr>) = sock_state c r"
  "sock_state c (r\<lparr>console := k\<rparr>) = sock_state c r"
  "sock_state c (r\<lparr>acks := a\<rparr>) = sock_state c r"
  "sock_state c (r\<lparr>timers := tm\<rparr>) = sock_state c r"
  "sock_state c (r\<lparr>next_timer := n\<rparr>) = sock_state c r"
  "sock_state c (r\<lparr>pino := pn\<rparr>) = sock_state c r"
  "sock_state c (r\<lparr>uncaught := u\<rparr>) = sock_state c r"
  "sock_state c (console_print m vs r) = sock_state c r"
  "sock_state c (clearTimeout h r) = sock_state c r"
  "sock_state c (snd (setTimeout f ms r)) = sock_state c r"
  by (simp_all add: sock_state_def console_print_def clearTimeout_def setTimeout_def)

lemma sock_takes_frame:
  "sock_takes c (r\<lparr>datagrams := d\<rparr>) = sock_takes c r"
  "sock_takes c (r\<lparr>console := k\<rparr>) = sock_takes c r"
  "sock_takes c (r\<lparr>acks := a\<rparr>) = sock_takes c r"
  "sock_takes c (r\<lparr>timers := tm\<rparr>) = sock_takes c r"
  "sock_takes c (r\<lparr>next_timer := n\<rparr>) = sock_takes c r"
  "sock_takes c (r\<lparr>pino := pn\<rparr>) = sock_takes c r"
  "sock_takes c (r\<lparr>uncaught := u\<rparr>) = sock_takes c r"
  "sock_takes c (console_print m vs r) = sock_takes c r"
  "sock_takes c (clearTimeout h r) = sock_takes c r"
  "sock_takes c (snd (setTimeout f ms r)) = sock_takes c r"
  by (simp_all add: sock_takes_def sock_frame)

lemma sock_send_fields:
  assumes "sock_send c p prt hst r = Inr r'"
  shows "timers r' = timers r" "next_timer r' = next_timer r" "acks r' = acks r"
    "console r' = console r" "pino r' = pino r" "uncaught r' = uncaught r"
    "length (sockets r') = length (sockets r)"
  using assms by (auto simp: sock_send_def split: if_splits sock.splits)

lemma sock_send_thrown:
  "sock_send c p prt hst r = Inl e \<Longrightarrow>
   (\<not> valid_port prt \<and> e = bad_port prt) \<or>
   (valid_port prt \<and> sock_state c r = Closed \<and> e = not_running)"
  by (auto simp: sock_send_def split: if_splits sock.splits)

lemma sock_takes_length: "sock_takes c r \<Longrightarrow> c < length (sockets r)"
  by (simp add: sock_takes_def sock_state_def split: if_splits)

lemma sock_takes_update:
  "c < length (sockets r) \<Longrightarrow> sock_takes c (r\<lparr>sockets := (sockets r)[c := x]\<rparr>) = takes x"
  by (simp add: sock_takes_def sock_state_def)

lemma sock_send_open:
  assumes "sock_takes c r" "valid_port prt"
  shows "\<exists>r'. sock_send c p prt hst r = Inr r' \<and>
           datagrams r' = datagrams r @ [(c, prt, hst, p)] \<and> sock_takes c r'"
proof -
  have l: "c < length (sockets r)" using assms(1) by (rule sock_takes_length)
  show ?thesis
  proof (cases "sock_state c r")
    case Unbound
    then show ?thesis
      using assms(2) l by (simp add: sock_send_def sock_takes_frame sock_takes_update)
  next
    case (Binding q)
    then have "DClose \<notin> set q" using assms(1) by (simp add: sock_takes_def)
    then show ?thesis
      using Binding assms(2) l by (simp add: sock_send_def sock_takes_frame sock_takes_update)
  next
    case Bound
    then show ?thesis using assms by (simp add: sock_send_def sock_takes_frame)
  next
    case Closed
    then show ?thesis using assms(1) by (simp add: sock_takes_def)
  qed
qed

lemma sendLog_fields:
  "fst (sendLog lg (t, r)) = t"
  "timers (snd (sendLog lg (t, r))) = timers r"
  "next_timer (snd (sendLog lg (t, r))) = next_timer r"
  "acks (snd (sendLog lg (t, r))) = acks r"
  "pino (snd (sendLog lg (t, r))) = pino r"
  "uncaught (snd (sendLog lg (t, r))) = uncaught r"
  "length (sockets (snd (sendLog lg (t, r)))) = length (sockets r)"
  by (auto simp: sendLog_def console_print_def sock_send_fields
      split: option.splits sum.splits)

text \<open>
  With a socket that takes sends, \<open>sendLog\<close> hands over the datagram or prints the
  error of the serialisation or the port check; the socket still takes sends after it.
\<close>

lemma sendLog_open:
  assumes "client t = Some c" "sock_takes c r"
  shows "datagrams (snd (sendLog lg (t, r)))
           = datagrams r @ batch_datagrams c (port t) (host t) [(lg, cb)] \<and>
         console (snd (sendLog lg (t, r))) = console r @ batch_errors (port t) [(lg, cb)] \<and>
         sock_takes c (snd (sendLog lg (t, r)))"
proof (cases "to_message lg")
  case (Inl e)
  then show ?thesis
    using assms
    by (simp add: sendLog_def sock_takes_frame batch_datagrams_def batch_errors_def
        send_attempt_def console_print_def)
next
  case (Inr p)
  show ?thesis
  proof (cases "valid_port (port t)")
    case True
    from sock_send_open[OF assms(2) True, of p "host t"] obtain r' where
      r': "sock_send c p (port t) (host t) r = Inr r'"
      "datagrams r' = datagrams r @ [(c, port t, host t, p)]" "sock_takes c r'"
      by blast
    show ?thesis
      using assms(1) Inr True r' sock_send_fields(4)[OF r'(1)]
      by (simp add: sendLog_def batch_datagrams_def batch_errors_def send_attempt_def)
  next
    case False
    then have "sock_send c p (port t) (host t) r = Inl (bad_port (port t))"
      by (simp add: sock_send_def)
    then show ?thesis
      using assms Inr False
      by (simp add: sendLog_def sock_takes_frame batch_datagrams_def batch_errors_def
          send_attempt_def console_print_def)
  qed
qed

lemma process_item_fields:
  "fst (process_item (t, r) it) = t"
  "timers (snd (process_item (t, r) it)) = timers r"
  "next_timer (snd (process_item (t, r) it)) = next_timer r"
  "acks (snd (process_item (t, r) it)) = acks r @ [snd it]"
  "pino (snd (process_item (t, r) it)) = pino r"
  "uncaught (snd (process_item (t, r) it)) = uncaught r"
  "length (sockets (snd (process_item (t, r) it))) = length (sockets r)"
  by (simp_all add: process_item_def invoke_def sendLog_fields)

lemma process_items_fields:
  "fst (foldl process_item (t, r) items) = t"
  "timers (snd (foldl process_item (t, r) items)) = timers r"
  "next_timer (snd (foldl process_item (t, r) items)) = next_timer r"
  "acks (snd (foldl process_item (t, r) items)) = acks r @ map snd items"
  "pino (snd (foldl process_item (t, r) items)) = pino r"
  "uncaught (snd (foldl process_item (t, r) items)) = uncaught r"
  "length (sockets (snd (foldl process_item (t, r) items))) = length (sockets r)"
proof -
  have "fst (foldl process_item (t, r) items) = t \<and>
    timers (snd (foldl process_item (t, r) items)) = timers r \<and>
    next_timer (snd (foldl process_item (t, r) items)) = next_timer r \<and>
    acks (snd (foldl process_item (t, r) items)) = acks r @ map snd items \<and>
    pino (snd (foldl process_item (t, r) items)) = pino r \<and>
    uncaught (snd (foldl process_item (t, r) items)) = uncaught r \<and>
    length (sockets (snd (foldl process_item (t, r) items))) = length (sockets r)"
  proof (induction items arbitrary: r)
    case Nil
    then show ?case by simp
  next
    case (Cons it items)
    have p: "process_item (t, r) it = (t, snd (process_item (t, r) it))"
      using process_item_fields(1)[of t r it] by (metis prod.collapse)
    show ?case
      using Cons.IH[of "snd (process_item (t, r) it)"]
      by (simp add: p[symmetric] process_item_fields)
  qed
  then show "fst (foldl process_item (t, r) items) = t"
    "timers (snd (foldl process_item (t, r) items)) = timers r"
    "next_timer (snd (foldl process_item (t, r) items)) = next_timer r"
    "acks (snd (foldl process_item (t, r) items)) = acks r @ map snd items"
    "pino (snd (foldl process_item (t, r) items)) = pino r"
    "uncaught (snd (foldl process_item (t, r) items)) = uncaught r"
    "length (sockets (snd (foldl process_item (t, r) items))) = length (sockets r)"
    by simp_all
qed

lemma batch_datagrams_Cons:
  "batch_datagrams c p h (it # items) = batch_datagrams c p h [it] @ batch_datagrams c p h items"
  by (simp add: batch_datagrams_def)

lemma batch_errors_Cons: "batch_errors p (it # items) = batch_errors p [it] @ batch_errors p items"
  by (simp add: batch_errors_def)

lemma batch_datagrams_append:
  "batch_datagrams c p h (xs @ ys) = batch_datagrams c p h xs @ batch_datagrams c p h ys"
  by (simp add: batch_datagrams_def)

lemma batch_errors_append: "batch_errors p (xs @ ys) = batch_errors p xs @ batch_errors p ys"
  by (simp add: batch_errors_def)

text \<open>
  With a socket that takes sends, a batch adds its datagrams and error lines, in the
  order of the batch.
\<close>

lemma process_items_open:
  assumes "client t = Some c" "sock_takes c r"
  shows "datagrams (snd (foldl process_item (t, r) items))
           = datagrams r @ batch_datagrams c (port t) (host t) items"
    and "console (snd (foldl process_item (t, r) items))
           = console r @ batch_errors (port t) items"
    and "sock_takes c (snd (foldl process_item (t, r) items))"
proof -
  have "datagrams (snd (foldl process_item (t, r) items))
           = datagrams r @ batch_datagrams c (port t) (host t) items \<and>
        console (snd (foldl process_item (t, r) items))
           = console r @ batch_errors (port t) items \<and>
        sock_takes c (snd (foldl process_item (t, r) items))"
    using assms(2)
  proof (induction items arbitrary: r)
    case Nil
    then show ?case by (simp add: batch_datagrams_def batch_errors_def)
  next
    case (Cons it items)
    define r1 where "r1 = snd (process_item (t, r) it)"
    have p: "process_item (t, r) it = (t, r1)"
      using process_item_fields(1)[of t r it] unfolding r1_def by (metis prod.collapse)
    have "datagrams r1 = datagrams r @ batch_datagrams c (port t) (host t) [it] \<and>
          console r1 = console r @ batch_errors (port t) [it] \<and> sock_takes c r1"
      using sendLog_open[OF assms(1) Cons.prems, of "fst it" "snd it"]
      unfolding r1_def process_item_def invoke_def
      by (simp add: sock_takes_frame)
    then have d: "datagrams r1 = datagrams r @ batch_datagrams c (port t) (host t) [it]"
      and k: "console r1 = console r @ batch_errors (port t) [it]"
      and o: "sock_takes c r1"
      by simp_all
    show ?case
      using Cons.IH[OF o]
      by (simp add: p d k batch_datagrams_Cons[of c "port t" "host t" it items]
          batch_errors_Cons[of "port t" it items])
  qed
  then show "datagrams (snd (foldl process_item (t, r) items))
           = datagrams r @ batch_datagrams c (port t) (host t) items"
    and "console (snd (foldl process_item (t, r) items))
           = console r @ batch_errors (port t) items"
    and "sock_takes c (snd (foldl process_item (t, r) items))"
    by simp_all
qed

lemma processBuffer_idle:
  "buffer t = [] \<or> \<not> connected t \<or> client t = None \<Longrightarrow> processBuffer (t, r) = (t, r)"
  by (auto simp: processBuffer_def)

lemma take_min_length: "take (min n (length xs)) xs = take n xs"
  by (simp add: min_def)

lemma drop_min_length: "drop (min n (length xs)) xs = drop n xs"
  by (simp add: min_def)

lemma processBuffer_unfold:
  "processBuffer (t, r) =
     (if buffer t \<noteq> [] \<and> connected t \<and> client t \<noteq> None then
        (let s1 = foldl process_item (t\<lparr>buffer := drop 10 (buffer t)\<rparr>, r) (take 10 (buffer t))
         in if buffer (fst s1) \<noteq> []
            then (fst s1, snd (setTimeout Drain 100 (snd s1)))
            else s1)
      else (t, r))"
  by (simp only: processBuffer_def Let_def take_min_length drop_min_length fst_conv snd_conv
      length_greater_0_conv)

text \<open>
  A call of \<open>processBuffer\<close> that finds entries queued on a connected transport takes the
  first ten off the queue, acknowledges them in order, and sets a drain timer when
  entries are left.
\<close>

lemma processBuffer_batch:
  assumes "buffer t \<noteq> []" "connected t" "client t \<noteq> None"
  shows "fst (processBuffer (t, r)) = t\<lparr>buffer := drop 10 (buffer t)\<rparr>"
    and "acks (snd (processBuffer (t, r))) = acks r @ map snd (take 10 (buffer t))"
    and "timers (snd (processBuffer (t, r)))
          = timers r @ (if drop 10 (buffer t) = [] then [] else [(next_timer r, 100, Drain)])"
    and "next_timer (snd (processBuffer (t, r)))
          = (if drop 10 (buffer t) = [] then next_timer r else Suc (next_timer r))"
    and "pino (snd (processBuffer (t, r))) = pino r"
    and "uncaught (snd (processBuffer (t, r))) = uncaught r"
    and "length (sockets (snd (processBuffer (t, r)))) = length (sockets r)"
proof -
  define s1 where "s1 = foldl process_item (t\<lparr>buffer := drop 10 (buffer t)\<rparr>, r) (take 10 (buffer t))"
  note F = process_items_fields[of "t\<lparr>buffer := drop 10 (buffer t)\<rparr>" r "take 10 (buffer t)",
      folded s1_def]
  have p: "processBuffer (t, r) =
      (if drop 10 (buffer t) \<noteq> [] then (fst s1, snd (setTimeout Drain 100 (snd s1))) else s1)"
    unfolding processBuffer_unfold s1_def[symmetric] using assms by (simp add: Let_def F(1))
  show "fst (processBuffer (t, r)) = t\<lparr>buffer := drop 10 (buffer t)\<rparr>"
    unfolding p by (simp add: F(1))
  show "acks (snd (processBuffer (t, r))) = acks r @ map snd (take 10 (buffer t))"
    unfolding p by (simp add: F setTimeout_def)
  show "timers (snd (processBuffer (t, r)))
          = timers r @ (if drop 10 (buffer t) = [] then [] else [(next_timer r, 100, Drain)])"
    unfolding p by (simp add: F setTimeout_def)
  show "next_timer (snd (processBuffer (t, r)))
          = (if drop 10 (buffer t) = [] then next_timer r else Suc (next_timer r))"
    unfolding p by (simp add: F setTimeout_def)
  show "pino (snd (processBuffer (t, r))) = pino r"
    unfolding p by (simp add: F setTimeout_def)
  show "uncaught (snd (processBuffer (t, r))) = uncaught r"
    unfolding p by (simp add: F setTimeout_def)
  show "length (sockets (snd (processBuffer (t, r)))) = length (sockets r)"
    unfolding p by (simp add: F setTimeout_def)
qed

lemma processBuffer_open:
  assumes "buffer t \<noteq> []" "connected t" "client t = Some c" "sock_takes c r"
  shows "datagrams (snd (processBuffer (t, r)))
          = datagrams r @ batch_datagrams c (port t) (host t) (take 10 (buffer t))"
    and "console (snd (processBuffer (t, r)))
          = console r @ batch_errors (port t) (take 10 (buffer t))"
    and "sock_takes c (snd (processBuffer (t, r)))"
proof -
  let ?t = "t\<lparr>buffer := drop 10 (buffer t)\<rparr>"
  define s1 where "s1 = foldl process_item (?t, r) (take 10 (buffer t))"
  have c: "client ?t = Some c" using assms by simp
  note O = process_items_open[OF c assms(4), of "take 10 (buffer t)", folded s1_def]
  note F = process_items_fields[of ?t r "take 10 (buffer t)", folded s1_def]
  have p: "processBuffer (t, r) =
      (if drop 10 (buffer t) \<noteq> [] then (fst s1, snd (setTimeout Drain 100 (snd s1))) else s1)"
    unfolding processBuffer_unfold s1_def[symmetric] using assms by (simp add: Let_def F(1))
  show "datagrams (snd (processBuffer (t, r)))
          = datagrams r @ batch_datagrams c (port t) (host t) (take 10 (buffer t))"
    unfolding p using O(1) by (simp add: setTimeout_def)
  show "console (snd (processBuffer (t, r)))
          = console r @ batch_errors (port t) (take 10 (buffer t))"
    unfolding p using O(2) by (simp add: setTimeout_def)
  show "sock_takes c (snd (processBuffer (t, r)))"
    unfolding p using O(3) by (simp add: sock_takes_frame)
qed

text \<open>Whatever the state, \<open>processBuffer\<close> leaves these alone.\<close>

lemma processBuffer_fields:
  "reconnectTimeout (fst (processBuffer (t, r))) = reconnectTimeout t"
  "maxBufferSize (fst (processBuffer (t, r))) = maxBufferSize t"
  "client (fst (processBuffer (t, r))) = client t"
  "connected (fst (processBuffer (t, r))) = connected t"
  "port (fst (processBuffer (t, r))) = port t"
  "host (fst (processBuffer (t, r))) = host t"
  "length (buffer (fst (processBuffer (t, r)))) \<le> length (buffer t)"
  "uncaught (snd (processBuffer (t, r))) = uncaught r"
  "length (sockets (snd (processBuffer (t, r)))) = length (sockets r)"
proof -
  have "reconnectTimeout (fst (processBuffer (t, r))) = reconnectTimeout t \<and>
    maxBufferSize (fst (processBuffer (t, r))) = maxBufferSize t \<and>
    client (fst (processBuffer (t, r))) = client t \<and>
    connected (fst (processBuffer (t, r))) = connected t \<and>
    port (fst (processBuffer (t, r))) = port t \<and>
    host (fst (processBuffer (t, r))) = host t \<and>
    length (buffer (fst (processBuffer (t, r)))) \<le> length (buffer t) \<and>
    uncaught (snd (processBuffer (t, r))) = uncaught r \<and>
    length (sockets (snd (processBuffer (t, r)))) = length (sockets r)"
  proof (cases "buffer t \<noteq> [] \<and> connected t \<and> client t \<noteq> None")
    case True
    then have a: "buffer t \<noteq> []" "connected t" "client t \<noteq> None" by simp_all
    show ?thesis by (simp add: processBuffer_batch[OF a])
  next
    case False
    then have "processBuffer (t, r) = (t, r)" by (intro processBuffer_idle) auto
    then show ?thesis by simp
  qed
  then show "reconnectTimeout (fst (processBuffer (t, r))) = reconnectTimeout t"
    "maxBufferSize (fst (processBuffer (t, r))) = maxBufferSize t"
    "client (fst (processBuffer (t, r))) = client t"
    "connected (fst (processBuffer (t, r))) = connected t"
    "port (fst (processBuffer (t, r))) = port t"
    "host (fst (processBuffer (t, r))) = host t"
    "length (buffer (fst (processBuffer (t, r)))) \<le> length (buffer t)"
    "uncaught (snd (processBuffer (t, r))) = uncaught r"
    "length (sockets (snd (processBuffer (t, r)))) = length (sockets r)"
    by simp_all
qed

section \<open>Timer bookkeeping holds in every reachable state\<close>

lemma tracked_cong:
  assumes "timers (snd s') = timers (snd s)" "next_timer (snd s') = next_timer (snd s)"
    "reconnectTimeout (fst s') = reconnectTimeout (fst s)"
  shows "timers_tracked s' = timers_tracked s"
  by (simp add: timers_tracked_def assms)

lemma tracked_frame:
  "timers_tracked (t\<lparr>buffer := b\<rparr>, r) = timers_tracked (t, r)"
  "timers_tracked (t\<lparr>client := cl\<rparr>, r) = timers_tracked (t, r)"
  "timers_tracked (t\<lparr>connected := co\<rparr>, r) = timers_tracked (t, r)"
  "timers_tracked (t, r\<lparr>datagrams := d\<rparr>) = timers_tracked (t, r)"
  "timers_tracked (t, r\<lparr>acks := a\<rparr>) = timers_tracked (t, r)"
  "timers_tracked (t, r\<lparr>console := c\<rparr>) = timers_tracked (t, r)"
  "timers_tracked (t, r\<lparr>sockets := ss\<rparr>) = timers_tracked (t, r)"
  "timers_tracked (t, r\<lparr>uncaught := u\<rparr>) = timers_tracked (t, r)"
  "timers_tracked (t, console_print m vs r) = timers_tracked (t, r)"
  by (simp_all add: timers_tracked_def console_print_def)

lemma tracked_clearTimeout:
  "timers_tracked (t, r) \<Longrightarrow> timers_tracked (t, clearTimeout h r)"
  by (auto simp: timers_tracked_def clearTimeout_def list_all_iff distinct_map_filter
      split: option.splits)

lemma tracked_scheduleReconnect:
  "timers_tracked s \<Longrightarrow> timers_tracked (scheduleReconnect s)"
  by (cases s)
     (auto simp: timers_tracked_def scheduleReconnect_def setTimeout_def clearTimeout_def
        Let_def list_all_iff distinct_map_filter split: option.splits)

lemma handle_below_Suc: "handle_below ho n \<Longrightarrow> handle_below ho (Suc n)"
  by (cases ho) auto

lemma tracked_processBuffer:
  assumes "timers_tracked (t, r)"
  shows "timers_tracked (processBuffer (t, r))"
proof (cases "buffer t \<noteq> [] \<and> connected t \<and> client t \<noteq> None")
  case True
  then have a: "buffer t \<noteq> []" "connected t" "client t \<noteq> None" by simp_all
  note B = processBuffer_batch[OF a, of r]
  show ?thesis
    using assms
    by (cases "reconnectTimeout t")
       (auto simp: timers_tracked_def B list_all_iff)
next
  case False
  then have "processBuffer (t, r) = (t, r)" by (intro processBuffer_idle) auto
  then show ?thesis using assms by simp
qed

lemma setupConnection_opened:
  "setupConnection None (t, r) =
     processBuffer (t\<lparr>client := Some (length (sockets r)), connected := True\<rparr>,
                    r\<lparr>sockets := sockets r @ [Unbound]\<rparr>)"
  by (simp add: setupConnection_def createSocket_def)

lemma tracked_setupConnection:
  assumes "timers_tracked s"
  shows "timers_tracked (setupConnection fails s)"
proof (cases fails)
  case None
  obtain t r where s: "s = (t, r)" by (cases s)
  have "timers_tracked (t\<lparr>client := Some (length (sockets r)), connected := True\<rparr>,
      r\<lparr>sockets := sockets r @ [Unbound]\<rparr>)"
    using assms by (simp add: s tracked_frame)
  then show ?thesis
    unfolding s None setupConnection_opened by (rule tracked_processBuffer)
next
  case (Some m)
  obtain t r where s: "s = (t, r)" by (cases s)
  show ?thesis
    using assms
    by (simp add: s Some setupConnection_def createSocket_def tracked_scheduleReconnect tracked_frame)
qed

lemma tracked_constructed: "timers_tracked (new_GraylogTransport h p fails runtime0)"
  unfolding new_GraylogTransport_def
  by (rule tracked_setupConnection) (simp add: timers_tracked_def runtime0_def)

lemma tracked_write_log:
  assumes "timers_tracked s"
  shows "timers_tracked (write_log lg cb s)"
proof -
  obtain t r where s: "s = (t, r)" by (cases s)
  have "timers_tracked (invoke cb (sendLog lg (t, r))) = timers_tracked (t, r)"
    by (rule tracked_cong) (simp_all add: invoke_def sendLog_fields)
  then show ?thesis
    using assms
    by (auto simp: s write_log_def Let_def tracked_frame)
qed

lemma tracked_send_callback: "timers_tracked s \<Longrightarrow> timers_tracked (send_callback err s)"
  by (cases s; cases err)
     (simp_all add: send_callback_def tracked_scheduleReconnect tracked_frame)

lemma tracked_on_error: "timers_tracked s \<Longrightarrow> timers_tracked (on_error m s)"
  by (cases s) (simp add: on_error_def tracked_scheduleReconnect tracked_frame)

text \<open>What \<open>close\<close> leaves alone.\<close>

lemma close_fields:
  "fst (close (t, r)) = t"
  "timers (snd (close (t, r)))
     = (case reconnectTimeout t of None \<Rightarrow> timers r | Some h \<Rightarrow> filter (\<lambda>tm. fst tm \<noteq> h) (timers r))"
  "next_timer (snd (close (t, r))) = next_timer r"
  "acks (snd (close (t, r))) = acks r"
  "datagrams (snd (close (t, r))) = datagrams r"
  "console (snd (close (t, r))) = console r"
  "uncaught (snd (close (t, r))) = uncaught r"
  "length (sockets (snd (close (t, r)))) = length (sockets r)"
  by (auto simp: close_def Let_def sock_close_def clearTimeout_def
      split: option.splits sock.splits)

lemma tracked_close:
  assumes "timers_tracked s"
  shows "timers_tracked (close s)"
proof -
  obtain t r where s: "s = (t, r)" by (cases s)
  have "timers_tracked (t, case reconnectTimeout t of None \<Rightarrow> r | Some h \<Rightarrow> clearTimeout h r)"
    using assms by (simp add: s tracked_clearTimeout split: option.splits)
  moreover have "timers_tracked (close (t, r))
      = timers_tracked (t, case reconnectTimeout t of None \<Rightarrow> r | Some h \<Rightarrow> clearTimeout h r)"
    by (rule tracked_cong) (simp_all add: close_fields clearTimeout_def split: option.splits)
  ultimately show ?thesis by (simp add: s)
qed

lemma tracked_fire:
  assumes "timers_tracked s"
  shows "timers_tracked (fire h fails s)"
proof -
  obtain t r where s: "s = (t, r)" by (cases s)
  have c: "timers_tracked (t, clearTimeout h r)"
    using assms unfolding s by (rule tracked_clearTimeout)
  show ?thesis
  proof (cases "find (\<lambda>tm. fst tm = h) (timers r)")
    case None
    then show ?thesis using assms by (simp add: s fire_def)
  next
    case (Some tm)
    show ?thesis
    proof (cases "snd (snd tm)")
      case Reconnect
      then show ?thesis
        using c by (simp add: s fire_def Some tracked_setupConnection tracked_frame)
    next
      case Drain
      then show ?thesis
        using c by (simp add: s fire_def Some tracked_processBuffer)
    qed
  qed
qed

lemma runtime_event_fields:
  "timers (listening c r) = timers r" "next_timer (listening c r) = next_timer r"
  "acks (listening c r) = acks r" "datagrams (listening c r) = datagrams r"
  "console (listening c r) = console r"
  "timers (bind_failed c r) = timers r" "next_timer (bind_failed c r) = next_timer r"
  "acks (bind_failed c r) = acks r" "datagrams (bind_failed c r) = datagrams r"
  "console (bind_failed c r) = console r" "uncaught (bind_failed c r) = uncaught r"
  by (simp_all add: listening_def bind_failed_def split: sock.splits option.splits)

lemma reachable_tracked: "reachable s \<Longrightarrow> timers_tracked s"
proof (induction rule: reachable.induct)
  case (bound s c)
  have "timers_tracked (fst s, listening c (snd s)) = timers_tracked s"
    by (rule tracked_cong) (simp_all add: runtime_event_fields)
  with bound show ?case by simp
next
  case (unbound s c)
  have "timers_tracked (fst s, bind_failed c (snd s)) = timers_tracked s"
    by (rule tracked_cong) (simp_all add: runtime_event_fields)
  with unbound show ?case by simp
qed (simp_all add: tracked_constructed tracked_write_log tracked_fire tracked_send_callback
        tracked_on_error tracked_close)

lemma reachable_writes: "reachable s \<Longrightarrow> reachable (writes items s)"
  unfolding writes_def
  by (induction items arbitrary: s) (simp_all add: reachable.written)

lemma find_by_handle:
  "distinct (map fst ts) \<Longrightarrow> tm \<in> set ts \<Longrightarrow> find (\<lambda>x. fst x = fst tm) ts = Some tm"
  by (induction ts) (auto simp: rev_image_eqI)

lemma fire_pending:
  assumes "timers_tracked (t, r)" "tm \<in> set (timers r)"
  shows "fire (fst tm) fails (t, r) = run_task (snd (snd tm)) fails (t, clearTimeout (fst tm) r)"
proof -
  have "distinct (map fst (timers r))" using assms(1) by (simp add: timers_tracked_def)
  from find_by_handle[OF this assms(2)] show ?thesis by (simp add: fire_def)
qed

section \<open>Draining the queue\<close>

lemma drain_progressI:
  assumes "connected (fst s)" "client (fst s) = Some c" "sock_takes c (snd s)"
    "timers_tracked s" "port (fst s) = port t0" "host (fst s) = host t0"
    "buffer (fst s) = drop k (buffer t0)"
    "acks (snd s) = acks r0 @ map snd (take k (buffer t0))"
    "datagrams (snd s) = datagrams r0 @ batch_datagrams c (port t0) (host t0) (take k (buffer t0))"
    "buffer (fst s) = [] \<or> next_drain (snd s) \<noteq> None"
  shows "drain_progress t0 r0 c k s"
  unfolding drain_progress_def using assms by blast

lemma drain_progressD:
  assumes "drain_progress t0 r0 c k s"
  shows "connected (fst s)" "client (fst s) = Some c" "sock_takes c (snd s)"
    "timers_tracked s" "port (fst s) = port t0" "host (fst s) = host t0"
    "buffer (fst s) = drop k (buffer t0)"
    "acks (snd s) = acks r0 @ map snd (take k (buffer t0))"
    "datagrams (snd s) = datagrams r0 @ batch_datagrams c (port t0) (host t0) (take k (buffer t0))"
    "buffer (fst s) = [] \<or> next_drain (snd s) \<noteq> None"
  using assms unfolding drain_progress_def by blast+

lemma drain_progress_cong:
  assumes "port t' = port t" "host t' = host t" "buffer t' = buffer t"
    "acks r' = acks r" "datagrams r' = datagrams r"
  shows "drain_progress t' r' c k s = drain_progress t r c k s"
  unfolding drain_progress_def by (simp only: assms)

lemma next_drain_Some:
  "next_drain r = Some h \<Longrightarrow> \<exists>ms. (h, ms, Drain) \<in> set (timers r)"
proof -
  assume a: "next_drain r = Some h"
  then obtain tm where f: "find (\<lambda>tm. snd (snd tm) = Drain) (timers r) = Some tm" and h: "h = fst tm"
    by (auto simp: next_drain_def)
  from f have "tm \<in> set (timers r)" "snd (snd tm) = Drain"
    by (auto simp: find_Some_iff in_set_conv_nth)
  then have "(h, fst (snd tm), Drain) \<in> set (timers r)" using h
    by (metis prod.collapse)
  then show ?thesis by blast
qed

lemma next_drain_pending:
  "(h, ms, Drain) \<in> set (timers r) \<Longrightarrow> next_drain r \<noteq> None"
  by (auto simp: next_drain_def find_None_iff)

lemma drain_first:
  assumes "connected t" "client t = Some c" "sock_takes c r" "timers_tracked (t, r)"
  shows "drain_progress t r c 10 (processBuffer (t, r))"
proof (cases "buffer t = []")
  case True
  then show ?thesis
    using assms by (simp add: processBuffer_idle drain_progress_def batch_datagrams_def)
next
  case False
  let ?s = "processBuffer (t, r)"
  have cn: "client t \<noteq> None" using assms(2) by simp
  note B = processBuffer_batch[OF False assms(1) cn, of r]
  note O = processBuffer_open[OF False assms(1-3)]
  have tr: "timers_tracked ?s"
    using assms(4) by (rule tracked_processBuffer)
  have 1: "connected (fst ?s)" "client (fst ?s) = Some c" "port (fst ?s) = port t"
    "host (fst ?s) = host t" "buffer (fst ?s) = drop 10 (buffer t)"
    using assms(1,2) by (simp_all add: B(1))
  have 2: "sock_takes c (snd ?s)" by (rule O(3))
  have 3: "acks (snd ?s) = acks r @ map snd (take 10 (buffer t))"
    "datagrams (snd ?s) = datagrams r @ batch_datagrams c (port t) (host t) (take 10 (buffer t))"
    by (rule B(2), rule O(1))
  have 4: "buffer (fst ?s) = [] \<or> next_drain (snd ?s) \<noteq> None"
  proof (cases "drop 10 (buffer t) = []")
    case True
    then show ?thesis using 1(5) by simp
  next
    case False
    then have "(next_timer r, 100, Drain) \<in> set (timers (snd ?s))" by (simp add: B(3))
    then show ?thesis using next_drain_pending by blast
  qed
  show ?thesis
    by (rule drain_progressI) (rule tr 1 2 3 4)+
qed

lemma drain_step:
  assumes p: "drain_progress t0 r0 c k (t, r)" and n: "next_drain r = Some h"
  shows "drain_progress t0 r0 c (k + 10) (fire h None (t, r))"
proof -
  note d = drain_progressD[OF p, simplified]
  obtain ms where tm: "(h, ms, Drain) \<in> set (timers r)" using next_drain_Some[OF n] by blast
  let ?r = "clearTimeout h r"
  let ?s = "processBuffer (t, ?r)"
  have f: "fire h None (t, r) = ?s"
    using fire_pending[OF d(4) tm] by simp
  have so': "sock_takes c ?r" using d(3) by (simp add: sock_takes_frame)
  have tr': "timers_tracked (t, ?r)" using d(4) by (rule tracked_clearTimeout)
  have first: "drain_progress t ?r c 10 ?s"
    using d(1) d(2) so' tr' by (rule drain_first)
  note e = drain_progressD[OF first]
  have tk: "take (k + 10) (buffer t0) = take k (buffer t0) @ take 10 (drop k (buffer t0))"
    by (simp add: take_add)
  have ar: "acks ?r = acks r" "datagrams ?r = datagrams r" by (simp_all add: clearTimeout_def)
  have 5: "port (fst ?s) = port t0" "host (fst ?s) = host t0"
    using e(5) e(6) d(5) d(6) by simp_all
  have 7: "buffer (fst ?s) = drop (k + 10) (buffer t0)"
    using e(7) d(7) by (simp add: add.commute)
  have 8: "acks (snd ?s) = acks r0 @ map snd (take (k + 10) (buffer t0))"
    using e(8) by (simp add: ar d(7) d(8) tk)
  have 9: "datagrams (snd ?s)
      = datagrams r0 @ batch_datagrams c (port t0) (host t0) (take (k + 10) (buffer t0))"
    using e(9) by (simp add: ar d(5) d(6) d(7) d(9) tk batch_datagrams_append)
  show ?thesis
    unfolding f
    by (rule drain_progressI) (rule e(1) e(2) e(3) e(4) 5 7 8 9 e(10))+
qed

lemma drain_progress_idle:
  assumes p: "drain_progress t0 r0 c k s" and e: "buffer (fst s) = []"
  shows "drain_progress t0 r0 c (k + j) s"
proof -
  note d = drain_progressD[OF p]
  from d(7) e have "drop k (buffer t0) = []" by simp
  then have l: "length (buffer t0) \<le> k" by simp
  then have tk: "take (k + j) (buffer t0) = take k (buffer t0)"
    "drop (k + j) (buffer t0) = drop k (buffer t0)" by simp_all
  show ?thesis
    by (rule drain_progressI)
       (simp_all only: tk d(1) d(2) d(3) d(4) d(5) d(6) d(7)[symmetric] d(8)[symmetric]
          d(9)[symmetric] e simp_thms)
qed

lemma drain_steps_progress:
  "drain_progress t0 r0 c k s \<Longrightarrow> drain_progress t0 r0 c (k + 10 * n) (drain_steps n s)"
proof (induction n arbitrary: k s)
  case 0
  then show ?case by simp
next
  case (Suc n)
  obtain t r where s: "s = (t, r)" by (cases s)
  show ?case
  proof (cases "next_drain r")
    case None
    with drain_progressD(10)[OF Suc.prems] have "buffer (fst s) = []" by (simp add: s)
    from drain_progress_idle[OF Suc.prems this, of "10 * Suc n"] None
    show ?thesis by (simp add: s)
  next
    case (Some h)
    have "drain_progress t0 r0 c (k + 10) (fire h None (t, r))"
      using Suc.prems Some unfolding s by (rule drain_step)
    from Suc.IH[OF this] Some show ?thesis by (simp add: s add.assoc)
  qed
qed

lemma setupConnection_drains:
  assumes "timers_tracked (t, r)"
  shows "drain_progress t r (length (sockets r)) 10 (setupConnection None (t, r))"
proof -
  let ?t = "t\<lparr>client := Some (length (sockets r)), connected := True\<rparr>"
  let ?r = "r\<lparr>sockets := sockets r @ [Unbound]\<rparr>"
  have "drain_progress ?t ?r (length (sockets r)) 10 (processBuffer (?t, ?r))"
    using assms by (intro drain_first) (simp_all add: sock_takes_def sock_state_def tracked_frame)
  moreover have "drain_progress ?t ?r (length (sockets r)) 10 (processBuffer (?t, ?r))
      = drain_progress t r (length (sockets r)) 10 (processBuffer (?t, ?r))"
    by (rule drain_progress_cong) simp_all
  ultimately show ?thesis by (simp only: setupConnection_opened)
qed

text \<open>The reconnect timer fires and the socket is created.\<close>

lemma fire_reconnect:
  assumes "timers_tracked (t, r)" "(h, ms, Reconnect) \<in> set (timers r)"
  shows "fire h None (t, r) =
     setupConnection None
       (t, console_print CLog [JStr ''Tentando reconectar ao Graylog...''] (clearTimeout h r))"
  using fire_pending[OF assms] by simp

lemma reconnect_drains:
  assumes "timers_tracked (t, r)" "(h, ms, Reconnect) \<in> set (timers r)"
  shows "drain_progress t r (length (sockets r)) 10 (fire h None (t, r))"
proof -
  let ?r = "console_print CLog [JStr ''Tentando reconectar ao Graylog...''] (clearTimeout h r)"
  have "timers_tracked (t, ?r)"
    using assms(1) by (simp add: tracked_frame tracked_clearTimeout)
  from setupConnection_drains[OF this]
  have "drain_progress t ?r (length (sockets ?r)) 10 (fire h None (t, r))"
    by (simp only: fire_reconnect[OF assms])
  moreover have "drain_progress t ?r (length (sockets ?r)) 10 (fire h None (t, r))
      = drain_progress t r (length (sockets ?r)) 10 (fire h None (t, r))"
    by (rule drain_progress_cong) (simp_all add: console_print_def clearTimeout_def)
  moreover have "length (sockets ?r) = length (sockets r)"
    by (simp add: console_print_def clearTimeout_def)
  ultimately show ?thesis by simp
qed

lemma reconnect_first_batch_timers:
  assumes "timers_tracked (t, r)" "(h, ms, Reconnect) \<in> set (timers r)"
  shows "timers (snd (fire h None (t, r))) =
     filter (\<lambda>tm. fst tm \<noteq> h) (timers r) @
       (if drop 10 (buffer t) = [] then [] else [(next_timer r, 100, Drain)])"
proof -
  define r1 where "r1 = (console_print CLog [JStr ''Tentando reconectar ao Graylog...'']
      (clearTimeout h r))\<lparr>sockets := sockets r @ [Unbound]\<rparr>"
  define t1 where "t1 = t\<lparr>client := Some (length (sockets r)), connected := True\<rparr>"
  have f: "fire h None (t, r) = processBuffer (t1, r1)"
    unfolding fire_reconnect[OF assms] setupConnection_opened r1_def t1_def
    by (simp add: console_print_def clearTimeout_def)
  have t1: "buffer t1 = buffer t" "connected t1" "client t1 \<noteq> None"
    by (simp_all add: t1_def)
  have r1: "timers r1 = filter (\<lambda>tm. fst tm \<noteq> h) (timers r)" "next_timer r1 = next_timer r"
    by (simp_all add: r1_def console_print_def clearTimeout_def)
  show ?thesis
  proof (cases "buffer t = []")
    case True
    then have "processBuffer (t1, r1) = (t1, r1)" by (intro processBuffer_idle) (simp add: t1)
    then show ?thesis unfolding f using True by (simp add: r1)
  next
    case False
    then have ne: "buffer t1 \<noteq> []" by (simp add: t1)
    show ?thesis
      unfolding f processBuffer_batch(3)[OF ne t1(2) t1(3)]
      by (simp add: t1 r1)
  qed
qed

lemma reconnect_drain_facts:
  assumes "timers_tracked (t, r)" "(h, ms, Reconnect) \<in> set (timers r)"
  shows "connected (fst (drain_steps n (fire h None (t, r))))"
    and "buffer (fst (drain_steps n (fire h None (t, r)))) = drop (10 * Suc n) (buffer t)"
    and "acks (snd (drain_steps n (fire h None (t, r))))
          = acks r @ map snd (take (10 * Suc n) (buffer t))"
    and "datagrams (snd (drain_steps n (fire h None (t, r))))
          = datagrams r @ batch_datagrams (length (sockets r)) (port t) (host t)
                            (take (10 * Suc n) (buffer t))"
proof -
  have "drain_progress t r (length (sockets r)) (10 + 10 * n) (drain_steps n (fire h None (t, r)))"
    by (rule drain_steps_progress) (rule reconnect_drains[OF assms])
  then have p: "drain_progress t r (length (sockets r)) (10 * Suc n) (drain_steps n (fire h None (t, r)))"
    by simp
  note d = drain_progressD[OF p]
  show "connected (fst (drain_steps n (fire h None (t, r))))" by (rule d(1))
  show "buffer (fst (drain_steps n (fire h None (t, r)))) = drop (10 * Suc n) (buffer t)"
    by (rule d(7))
  show "acks (snd (drain_steps n (fire h None (t, r))))
          = acks r @ map snd (take (10 * Suc n) (buffer t))" by (rule d(8))
  show "datagrams (snd (drain_steps n (fire h None (t, r))))
          = datagrams r @ batch_datagrams (length (sockets r)) (port t) (host t)
                            (take (10 * Suc n) (buffer t))" by (rule d(9))
qed

lemma backlog_eq:
  "n \<le> 100 \<Longrightarrow>
   backlog n =
    (\<lparr>client = None, host = ''graylog.local'', port = 12201, connected = False,
       buffer = map rec_n [1..<Suc n], maxBufferSize = 100, reconnectTimeout = Some 0\<rparr>,
     runtime0\<lparr>timers := [(0, 30000, Reconnect)], next_timer := 1,
       console := [(CError, [JStr (''Erro ao configurar cliente UDP: '' @ ''socket EMFILE'')])]\<rparr>)"
  unfolding backlog_def fresh_disconnected
  by (subst writes_queued) simp_all

lemma reachable_backlog: "reachable (backlog n)"
  unfolding backlog_def by (intro reachable_writes reachable.constructed)

text \<open>
  C3. Take any reachable state in which a reconnect timer is pending, and let the
  timer fire with the socket created successfully. The call marks the transport
  connected and processes the first ten queued entries (all of them if there are
  fewer), in queue order: their callbacks
  are acknowledged in that order and their records are handed to the new socket in
  that order. It does not go on: what is left stays queued, and a drain timer of 100 ms
  is added to the pending timers exactly when something is left. Each time the oldest
  drain timer then fires, the next ten entries are processed, so after \<open>n\<close> firings
  the first \<open>10 * (n + 1)\<close> entries have been processed in their original order and the
  rest is queued; after \<open>length div 10\<close> firings the queue is empty and every entry
  has been processed, in order.
\<close>

theorem drain_fifo_in_batches:
  assumes "reachable s" and "(h, ms, Reconnect) \<in> set (timers (snd s))"
  shows "connected (fst (fire h None s)) \<and>
     buffer (fst (fire h None s)) = drop 10 (buffer (fst s)) \<and>
     acks (snd (fire h None s)) = acks (snd s) @ map snd (take 10 (buffer (fst s))) \<and>
     datagrams (snd (fire h None s))
       = datagrams (snd s) @
         batch_datagrams (length (sockets (snd s))) (port (fst s)) (host (fst s))
           (take 10 (buffer (fst s))) \<and>
     timers (snd (fire h None s))
       = filter (\<lambda>tm. fst tm \<noteq> h) (timers (snd s)) @
         (if drop 10 (buffer (fst s)) = [] then [] else [(next_timer (snd s), 100, Drain)]) \<and>
     (\<forall>n. buffer (fst (drain_steps n (fire h None s))) = drop (10 * Suc n) (buffer (fst s)) \<and>
          acks (snd (drain_steps n (fire h None s)))
            = acks (snd s) @ map snd (take (10 * Suc n) (buffer (fst s))) \<and>
          datagrams (snd (drain_steps n (fire h None s)))
            = datagrams (snd s) @
              batch_datagrams (length (sockets (snd s))) (port (fst s)) (host (fst s))
                (take (10 * Suc n) (buffer (fst s)))) \<and>
     buffer (fst (drain_steps (length (buffer (fst s)) div 10) (fire h None s))) = [] \<and>
     acks (snd (drain_steps (length (buffer (fst s)) div 10) (fire h None s)))
       = acks (snd s) @ map snd (buffer (fst s))"
proof -
  obtain t r where s: "s = (t, r)" by (cases s)
  have tr: "timers_tracked (t, r)" using assms(1) unfolding s by (rule reachable_tracked)
  have tm: "(h, ms, Reconnect) \<in> set (timers r)" using assms(2) by (simp add: s)
  note F = reconnect_drain_facts[OF tr tm]
  note F0 = F[of 0, simplified]
  have l: "length (buffer t) \<le> 10 * Suc (length (buffer t) div 10)"
    by presburger
  have e: "drop (10 * Suc (length (buffer t) div 10)) (buffer t) = []"
    "take (10 * Suc (length (buffer t) div 10)) (buffer t) = buffer t"
    using l by simp_all
  show ?thesis
    unfolding s fst_conv snd_conv
    apply (intro conjI allI)
             apply (rule F0(1))
            apply (rule F0(2))
           apply (rule F0(3))
          apply (rule F0(4))
         apply (rule reconnect_first_batch_timers[OF tr tm])
        apply (rule F(2))
       apply (rule F(3))
      apply (rule F(4))
     apply (simp only: F(2) e)
    apply (simp only: F(3) e)
    done
qed

theorem drain_fifo_in_batches_witness:
  "reachable (backlog 25) \<and> (0, 30000, Reconnect) \<in> set (timers (snd (backlog 25))) \<and>
   buffer (fst (backlog 25)) = map rec_n [1..<26] \<and>
   acks (snd (fire 0 None (backlog 25))) = [1..<11] \<and>
   buffer (fst (fire 0 None (backlog 25))) = map rec_n [11..<26] \<and>
   timers (snd (fire 0 None (backlog 25))) = [(1, 100, Drain)] \<and>
   acks (snd (drain_steps 1 (fire 0 None (backlog 25)))) = [1..<21] \<and>
   buffer (fst (drain_steps 1 (fire 0 None (backlog 25)))) = map rec_n [21..<26] \<and>
   acks (snd (drain_steps 2 (fire 0 None (backlog 25)))) = [1..<26] \<and>
   buffer (fst (drain_steps 2 (fire 0 None (backlog 25)))) = []"
proof -
  have b: "backlog 25 =
    (\<lparr>client = None, host = ''graylog.local'', port = 12201, connected = False,
       buffer = map rec_n [1..<26], maxBufferSize = 100, reconnectTimeout = Some 0\<rparr>,
     runtime0\<lparr>timers := [(0, 30000, Reconnect)], next_timer := 1,
       console := [(CError, [JStr (''Erro ao configurar cliente UDP: '' @ ''socket EMFILE'')])]\<rparr>)"
    using backlog_eq[of 25] by simp
  have r: "reachable (backlog 25)" by (rule reachable_backlog)
  have p: "(0, 30000, Reconnect) \<in> set (timers (snd (backlog 25)))"
    by (simp add: b runtime0_def)
  have m: "map (snd \<circ> rec_n) xs = xs" for xs
    by (induction xs) (simp_all add: rec_n_def)
  note T = drain_fifo_in_batches[OF r p]
  have bf: "buffer (fst (backlog 25)) = map rec_n [1..<26]"
    and ak: "acks (snd (backlog 25)) = []" and nt: "next_timer (snd (backlog 25)) = 1"
    and ts: "timers (snd (backlog 25)) = [(0, 30000, Reconnect)]"
    by (simp_all add: b runtime0_def)
  from T have T1: "buffer (fst (fire 0 None (backlog 25))) = drop 10 (buffer (fst (backlog 25)))"
    and T2: "acks (snd (fire 0 None (backlog 25)))
        = acks (snd (backlog 25)) @ map snd (take 10 (buffer (fst (backlog 25))))"
    and T3: "timers (snd (fire 0 None (backlog 25)))
       = filter (\<lambda>tm. fst tm \<noteq> 0) (timers (snd (backlog 25))) @
         (if drop 10 (buffer (fst (backlog 25))) = [] then []
          else [(next_timer (snd (backlog 25)), 100, Drain)])"
    and T4: "\<forall>n. buffer (fst (drain_steps n (fire 0 None (backlog 25))))
            = drop (10 * Suc n) (buffer (fst (backlog 25))) \<and>
          acks (snd (drain_steps n (fire 0 None (backlog 25))))
            = acks (snd (backlog 25)) @ map snd (take (10 * Suc n) (buffer (fst (backlog 25)))) \<and>
          datagrams (snd (drain_steps n (fire 0 None (backlog 25))))
            = datagrams (snd (backlog 25)) @
              batch_datagrams (length (sockets (snd (backlog 25)))) (port (fst (backlog 25)))
                (host (fst (backlog 25))) (take (10 * Suc n) (buffer (fst (backlog 25))))"
    by blast+
  have 1: "acks (snd (fire 0 None (backlog 25))) = [1..<11]"
    unfolding T2 bf ak by (simp add: take_map m del: upt_Suc)
  have 2: "buffer (fst (fire 0 None (backlog 25))) = map rec_n [11..<26]"
    unfolding T1 bf by (simp add: drop_map del: upt_Suc)
  have 3: "timers (snd (fire 0 None (backlog 25))) = [(1, 100, Drain)]"
    unfolding T3 bf ts nt by (simp add: drop_map del: upt_Suc)
  have 4: "acks (snd (drain_steps 1 (fire 0 None (backlog 25)))) = [1..<21]"
    using T4[rule_format, of 1] unfolding bf ak by (simp add: take_map m del: upt_Suc)
  have 5: "buffer (fst (drain_steps 1 (fire 0 None (backlog 25)))) = map rec_n [21..<26]"
    using T4[rule_format, of 1] unfolding bf by (simp add: drop_map del: upt_Suc)
  have 6: "acks (snd (drain_steps 2 (fire 0 None (backlog 25)))) = [1..<26]"
    using T4[rule_format, of 2] unfolding bf ak by (simp add: take_map m del: upt_Suc)
  have 7: "buffer (fst (drain_steps 2 (fire 0 None (backlog 25)))) = []"
    using T4[rule_format, of 2] unfolding bf by (simp add: drop_map del: upt_Suc)
  show ?thesis using r p bf 1 2 3 4 5 6 7 by (simp only: simp_thms)
qed

section \<open>What close cancels\<close>

lemma close_timers:
  assumes "timers_tracked (t, r)"
  shows "timers (snd (close (t, r))) = filter (\<lambda>tm. snd (snd tm) = Drain) (timers r)"
proof -
  from assms have inv: "\<And>tm. tm \<in> set (timers r) \<Longrightarrow>
      (snd (snd tm) = Reconnect) = (reconnectTimeout t = Some (fst tm))"
    by (simp add: timers_tracked_def list_all_iff)
  show ?thesis
  proof (cases "reconnectTimeout t")
    case None
    have "filter (\<lambda>tm. snd (snd tm) = Drain) (timers r) = timers r"
    proof (intro filter_True ballI)
      fix tm assume "tm \<in> set (timers r)"
      from inv[OF this] None show "snd (snd tm) = Drain" by (cases "snd (snd tm)") simp_all
    qed
    then show ?thesis by (simp add: close_fields None)
  next
    case (Some h)
    have "filter (\<lambda>tm. fst tm \<noteq> h) (timers r) = filter (\<lambda>tm. snd (snd tm) = Drain) (timers r)"
    proof (rule filter_cong[OF refl])
      fix tm assume "tm \<in> set (timers r)"
      from inv[OF this] Some show "(fst tm \<noteq> h) = (snd (snd tm) = Drain)"
        by (cases "snd (snd tm)") auto
    qed
    then show ?thesis by (simp add: close_fields Some)
  qed
qed

lemma close_pair: "close (t, r) = (t, snd (close (t, r)))"
  using close_fields(1)[of t r] by (metis prod.collapse)

text \<open>
  A socket that was closed, or asked to close while its bind is pending, is handed
  nothing: \<open>sendLog\<close> catches the exception of the closed socket, or the socket queues
  the send behind the \<open>close\<close>.
\<close>

lemma sendLog_not_open:
  assumes "client t = Some c" "\<not> sock_takes c r"
  shows "datagrams (snd (sendLog lg (t, r))) = datagrams r \<and> \<not> sock_takes c (snd (sendLog lg (t, r)))"
proof (cases "to_message lg")
  case (Inl e)
  then show ?thesis
    using assms by (simp add: sendLog_def console_print_def sock_takes_frame)
next
  case (Inr p)
  show ?thesis
  proof (cases "valid_port (port t)")
    case False
    then show ?thesis
      using assms Inr by (simp add: sendLog_def sock_send_def console_print_def sock_takes_frame)
  next
    case True
    show ?thesis
    proof (cases "sock_state c r")
      case Unbound
      then show ?thesis using assms(2) by (simp add: sock_takes_def)
    next
      case (Binding q)
      then have q: "DClose \<in> set q" using assms(2) by (simp add: sock_takes_def)
      have l: "c < length (sockets r)" using Binding by (rule sock_state_Binding)
      show ?thesis
        using assms(1) Inr True Binding q l
        by (simp add: sendLog_def sock_send_def sock_takes_update)
    next
      case Bound
      then show ?thesis using assms(2) by (simp add: sock_takes_def)
    next
      case Closed
      then show ?thesis
        using assms Inr True
        by (simp add: sendLog_def sock_send_def console_print_def sock_takes_frame)
    qed
  qed
qed

lemma process_items_not_open:
  assumes "client t = Some c" "\<not> sock_takes c r"
  shows "datagrams (snd (foldl process_item (t, r) items)) = datagrams r"
  using assms(2)
proof (induction items arbitrary: r)
  case Nil
  then show ?case by simp
next
  case (Cons it items)
  define r1 where "r1 = snd (process_item (t, r) it)"
  have p: "process_item (t, r) it = (t, r1)"
    using process_item_fields(1)[of t r it] unfolding r1_def by (metis prod.collapse)
  have "datagrams r1 = datagrams r \<and> \<not> sock_takes c r1"
    using sendLog_not_open[OF assms(1) Cons.prems, of "fst it"]
    unfolding r1_def process_item_def invoke_def by (simp add: sock_takes_frame)
  then show ?case using Cons.IH[of r1] by (simp add: p)
qed

lemma processBuffer_not_open:
  assumes "client t = Some c" "\<not> sock_takes c r"
  shows "datagrams (snd (processBuffer (t, r))) = datagrams r"
proof (cases "buffer t \<noteq> [] \<and> connected t")
  case True
  let ?t = "t\<lparr>buffer := drop 10 (buffer t)\<rparr>"
  define s1 where "s1 = foldl process_item (?t, r) (take 10 (buffer t))"
  have c: "client ?t = Some c" using assms by simp
  have d: "datagrams (snd s1) = datagrams r"
    unfolding s1_def by (rule process_items_not_open[OF c assms(2)])
  note F = process_items_fields[of ?t r "take 10 (buffer t)", folded s1_def]
  have p: "processBuffer (t, r) =
      (if drop 10 (buffer t) \<noteq> [] then (fst s1, snd (setTimeout Drain 100 (snd s1))) else s1)"
    unfolding processBuffer_unfold s1_def[symmetric] using True assms(1) by (simp add: Let_def F(1))
  show ?thesis unfolding p using d by (simp add: setTimeout_def)
next
  case False
  then have "processBuffer (t, r) = (t, r)" by (intro processBuffer_idle) auto
  then show ?thesis by simp
qed

lemma close_not_open:
  assumes "client t = Some c"
  shows "\<not> sock_takes c (snd (close (t, r)))"
proof -
  define r1 where "r1 = (case reconnectTimeout t of Some h \<Rightarrow> clearTimeout h r | None \<Rightarrow> r)"
  have c: "close (t, r) = (case sock_close c r1 of Inr r2 \<Rightarrow> (t, r2) | Inl e \<Rightarrow> (t, r1))"
    unfolding close_def Let_def fst_conv snd_conv r1_def[symmetric] using assms by simp
  show ?thesis
  proof (cases "sock_state c r1")
    case Unbound
    then have "c < length (sockets r1)" by (simp add: sock_state_def split: if_splits)
    then show ?thesis using Unbound by (simp add: c sock_close_def sock_takes_update)
  next
    case (Binding q)
    then have "c < length (sockets r1)" by (rule sock_state_Binding)
    then show ?thesis using Binding by (simp add: c sock_close_def sock_takes_update)
  next
    case Bound
    then have "c < length (sockets r1)" by (simp add: sock_state_def split: if_splits)
    then show ?thesis using Bound by (simp add: c sock_close_def sock_takes_update)
  next
    case Closed
    then show ?thesis by (simp add: c sock_close_def sock_takes_def)
  qed
qed

lemma close_drain_fires:
  assumes "timers_tracked (t, r)" "(h, ms, Drain) \<in> set (timers r)"
  shows "fire h fails (close (t, r))
         = processBuffer (t, clearTimeout h (snd (close (t, r))))"
proof -
  have tr: "timers_tracked (t, snd (close (t, r)))"
    using tracked_close[OF assms(1)] close_pair[of t r] by simp
  have "(h, ms, Drain) \<in> set (timers (snd (close (t, r))))"
    using assms(2) by (simp add: close_timers[OF assms(1)])
  from fire_pending[OF tr this, of fails] show ?thesis
    using close_pair[of t r] by simp
qed

text \<open>
  After \<open>close\<close>, a send error reported through the callback of \<open>client.send\<close> arms a
  new reconnect timer, and so does the socket's \<open>'error'\<close> event. When that timer
  fires and the socket can be created, the transport is connected again, on the new
  socket.
\<close>

lemma rearmed:
  assumes "timers_tracked (t, r)"
  shows "timers_tracked (scheduleReconnect (t\<lparr>connected := False\<rparr>, console_print m vs r))"
    and "(next_timer r, 30000, Reconnect)
          \<in> set (timers (snd (scheduleReconnect (t\<lparr>connected := False\<rparr>, console_print m vs r))))"
    and "length (sockets (snd (scheduleReconnect (t\<lparr>connected := False\<rparr>, console_print m vs r))))
          = length (sockets r)"
    and "buffer (fst (scheduleReconnect (t\<lparr>connected := False\<rparr>, console_print m vs r))) = buffer t"
proof -
  show "timers_tracked (scheduleReconnect (t\<lparr>connected := False\<rparr>, console_print m vs r))"
    using assms by (intro tracked_scheduleReconnect) (simp add: tracked_frame)
  show "(next_timer r, 30000, Reconnect)
          \<in> set (timers (snd (scheduleReconnect (t\<lparr>connected := False\<rparr>, console_print m vs r))))"
    by (simp add: scheduleReconnect_def Let_def setTimeout_def clearTimeout_def console_print_def
        split: option.splits)
  show "length (sockets (snd (scheduleReconnect (t\<lparr>connected := False\<rparr>, console_print m vs r))))
          = length (sockets r)"
    by (simp add: scheduleReconnect_def Let_def setTimeout_def clearTimeout_def console_print_def
        split: option.splits)
  show "buffer (fst (scheduleReconnect (t\<lparr>connected := False\<rparr>, console_print m vs r))) = buffer t"
    by (simp add: scheduleReconnect_def Let_def)
qed

lemma reconnect_connects:
  assumes "timers_tracked (t, r)" "(h, ms, Reconnect) \<in> set (timers r)"
  shows "connected (fst (fire h None (t, r)))"
    and "client (fst (fire h None (t, r))) = Some (length (sockets r))"
    and "length (sockets (snd (fire h None (t, r)))) = Suc (length (sockets r))"
    and "sock_takes (length (sockets r)) (snd (fire h None (t, r)))"
proof -
  note d = drain_progressD[OF reconnect_drains[OF assms]]
  show "connected (fst (fire h None (t, r)))" by (rule d(1))
  show "client (fst (fire h None (t, r))) = Some (length (sockets r))" by (rule d(2))
  show "sock_takes (length (sockets r)) (snd (fire h None (t, r)))" by (rule d(3))
  show "length (sockets (snd (fire h None (t, r)))) = Suc (length (sockets r))"
    unfolding fire_reconnect[OF assms] setupConnection_opened
    by (simp add: processBuffer_fields console_print_def clearTimeout_def)
qed

lemma reconnect_after_close:
  assumes "timers_tracked (t, r)"
  shows "(next_timer r, 30000, Reconnect)
           \<in> set (timers (snd (send_callback (Some e) (close (t, r)))))"
    and "connected (fst (fire (next_timer r) None (send_callback (Some e) (close (t, r)))))"
    and "client (fst (fire (next_timer r) None (send_callback (Some e) (close (t, r)))))
           = Some (length (sockets r))"
    and "sock_takes (length (sockets r))
           (snd (fire (next_timer r) None (send_callback (Some e) (close (t, r)))))"
    and "(next_timer r, 30000, Reconnect) \<in> set (timers (snd (on_error e (close (t, r)))))"
    and "connected (fst (fire (next_timer r) None (on_error e (close (t, r)))))"
    and "client (fst (fire (next_timer r) None (on_error e (close (t, r)))))
           = Some (length (sockets r))"
    and "sock_takes (length (sockets r)) (snd (fire (next_timer r) None (on_error e (close (t, r)))))"
proof -
  define r1 where "r1 = snd (close (t, r))"
  have c: "close (t, r) = (t, r1)" unfolding r1_def by (rule close_pair)
  have tr: "timers_tracked (t, r1)" using tracked_close[OF assms] by (simp add: c)
  have n: "next_timer r1 = next_timer r" "length (sockets r1) = length (sockets r)"
    by (simp_all add: r1_def close_fields)
  define s1 where "s1 = scheduleReconnect (t\<lparr>connected := False\<rparr>,
      console_print CError [JStr (''Erro ao enviar log para Graylog: '' @ e)] r1)"
  define s2 where "s2 = scheduleReconnect (t\<lparr>connected := False\<rparr>,
      console_print CError [JStr (''Erro no cliente UDP Graylog: '' @ e)] r1)"
  have e1: "send_callback (Some e) (close (t, r)) = s1"
    by (simp add: c send_callback_def s1_def)
  have e2: "on_error e (close (t, r)) = s2"
    by (simp add: c on_error_def s2_def)
  note R1 = rearmed[OF tr, of CError "[JStr (''Erro ao enviar log para Graylog: '' @ e)]",
      folded s1_def, unfolded n]
  note R2 = rearmed[OF tr, of CError "[JStr (''Erro no cliente UDP Graylog: '' @ e)]",
      folded s2_def, unfolded n]
  have p1: "s1 = (fst s1, snd s1)" and p2: "s2 = (fst s2, snd s2)" by simp_all
  have t1: "timers_tracked (fst s1, snd s1)" and t2: "timers_tracked (fst s2, snd s2)"
    using R1(1) R2(1) by simp_all
  note C1 = reconnect_connects[OF t1 R1(2), unfolded R1(3), folded p1]
  note C2 = reconnect_connects[OF t2 R2(2), unfolded R2(3), folded p2]
  show "(next_timer r, 30000, Reconnect)
           \<in> set (timers (snd (send_callback (Some e) (close (t, r)))))"
    unfolding e1 by (rule R1(2))
  show "connected (fst (fire (next_timer r) None (send_callback (Some e) (close (t, r)))))"
    unfolding e1 by (rule C1(1))
  show "client (fst (fire (next_timer r) None (send_callback (Some e) (close (t, r)))))
           = Some (length (sockets r))"
    unfolding e1 by (rule C1(2))
  show "sock_takes (length (sockets r))
           (snd (fire (next_timer r) None (send_callback (Some e) (close (t, r)))))"
    unfolding e1 by (rule C1(4))
  show "(next_timer r, 30000, Reconnect) \<in> set (timers (snd (on_error e (close (t, r)))))"
    unfolding e2 by (rule R2(2))
  show "connected (fst (fire (next_timer r) None (on_error e (close (t, r)))))"
    unfolding e2 by (rule C2(1))
  show "client (fst (fire (next_timer r) None (on_error e (close (t, r)))))
           = Some (length (sockets r))"
    unfolding e2 by (rule C2(2))
  show "sock_takes (length (sockets r)) (snd (fire (next_timer r) None (on_error e (close (t, r)))))"
    unfolding e2 by (rule C2(4))
qed
lemma batch_datagrams_rec:
  "valid_port p \<Longrightarrow>
   batch_datagrams c p h (map rec_n xs) = map (\<lambda>i. (c, p, h, Json (fst (rec_n i)))) xs"
  by (induction xs)
     (simp_all add: batch_datagrams_def send_attempt_def to_message_def rec_n_def)

text \<open>
  Eleven records are queued while the transport waits to reconnect; the reconnect
  timer fires and the socket is created: ten records go out and a drain timer is set
  for the eleventh.
\<close>

lemma drained_once:
  "reachable (fire 0 None (backlog 11))"
  "connected (fst (fire 0 None (backlog 11)))"
  "client (fst (fire 0 None (backlog 11))) = Some 0"
  "buffer (fst (fire 0 None (backlog 11))) = [rec_n 11]"
  "acks (snd (fire 0 None (backlog 11))) = [1, 2, 3, 4, 5, 6, 7, 8, 9, 10]"
  "timers (snd (fire 0 None (backlog 11))) = [(1, 100, Drain)]"
  "length (datagrams (snd (fire 0 None (backlog 11)))) = 10"
proof -
  let ?s = "fire 0 None (backlog 11)"
  have b: "backlog 11 =
    (\<lparr>client = None, host = ''graylog.local'', port = 12201, connected = False,
       buffer = map rec_n [1..<12], maxBufferSize = 100, reconnectTimeout = Some 0\<rparr>,
     runtime0\<lparr>timers := [(0, 30000, Reconnect)], next_timer := 1,
       console := [(CError, [JStr (''Erro ao configurar cliente UDP: '' @ ''socket EMFILE'')])]\<rparr>)"
    using backlog_eq[of 11] by simp
  have rb: "reachable (backlog 11)" by (rule reachable_backlog)
  have trb: "timers_tracked (backlog 11)" using rb by (rule reachable_tracked)
  show "reachable ?s" using rb by (rule reachable.fired)
  have p: "(0, 30000, Reconnect) \<in> set (timers (snd (backlog 11)))"
    by (simp add: b runtime0_def)
  have u: "[Suc 0..<12] = [1, 2, 3, 4, 5, 6, 7, 8, 9, 10, 11::nat]"
    by (simp add: upt_rec)
  note F = reconnect_drain_facts[of "fst (backlog 11)" "snd (backlog 11)" 0 30000 0, simplified,
      OF trb p]
  show "connected (fst ?s)" using F(1) by simp
  show "buffer (fst ?s) = [rec_n 11]"
    using F(2) by (simp add: b u)
  show "acks (snd ?s) = [1, 2, 3, 4, 5, 6, 7, 8, 9, 10]"
    using F(3) by (simp add: b u runtime0_def rec_n_def)
  show "timers (snd ?s) = [(1, 100, Drain)]"
    using reconnect_first_batch_timers[of "fst (backlog 11)" "snd (backlog 11)" 0 30000, simplified,
        OF trb p]
    by (simp add: b u runtime0_def)
  show "client (fst ?s) = Some 0"
    using drain_progressD(2)[OF reconnect_drains[of "fst (backlog 11)" "snd (backlog 11)" 0 30000,
          simplified, OF trb p]]
    by (simp add: b runtime0_def)
  have v: "valid_port 12201" by (simp add: valid_port_def)
  have "datagrams (snd ?s)
      = batch_datagrams 0 12201 ''graylog.local'' (map rec_n [1, 2, 3, 4, 5, 6, 7, 8, 9, 10])"
    using F(4) by (simp add: b u runtime0_def)
  then show "length (datagrams (snd ?s)) = 10"
    by (simp only: batch_datagrams_rec[OF v] length_map) simp
qed

text \<open>
  A transport that was given one record, then closed, and then told by the callback of
  \<open>client.send\<close> that the send failed.
\<close>

lemma failed_after_close:
  "send_callback (Some ''getaddrinfo ENOTFOUND graylog.local'')
     (close (write_log (fst (rec_n 1)) 1
        (new_GraylogTransport ''graylog.local'' 12201 None runtime0)))
   = (\<lparr>client = Some 0, host = ''graylog.local'', port = 12201, connected = False,
         buffer = [], maxBufferSize = 100, reconnectTimeout = Some 0\<rparr>,
      runtime0\<lparr>sockets := [Binding [DSend, DClose]], timers := [(0, 30000, Reconnect)],
        next_timer := 1,
        datagrams := [(0, 12201, ''graylog.local'', Json (fst (rec_n 1)))], acks := [1],
        console := [(CError, [JStr (''Erro ao enviar log para Graylog: ''
                       @ ''getaddrinfo ENOTFOUND graylog.local'')])]\<rparr>)"
  unfolding first_record
  by (simp add: close_def Let_def sock_close_def sock_state_def send_callback_def
      scheduleReconnect_def setTimeout_def console_print_def runtime0_def)

text \<open>
  C6 as stated fails, in both halves. A drain step runs after \<open>close\<close>: in the state
  above \<open>close\<close> is called with a drain timer pending; the timer is still pending
  afterwards, and when it fires the drain step takes the eleventh record off the queue
  and acknowledges it (the socket, asked to close, does not send it: ten datagrams
  were handed over, not eleven). A reconnect attempt runs after \<open>close\<close>: a transport is
  given one record and closed, which leaves no timer pending; the send then fails, its
  callback arms a reconnect timer, and when that fires the transport creates a second
  socket and is connected again.
\<close>

theorem work_after_close_counterexample:
  "reachable (close (fire 0 None (backlog 11))) \<and>
   timers (snd (close (fire 0 None (backlog 11)))) = [(1, 100, Drain)] \<and>
   buffer (fst (close (fire 0 None (backlog 11)))) = [rec_n 11] \<and>
   acks (snd (close (fire 0 None (backlog 11)))) = [1, 2, 3, 4, 5, 6, 7, 8, 9, 10] \<and>
   buffer (fst (fire 1 None (close (fire 0 None (backlog 11))))) = [] \<and>
   acks (snd (fire 1 None (close (fire 0 None (backlog 11)))))
     = [1, 2, 3, 4, 5, 6, 7, 8, 9, 10, 11] \<and>
   length (datagrams (snd (fire 1 None (close (fire 0 None (backlog 11)))))) = 10 \<and>
   reachable (fire 0 None (send_callback (Some ''getaddrinfo ENOTFOUND graylog.local'')
     (close (write_log (fst (rec_n 1)) 1
        (new_GraylogTransport ''graylog.local'' 12201 None runtime0))))) \<and>
   timers (snd (close (write_log (fst (rec_n 1)) 1
        (new_GraylogTransport ''graylog.local'' 12201 None runtime0)))) = [] \<and>
   timers (snd (send_callback (Some ''getaddrinfo ENOTFOUND graylog.local'')
     (close (write_log (fst (rec_n 1)) 1
        (new_GraylogTransport ''graylog.local'' 12201 None runtime0)))))
     = [(0, 30000, Reconnect)] \<and>
   connected (fst (fire 0 None (send_callback (Some ''getaddrinfo ENOTFOUND graylog.local'')
     (close (write_log (fst (rec_n 1)) 1
        (new_GraylogTransport ''graylog.local'' 12201 None runtime0)))))) \<and>
   client (fst (fire 0 None (send_callback (Some ''getaddrinfo ENOTFOUND graylog.local'')
     (close (write_log (fst (rec_n 1)) 1
        (new_GraylogTransport ''graylog.local'' 12201 None runtime0)))))) = Some 1 \<and>
   sockets (snd (fire 0 None (send_callback (Some ''getaddrinfo ENOTFOUND graylog.local'')
     (close (write_log (fst (rec_n 1)) 1
        (new_GraylogTransport ''graylog.local'' 12201 None runtime0))))))
     = [Binding [DSend, DClose], Unbound]"
proof -
  let ?s = "fire 0 None (backlog 11)"
  note D = drained_once
  obtain t r where s: "?s = (t, r)" by (cases ?s)
  have tr: "timers_tracked (t, r)" using reachable_tracked[OF D(1)] by (simp add: s)
  have c1: "timers (snd (close (t, r))) = [(1, 100, Drain)]"
    using close_timers[OF tr] D(6) by (simp add: s)
  have c2: "fst (close (t, r)) = t" by (rule close_fields(1))
  have c3: "acks (snd (close (t, r))) = acks r" by (rule close_fields(4))
  have d: "(1, 100, Drain) \<in> set (timers r)" using D(6) by (simp add: s)
  have f: "fire 1 None (close (t, r)) = processBuffer (t, clearTimeout 1 (snd (close (t, r))))"
    using close_drain_fires[OF tr d] .
  have bt: "buffer t = [rec_n 11]" "connected t" "client t \<noteq> None"
    "acks r = [1, 2, 3, 4, 5, 6, 7, 8, 9, 10]"
    using D(2-5) by (simp_all add: s)
  have ne: "buffer t \<noteq> []" by (simp add: bt)
  have e1: "buffer (fst (fire 1 None (close (t, r)))) = []"
    unfolding f processBuffer_batch(1)[OF ne bt(2) bt(3)] by (simp add: bt)
  have e2: "acks (snd (fire 1 None (close (t, r)))) = [1, 2, 3, 4, 5, 6, 7, 8, 9, 10, 11]"
    unfolding f processBuffer_batch(2)[OF ne bt(2) bt(3)]
    by (simp add: bt c3 clearTimeout_def rec_n_def)
  have cs: "client t = Some 0" using D(3) by (simp add: s)
  have no: "\<not> sock_takes 0 (clearTimeout 1 (snd (close (t, r))))"
    using close_not_open[OF cs, of r] by (simp add: sock_takes_frame)
  have e3: "length (datagrams (snd (fire 1 None (close (t, r))))) = 10"
    unfolding f processBuffer_not_open[OF cs no]
    using D(7) by (simp add: s clearTimeout_def close_fields)
  have rc: "reachable (close ?s)" using D(1) by (rule reachable.closed)
  let ?w = "write_log (fst (rec_n 1)) 1 (new_GraylogTransport ''graylog.local'' 12201 None runtime0)"
  let ?f = "send_callback (Some ''getaddrinfo ENOTFOUND graylog.local'') (close ?w)"
  have rf: "reachable (fire 0 None ?f)"
    by (intro reachable.fired reachable.completed reachable.closed reachable.written
        reachable.constructed)
  have g1: "timers (snd (close ?w)) = []"
    unfolding first_record by (simp add: close_fields runtime0_def)
  have g2: "timers (snd ?f) = [(0, 30000, Reconnect)]"
    unfolding failed_after_close by simp
  have g3: "connected (fst (fire 0 None ?f))" "client (fst (fire 0 None ?f)) = Some 1"
    "sockets (snd (fire 0 None ?f)) = [Binding [DSend, DClose], Unbound]"
    unfolding failed_after_close
    by (simp_all add: fire_def clearTimeout_def console_print_def setupConnection_def
        createSocket_def processBuffer_def Let_def)
  show ?thesis
    using rc c1 c2 c3 e1 e2 e3 bt rf g1 g2 g3 unfolding s by simp
qed

text \<open>
  C6, amended. In every reachable state, \<open>close\<close> cancels the pending reconnect
  timer: once it returns, the pending timers are exactly the drain timers that were
  pending before, so no reconnect timer is pending. \<open>close\<close> cancels no drain timer
  and leaves the connected flag, the socket handle and the queue of the transport as
  they were. A drain timer that was pending still fires after \<open>close\<close> and runs
  \<open>processBuffer\<close>; if the transport was connected with entries queued, that step
  takes the next entries, up to ten, off the queue and acknowledges them, and nothing
  is handed to the socket, which was asked to close: those records are lost. And when,
  after \<open>close\<close>, a send is reported as failed or the socket reports an error, a new
  reconnect timer is armed; when it fires and the socket can be created, the reconnect
  attempt runs: the transport is connected again, on a new socket that takes sends.
\<close>

theorem close_cancels_reconnect_only:
  assumes "reachable s"
  shows "timers (snd (close s)) = filter (\<lambda>tm. snd (snd tm) = Drain) (timers (snd s)) \<and>
     fst (close s) = fst s \<and>
     (\<forall>h ms. (h, ms, Drain) \<in> set (timers (snd s)) \<longrightarrow>
        (h, ms, Drain) \<in> set (timers (snd (close s))) \<and>
        fire h fails (close s) = processBuffer (fst s, clearTimeout h (snd (close s))) \<and>
        (connected (fst s) \<and> client (fst s) \<noteq> None \<and> buffer (fst s) \<noteq> [] \<longrightarrow>
           buffer (fst (fire h fails (close s))) = drop 10 (buffer (fst s)) \<and>
           acks (snd (fire h fails (close s)))
             = acks (snd s) @ map snd (take 10 (buffer (fst s))) \<and>
           datagrams (snd (fire h fails (close s))) = datagrams (snd s))) \<and>
     (next_timer (snd s), 30000, Reconnect)
        \<in> set (timers (snd (send_callback (Some e) (close s)))) \<and>
     connected (fst (fire (next_timer (snd s)) None (send_callback (Some e) (close s)))) \<and>
     client (fst (fire (next_timer (snd s)) None (send_callback (Some e) (close s))))
        = Some (length (sockets (snd s))) \<and>
     sock_takes (length (sockets (snd s)))
        (snd (fire (next_timer (snd s)) None (send_callback (Some e) (close s)))) \<and>
     (next_timer (snd s), 30000, Reconnect) \<in> set (timers (snd (on_error e (close s)))) \<and>
     connected (fst (fire (next_timer (snd s)) None (on_error e (close s)))) \<and>
     client (fst (fire (next_timer (snd s)) None (on_error e (close s))))
        = Some (length (sockets (snd s))) \<and>
     sock_takes (length (sockets (snd s)))
        (snd (fire (next_timer (snd s)) None (on_error e (close s))))"
proof -
  obtain t r where s: "s = (t, r)" by (cases s)
  have tr: "timers_tracked (t, r)" using assms unfolding s by (rule reachable_tracked)
  have ak: "acks (clearTimeout h (snd (close (t, r)))) = acks r" for h
    by (simp add: clearTimeout_def close_fields)
  have D: "(h, ms, Drain) \<in> set (timers (snd (close (t, r)))) \<and>
        fire h fails (close (t, r)) = processBuffer (t, clearTimeout h (snd (close (t, r)))) \<and>
        (connected t \<and> client t \<noteq> None \<and> buffer t \<noteq> [] \<longrightarrow>
           buffer (fst (fire h fails (close (t, r)))) = drop 10 (buffer t) \<and>
           acks (snd (fire h fails (close (t, r)))) = acks r @ map snd (take 10 (buffer t)) \<and>
           datagrams (snd (fire h fails (close (t, r)))) = datagrams r)"
    if d: "(h, ms, Drain) \<in> set (timers r)" for h ms
  proof (intro conjI impI)
    show "(h, ms, Drain) \<in> set (timers (snd (close (t, r))))"
      using d by (simp add: close_timers[OF tr])
    show f: "fire h fails (close (t, r)) = processBuffer (t, clearTimeout h (snd (close (t, r))))"
      using tr d by (rule close_drain_fires)
    assume a: "connected t \<and> client t \<noteq> None \<and> buffer t \<noteq> []"
    then have a': "buffer t \<noteq> []" "connected t" "client t \<noteq> None" by simp_all
    show "buffer (fst (fire h fails (close (t, r)))) = drop 10 (buffer t)"
      unfolding f processBuffer_batch(1)[OF a'] by simp
    show "acks (snd (fire h fails (close (t, r)))) = acks r @ map snd (take 10 (buffer t))"
      unfolding f processBuffer_batch(2)[OF a'] by (simp add: ak)
    from a obtain c where c: "client t = Some c" by auto
    have no: "\<not> sock_takes c (clearTimeout h (snd (close (t, r))))"
      using close_not_open[OF c, of r] by (simp add: sock_takes_frame)
    show "datagrams (snd (fire h fails (close (t, r)))) = datagrams r"
      unfolding f processBuffer_not_open[OF c no] by (simp add: clearTimeout_def close_fields)
  qed
  note R = reconnect_after_close[OF tr, of e]
  show ?thesis
    unfolding s fst_conv snd_conv
  proof (intro conjI allI impI)
    show "timers (snd (close (t, r))) = filter (\<lambda>tm. snd (snd tm) = Drain) (timers r)"
      by (rule close_timers[OF tr])
    show "fst (close (t, r)) = t" by (rule close_fields(1))
  next
    fix h ms
    assume d: "(h, ms, Drain) \<in> set (timers r)"
    show "(h, ms, Drain) \<in> set (timers (snd (close (t, r))))" using D[OF d] by blast
    show "fire h fails (close (t, r)) = processBuffer (t, clearTimeout h (snd (close (t, r))))"
      using D[OF d] by blast
    assume a: "connected t \<and> client t \<noteq> None \<and> buffer t \<noteq> []"
    show "buffer (fst (fire h fails (close (t, r)))) = drop 10 (buffer t)"
      using D[OF d] a by blast
    show "acks (snd (fire h fails (close (t, r)))) = acks r @ map snd (take 10 (buffer t))"
      using D[OF d] a by blast
    show "datagrams (snd (fire h fails (close (t, r)))) = datagrams r"
      using D[OF d] a by blast
  qed (rule R)+
qed

theorem close_cancels_reconnect_only_witness:
  "reachable (backlog 3) \<and>
   timers (snd (backlog 3)) = [(0, 30000, Reconnect)] \<and>
   timers (snd (close (backlog 3))) = [] \<and>
   buffer (fst (close (backlog 3))) = [rec_n 1, rec_n 2, rec_n 3] \<and>
   reachable (fire 0 None (backlog 11)) \<and>
   (1, 100, Drain) \<in> set (timers (snd (fire 0 None (backlog 11)))) \<and>
   connected (fst (fire 0 None (backlog 11))) \<and>
   client (fst (fire 0 None (backlog 11))) = Some 0 \<and>
   buffer (fst (fire 0 None (backlog 11))) = [rec_n 11] \<and>
   (1, 100, Drain) \<in> set (timers (snd (close (fire 0 None (backlog 11))))) \<and>
   buffer (fst (fire 1 None (close (fire 0 None (backlog 11))))) = [] \<and>
   acks (snd (fire 1 None (close (fire 0 None (backlog 11)))))
     = [1, 2, 3, 4, 5, 6, 7, 8, 9, 10, 11] \<and>
   datagrams (snd (fire 1 None (close (fire 0 None (backlog 11)))))
     = datagrams (snd (fire 0 None (backlog 11))) \<and>
   reachable (write_log (fst (rec_n 1)) 1
      (new_GraylogTransport ''graylog.local'' 12201 None runtime0)) \<and>
   (0, 30000, Reconnect) \<in> set (timers (snd (send_callback (Some ''getaddrinfo ENOTFOUND'')
      (close (write_log (fst (rec_n 1)) 1
         (new_GraylogTransport ''graylog.local'' 12201 None runtime0)))))) \<and>
   connected (fst (fire 0 None (send_callback (Some ''getaddrinfo ENOTFOUND'')
      (close (write_log (fst (rec_n 1)) 1
         (new_GraylogTransport ''graylog.local'' 12201 None runtime0)))))) \<and>
   client (fst (fire 0 None (on_error ''getaddrinfo ENOTFOUND''
      (close (write_log (fst (rec_n 1)) 1
         (new_GraylogTransport ''graylog.local'' 12201 None runtime0)))))) = Some 1"
proof -
  have b: "backlog 3 =
    (\<lparr>client = None, host = ''graylog.local'', port = 12201, connected = False,
       buffer = map rec_n [1..<4], maxBufferSize = 100, reconnectTimeout = Some 0\<rparr>,
     runtime0\<lparr>timers := [(0, 30000, Reconnect)], next_timer := 1,
       console := [(CError, [JStr (''Erro ao configurar cliente UDP: '' @ ''socket EMFILE'')])]\<rparr>)"
    using backlog_eq[of 3] by simp
  have r: "reachable (backlog 3)" by (rule reachable_backlog)
  have u: "[Suc 0..<4] = [1, 2, 3::nat]" by (simp add: upt_rec)
  have t: "timers (snd (backlog 3)) = [(0, 30000, Reconnect)]"
    and f: "buffer (fst (backlog 3)) = [rec_n 1, rec_n 2, rec_n 3]"
    by (simp_all add: b u runtime0_def)
  from close_cancels_reconnect_only[OF r, of None "[]"]
  have "timers (snd (close (backlog 3)))
      = filter (\<lambda>tm. snd (snd tm) = Drain) (timers (snd (backlog 3)))"
    and "fst (close (backlog 3)) = fst (backlog 3)"
    by blast+
  then have 1: "timers (snd (close (backlog 3))) = []"
    and 2: "buffer (fst (close (backlog 3))) = [rec_n 1, rec_n 2, rec_n 3]"
    using t f by simp_all
  let ?s = "fire 0 None (backlog 11)"
  note D = drained_once
  have p: "(1, 100, Drain) \<in> set (timers (snd ?s))" by (simp add: D(6))
  have q: "connected (fst ?s) \<and> client (fst ?s) \<noteq> None \<and> buffer (fst ?s) \<noteq> []"
    by (simp add: D)
  from close_cancels_reconnect_only[OF D(1), of None "[]"]
  have "\<forall>h ms. (h, ms, Drain) \<in> set (timers (snd ?s)) \<longrightarrow>
        (h, ms, Drain) \<in> set (timers (snd (close ?s))) \<and>
        fire h None (close ?s) = processBuffer (fst ?s, clearTimeout h (snd (close ?s))) \<and>
        (connected (fst ?s) \<and> client (fst ?s) \<noteq> None \<and> buffer (fst ?s) \<noteq> [] \<longrightarrow>
           buffer (fst (fire h None (close ?s))) = drop 10 (buffer (fst ?s)) \<and>
           acks (snd (fire h None (close ?s)))
             = acks (snd ?s) @ map snd (take 10 (buffer (fst ?s))) \<and>
           datagrams (snd (fire h None (close ?s))) = datagrams (snd ?s))"
    by blast
  from this[rule_format, OF p]
  have 3: "(1, 100, Drain) \<in> set (timers (snd (close ?s)))"
    and "connected (fst ?s) \<and> client (fst ?s) \<noteq> None \<and> buffer (fst ?s) \<noteq> [] \<longrightarrow>
           buffer (fst (fire 1 None (close ?s))) = drop 10 (buffer (fst ?s)) \<and>
           acks (snd (fire 1 None (close ?s)))
             = acks (snd ?s) @ map snd (take 10 (buffer (fst ?s))) \<and>
           datagrams (snd (fire 1 None (close ?s))) = datagrams (snd ?s)"
    by blast+
  with q have "buffer (fst (fire 1 None (close ?s))) = drop 10 (buffer (fst ?s))"
    and "acks (snd (fire 1 None (close ?s))) = acks (snd ?s) @ map snd (take 10 (buffer (fst ?s)))"
    and 6: "datagrams (snd (fire 1 None (close ?s))) = datagrams (snd ?s)"
    by blast+
  then have 4: "buffer (fst (fire 1 None (close ?s))) = []"
    and 5: "acks (snd (fire 1 None (close ?s))) = [1, 2, 3, 4, 5, 6, 7, 8, 9, 10, 11]"
    by (simp_all add: D rec_n_def)
  let ?w = "write_log (fst (rec_n 1)) 1 (new_GraylogTransport ''graylog.local'' 12201 None runtime0)"
  have rw: "reachable ?w" by (intro reachable.written reachable.constructed)
  have nw: "next_timer (snd ?w) = 0" "length (sockets (snd ?w)) = 1"
    unfolding first_record by (simp_all add: runtime0_def)
  note W = close_cancels_reconnect_only[OF rw, of None "''getaddrinfo ENOTFOUND''", unfolded nw]
  from W have 7: "(0, 30000, Reconnect) \<in> set (timers (snd (send_callback
      (Some ''getaddrinfo ENOTFOUND'') (close ?w))))"
    and 8: "connected (fst (fire 0 None (send_callback (Some ''getaddrinfo ENOTFOUND'') (close ?w))))"
    and 9: "client (fst (fire 0 None (on_error ''getaddrinfo ENOTFOUND'' (close ?w)))) = Some 1"
    by blast+
  show ?thesis
    by (intro conjI) (rule r t 1 2 D(1) p D(2) D(3) D(4) 3 4 5 6 rw 7 8 9)+
qed

section \<open>A send that fails\<close>

lemma write_log_connected:
  "connected t \<Longrightarrow> client t = Some c \<Longrightarrow> write_log lg cb (t, r) = invoke cb (sendLog lg (t, r))"
  by (simp add: write_log_def)

text \<open>What \<open>sendLog\<close> does in each state of the socket.\<close>

lemma sendLog_taken:
  assumes "client t = Some c" "sock_takes c r" "send_attempt (port t) lg = Inr p"
  shows "datagrams (snd (sendLog lg (t, r))) = datagrams r @ [(c, port t, host t, p)]"
    and "console (snd (sendLog lg (t, r))) = console r"
  using sendLog_open[OF assms(1,2), of lg 0] assms(3)
  by (simp_all add: batch_datagrams_def batch_errors_def)

lemma sendLog_thrown:
  assumes "client t = Some c" "send_attempt (port t) lg = Inl x"
  shows "datagrams (snd (sendLog lg (t, r))) = datagrams r"
    and "console (snd (sendLog lg (t, r)))
          = console r @ [(CError, [JStr (''Erro ao formatar/enviar log: '' @ exn_message x)])]"
    and "sockets (snd (sendLog lg (t, r))) = sockets r"
proof -
  have "sendLog lg (t, r)
      = (t, console_print CError [JStr (''Erro ao formatar/enviar log: '' @ exn_message x)] r)"
  proof (cases "to_message lg")
    case (Inl e)
    then show ?thesis using assms by (simp add: sendLog_def send_attempt_def)
  next
    case (Inr p)
    then have "\<not> valid_port (port t)" "x = bad_port (port t)"
      using assms(2) by (simp_all add: send_attempt_def split: if_splits)
    then show ?thesis using assms(1) Inr by (simp add: sendLog_def sock_send_def)
  qed
  then show "datagrams (snd (sendLog lg (t, r))) = datagrams r"
    and "console (snd (sendLog lg (t, r)))
          = console r @ [(CError, [JStr (''Erro ao formatar/enviar log: '' @ exn_message x)])]"
    and "sockets (snd (sendLog lg (t, r))) = sockets r"
    by (simp_all add: console_print_def)
qed

lemma send_attempt_Inr:
  "send_attempt prt lg = Inr p \<Longrightarrow> to_message lg = Inr p \<and> valid_port prt"
  by (simp add: send_attempt_def split: sum.splits if_splits)

lemma sendLog_closed:
  assumes "client t = Some c" "sock_state c r = Closed" "send_attempt (port t) lg = Inr p"
  shows "datagrams (snd (sendLog lg (t, r))) = datagrams r"
    and "console (snd (sendLog lg (t, r)))
          = console r @ [(CError, [JStr ''Erro ao formatar/enviar log: Not running''])]"
  using assms(1,2) send_attempt_Inr[OF assms(3)]
  by (simp_all add: sendLog_def sock_send_def console_print_def not_running_def)

lemma sendLog_behind_close:
  assumes "client t = Some c" "sock_state c r = Binding q" "DClose \<in> set q"
    "send_attempt (port t) lg = Inr p"
  shows "datagrams (snd (sendLog lg (t, r))) = datagrams r"
    and "console (snd (sendLog lg (t, r))) = console r"
    and "sock_state c (snd (sendLog lg (t, r))) = Binding (q @ [DSend])"
    and "uncaught (listening c (snd (sendLog lg (t, r)))) = uncaught r @ [not_running]"
proof -
  have l: "c < length (sockets r)" using assms(2) by (rule sock_state_Binding)
  have e: "sendLog lg (t, r) = (t, r\<lparr>sockets := (sockets r)[c := Binding (q @ [DSend])]\<rparr>)"
    using assms(1-3) send_attempt_Inr[OF assms(4)] by (simp add: sendLog_def sock_send_def)
  have st: "sock_state c (r\<lparr>sockets := (sockets r)[c := Binding (q @ [DSend])]\<rparr>)
      = Binding (q @ [DSend])"
    using l by (rule sock_state_update)
  show "datagrams (snd (sendLog lg (t, r))) = datagrams r"
    and "console (snd (sendLog lg (t, r))) = console r"
    by (simp_all add: e)
  show "sock_state c (snd (sendLog lg (t, r))) = Binding (q @ [DSend])"
    unfolding e snd_conv by (rule st)
  show "uncaught (listening c (snd (sendLog lg (t, r)))) = uncaught r @ [not_running]"
    unfolding e snd_conv listening_Binding(2)[OF st]
    by (simp add: flush_behind_close[OF assms(3)])
qed

lemma listening_acks: "listening c (r\<lparr>acks := a\<rparr>) = (listening c r)\<lparr>acks := a\<rparr>"
  by (simp add: listening_def sock_frame split: sock.splits option.splits)

text \<open>
  The callback of a send that failed: the transport is disconnected and the reconnect
  timer armed; the queue and the datagrams are what they were.
\<close>

lemma send_callback_failed:
  "connected (fst (send_callback (Some e) (t, r))) = False"
  "buffer (fst (send_callback (Some e) (t, r))) = buffer t"
  "port (fst (send_callback (Some e) (t, r))) = port t"
  "host (fst (send_callback (Some e) (t, r))) = host t"
  "reconnectTimeout (fst (send_callback (Some e) (t, r))) = Some (next_timer r)"
  "(next_timer r, 30000, Reconnect) \<in> set (timers (snd (send_callback (Some e) (t, r))))"
  "datagrams (snd (send_callback (Some e) (t, r))) = datagrams r"
  "sockets (snd (send_callback (Some e) (t, r))) = sockets r"
  "console (snd (send_callback (Some e) (t, r)))
     = console r @ [(CError, [JStr (''Erro ao enviar log para Graylog: '' @ e)])]"
  by (simp_all add: send_callback_def scheduleReconnect_def Let_def setTimeout_def clearTimeout_def
      console_print_def split: option.splits)

text \<open>
  C1 as stated fails, in both of the ways a send can fail at the socket. A connected
  transport is given a record; the socket takes it and later reports that the send
  failed: the transport is then disconnected, and the record is not in the queue.
  And a connected transport whose socket was closed is given a record: \<open>client.send\<close>
  throws, \<open>sendLog\<close> prints the error, the record is not in the queue, nothing was
  handed over, and the transport is still connected. The same happens, with no \<open>close\<close>
  at all, to a transport constructed with port 0, which is what an unset
  \<open>GRAYLOG_PORT\<close> gives: \<open>client.send\<close> refuses the port.
\<close>

theorem failed_send_not_requeued_counterexample:
  "connected (fst (new_GraylogTransport ''graylog.local'' 12201 None runtime0)) \<and>
   datagrams (snd (write_log (fst (rec_n 1)) 1
      (new_GraylogTransport ''graylog.local'' 12201 None runtime0)))
     = [(0, 12201, ''graylog.local'', Json (fst (rec_n 1)))] \<and>
   connected (fst (send_callback (Some ''send ENETUNREACH'')
      (write_log (fst (rec_n 1)) 1
        (new_GraylogTransport ''graylog.local'' 12201 None runtime0)))) = False \<and>
   rec_n 1 \<notin> set (buffer (fst (send_callback (Some ''send ENETUNREACH'')
      (write_log (fst (rec_n 1)) 1
        (new_GraylogTransport ''graylog.local'' 12201 None runtime0))))) \<and>
   connected (fst (close (new_GraylogTransport ''graylog.local'' 12201 None runtime0))) \<and>
   sockets (snd (close (new_GraylogTransport ''graylog.local'' 12201 None runtime0))) = [Closed] \<and>
   connected (fst (write_log (fst (rec_n 1)) 1
      (close (new_GraylogTransport ''graylog.local'' 12201 None runtime0)))) \<and>
   rec_n 1 \<notin> set (buffer (fst (write_log (fst (rec_n 1)) 1
      (close (new_GraylogTransport ''graylog.local'' 12201 None runtime0))))) \<and>
   datagrams (snd (write_log (fst (rec_n 1)) 1
      (close (new_GraylogTransport ''graylog.local'' 12201 None runtime0)))) = [] \<and>
   timers (snd (write_log (fst (rec_n 1)) 1
      (close (new_GraylogTransport ''graylog.local'' 12201 None runtime0)))) = [] \<and>
   console (snd (write_log (fst (rec_n 1)) 1
      (close (new_GraylogTransport ''graylog.local'' 12201 None runtime0))))
     = [(CError, [JStr ''Erro ao formatar/enviar log: Not running''])] \<and>
   connected (fst (new_GraylogTransport ''graylog.local'' 0 None runtime0)) \<and>
   connected (fst (write_log (fst (rec_n 1)) 1
      (new_GraylogTransport ''graylog.local'' 0 None runtime0))) \<and>
   rec_n 1 \<notin> set (buffer (fst (write_log (fst (rec_n 1)) 1
      (new_GraylogTransport ''graylog.local'' 0 None runtime0)))) \<and>
   datagrams (snd (write_log (fst (rec_n 1)) 1
      (new_GraylogTransport ''graylog.local'' 0 None runtime0))) = [] \<and>
   timers (snd (write_log (fst (rec_n 1)) 1
      (new_GraylogTransport ''graylog.local'' 0 None runtime0))) = [] \<and>
   console (snd (write_log (fst (rec_n 1)) 1
      (new_GraylogTransport ''graylog.local'' 0 None runtime0)))
     = [(CError, [JStr (''Erro ao formatar/enviar log: ''
          @ ''Port should be > 0 and < 65536. Received type number (0).'')])]"
proof -
  have a: "connected (fst (new_GraylogTransport ''graylog.local'' 12201 None runtime0))"
    by (simp add: fresh_connected)
  have z: "show_int 0 = ''0''"
    by code_simp
  have g: "connected (fst (new_GraylogTransport ''graylog.local'' 0 None runtime0))"
    "connected (fst (write_log (fst (rec_n 1)) 1
      (new_GraylogTransport ''graylog.local'' 0 None runtime0)))"
    "rec_n 1 \<notin> set (buffer (fst (write_log (fst (rec_n 1)) 1
      (new_GraylogTransport ''graylog.local'' 0 None runtime0))))"
    "datagrams (snd (write_log (fst (rec_n 1)) 1
      (new_GraylogTransport ''graylog.local'' 0 None runtime0))) = []"
    "timers (snd (write_log (fst (rec_n 1)) 1
      (new_GraylogTransport ''graylog.local'' 0 None runtime0))) = []"
    "console (snd (write_log (fst (rec_n 1)) 1
      (new_GraylogTransport ''graylog.local'' 0 None runtime0)))
     = [(CError, [JStr (''Erro ao formatar/enviar log: ''
          @ ''Port should be > 0 and < 65536. Received type number (0).'')])]"
    unfolding new_connected
    by (simp_all add: write_log_def sendLog_def to_message_def rec_n_def sock_send_def
        valid_port_def bad_port_def z invoke_def console_print_def runtime0_def Let_def)
  have b: "datagrams (snd (write_log (fst (rec_n 1)) 1
      (new_GraylogTransport ''graylog.local'' 12201 None runtime0)))
     = [(0, 12201, ''graylog.local'', Json (fst (rec_n 1)))]"
    unfolding first_record by simp
  have c: "connected (fst (send_callback (Some ''send ENETUNREACH'')
      (write_log (fst (rec_n 1)) 1
        (new_GraylogTransport ''graylog.local'' 12201 None runtime0)))) = False"
    "rec_n 1 \<notin> set (buffer (fst (send_callback (Some ''send ENETUNREACH'')
      (write_log (fst (rec_n 1)) 1
        (new_GraylogTransport ''graylog.local'' 12201 None runtime0)))))"
    unfolding first_record by (simp_all add: send_callback_failed)
  have k: "close (new_GraylogTransport ''graylog.local'' 12201 None runtime0)
      = (\<lparr>client = Some 0, host = ''graylog.local'', port = 12201, connected = True,
         buffer = [], maxBufferSize = 100, reconnectTimeout = None\<rparr>,
        runtime0\<lparr>sockets := [Closed]\<rparr>)"
    unfolding fresh_connected
    by (simp add: close_def Let_def sock_close_def sock_state_def runtime0_def)
  have d: "connected (fst (close (new_GraylogTransport ''graylog.local'' 12201 None runtime0)))"
    "sockets (snd (close (new_GraylogTransport ''graylog.local'' 12201 None runtime0))) = [Closed]"
    unfolding k by simp_all
  have e: "connected (fst (write_log (fst (rec_n 1)) 1
      (close (new_GraylogTransport ''graylog.local'' 12201 None runtime0))))"
    "rec_n 1 \<notin> set (buffer (fst (write_log (fst (rec_n 1)) 1
      (close (new_GraylogTransport ''graylog.local'' 12201 None runtime0)))))"
    "datagrams (snd (write_log (fst (rec_n 1)) 1
      (close (new_GraylogTransport ''graylog.local'' 12201 None runtime0)))) = []"
    "timers (snd (write_log (fst (rec_n 1)) 1
      (close (new_GraylogTransport ''graylog.local'' 12201 None runtime0)))) = []"
    "console (snd (write_log (fst (rec_n 1)) 1
      (close (new_GraylogTransport ''graylog.local'' 12201 None runtime0))))
     = [(CError, [JStr ''Erro ao formatar/enviar log: Not running''])]"
    unfolding k
    by (simp_all add: write_log_def sendLog_def to_message_def rec_n_def sock_send_def
        sock_state_def valid_port_def invoke_def console_print_def runtime0_def not_running_def
        Let_def)
  show ?thesis
    by (intro conjI) (rule a b c d e g)+
qed

text \<open>
  C1, amended. A record written while the transport is connected goes straight to
  \<open>sendLog\<close> and its callback is invoked; the transport, and so the queue and the
  connected flag, is left as it was, and no timer is set. What \<open>sendLog\<close> does with the
  record depends on the record and the socket. If the record serialises and the port
  is valid, a socket that takes sends is handed the datagram and nothing is printed. If
  serialising the record or the port check throws, or the socket is closed, nothing is
  handed over and the error is printed. (If a \<open>close\<close> waits in the queue of a socket
  that is still binding, the send is queued behind it, nothing is handed over or
  printed, and the completed bind raises an uncaught exception.) If the socket later
  reports through the send's callback that the transmission failed, the transport
  prints the error, becomes disconnected and arms the reconnect timer of 30000 ms; the
  queue is still what it was before the write, and no datagram is added. When that
  timer fires and the socket is created, what is handed to the new socket is the
  queue as it was before the write, batch by batch: the record is not sent again.
\<close>

theorem failed_send_disconnects:
  assumes "reachable (t, r)" and "connected t" and "client t = Some c"
  shows "fst (write_log lg cb (t, r)) = t \<and>
     acks (snd (write_log lg cb (t, r))) = acks r @ [cb] \<and>
     timers (snd (write_log lg cb (t, r))) = timers r \<and>
     (\<forall>p. sock_takes c r \<and> send_attempt (port t) lg = Inr p \<longrightarrow>
        datagrams (snd (write_log lg cb (t, r))) = datagrams r @ [(c, port t, host t, p)] \<and>
        console (snd (write_log lg cb (t, r))) = console r) \<and>
     (\<forall>x. send_attempt (port t) lg = Inl x \<longrightarrow>
        datagrams (snd (write_log lg cb (t, r))) = datagrams r \<and>
        console (snd (write_log lg cb (t, r)))
          = console r @ [(CError, [JStr (''Erro ao formatar/enviar log: '' @ exn_message x)])]) \<and>
     (\<forall>p. sock_state c r = Closed \<and> send_attempt (port t) lg = Inr p \<longrightarrow>
        datagrams (snd (write_log lg cb (t, r))) = datagrams r \<and>
        console (snd (write_log lg cb (t, r)))
          = console r @ [(CError, [JStr ''Erro ao formatar/enviar log: Not running''])]) \<and>
     (\<forall>p q. sock_state c r = Binding q \<and> DClose \<in> set q \<and> send_attempt (port t) lg = Inr p \<longrightarrow>
        datagrams (snd (write_log lg cb (t, r))) = datagrams r \<and>
        console (snd (write_log lg cb (t, r))) = console r \<and>
        uncaught (listening c (snd (write_log lg cb (t, r)))) = uncaught r @ [not_running]) \<and>
     connected (fst (send_callback (Some e) (write_log lg cb (t, r)))) = False \<and>
     buffer (fst (send_callback (Some e) (write_log lg cb (t, r)))) = buffer t \<and>
     reconnectTimeout (fst (send_callback (Some e) (write_log lg cb (t, r)))) = Some (next_timer r) \<and>
     (next_timer r, 30000, Reconnect)
       \<in> set (timers (snd (send_callback (Some e) (write_log lg cb (t, r))))) \<and>
     datagrams (snd (send_callback (Some e) (write_log lg cb (t, r))))
       = datagrams (snd (write_log lg cb (t, r))) \<and>
     console (snd (send_callback (Some e) (write_log lg cb (t, r))))
       = console (snd (write_log lg cb (t, r)))
         @ [(CError, [JStr (''Erro ao enviar log para Graylog: '' @ e)])] \<and>
     (\<forall>n. datagrams (snd (drain_steps n (fire (next_timer r) None
              (send_callback (Some e) (write_log lg cb (t, r))))))
           = datagrams (snd (write_log lg cb (t, r))) @
             batch_datagrams (length (sockets r)) (port t) (host t) (take (10 * Suc n) (buffer t)))"
proof -
  define r1 where "r1 = snd (write_log lg cb (t, r))"
  have w: "write_log lg cb (t, r) = invoke cb (sendLog lg (t, r))"
    using assms(2,3) by (rule write_log_connected)
  have f: "fst (write_log lg cb (t, r)) = t"
    by (simp add: w invoke_def sendLog_fields)
  have p: "write_log lg cb (t, r) = (t, r1)"
    using f unfolding r1_def by (metis prod.collapse)
  have r1: "acks r1 = acks r @ [cb]" "timers r1 = timers r" "next_timer r1 = next_timer r"
    "length (sockets r1) = length (sockets r)"
    "datagrams r1 = datagrams (snd (sendLog lg (t, r)))"
    "console r1 = console (snd (sendLog lg (t, r)))"
    "uncaught (listening c r1) = uncaught (listening c (snd (sendLog lg (t, r))))"
    unfolding r1_def w by (simp_all add: invoke_def sendLog_fields listening_acks)
  have tr: "timers_tracked (t, r1)"
    using tracked_write_log[OF reachable_tracked[OF assms(1)], of lg cb] by (simp add: p)
  note S = send_callback_failed[where e = e and t = t and r = r1]
  define s2 where "s2 = send_callback (Some e) (t, r1)"
  have s2: "s2 = (fst s2, snd s2)" by simp
  have t2: "timers_tracked (fst s2, snd s2)"
    using tracked_send_callback[OF tr, of "Some e"] by (simp add: s2_def)
  have m2: "(next_timer r, 30000, Reconnect) \<in> set (timers (snd s2))"
    using S(6) by (simp add: s2_def r1)
  note F = reconnect_drain_facts(4)[OF t2 m2, folded s2]
  have d: "datagrams (snd (drain_steps n (fire (next_timer r) None s2)))
           = datagrams r1 @
             batch_datagrams (length (sockets r)) (port t) (host t) (take (10 * Suc n) (buffer t))" for n
    using F[of n] S by (simp add: s2_def r1)
  show ?thesis
    unfolding p fst_conv snd_conv s2_def[symmetric]
  proof (intro conjI allI impI)
    show "acks r1 = acks r @ [cb]" "timers r1 = timers r" by (rule r1)+
  next
    fix p assume a: "sock_takes c r \<and> send_attempt (port t) lg = Inr p"
    then show "datagrams r1 = datagrams r @ [(c, port t, host t, p)]" "console r1 = console r"
      using sendLog_taken[OF assms(3), of r lg p] by (simp_all add: r1)
  next
    fix x assume a: "send_attempt (port t) lg = Inl x"
    then show "datagrams r1 = datagrams r"
      "console r1 = console r @ [(CError, [JStr (''Erro ao formatar/enviar log: '' @ exn_message x)])]"
      using sendLog_thrown[OF assms(3) a, of r] by (simp_all add: r1)
  next
    fix p assume a: "sock_state c r = Closed \<and> send_attempt (port t) lg = Inr p"
    then show "datagrams r1 = datagrams r"
      "console r1 = console r @ [(CError, [JStr ''Erro ao formatar/enviar log: Not running''])]"
      using sendLog_closed[OF assms(3), of r lg p] by (simp_all add: r1)
  next
    fix p q
    assume a: "sock_state c r = Binding q \<and> DClose \<in> set q \<and> send_attempt (port t) lg = Inr p"
    then show "datagrams r1 = datagrams r" "console r1 = console r"
      "uncaught (listening c r1) = uncaught r @ [not_running]"
      using sendLog_behind_close[OF assms(3), of r q lg p] by (simp_all add: r1)
  next
    show "connected (fst s2) = False" "buffer (fst s2) = buffer t"
      "reconnectTimeout (fst s2) = Some (next_timer r)"
      "datagrams (snd s2) = datagrams r1"
      "console (snd s2) = console r1 @ [(CError, [JStr (''Erro ao enviar log para Graylog: '' @ e)])]"
      using S by (simp_all add: s2_def r1)
    show "(next_timer r, 30000, Reconnect) \<in> set (timers (snd s2))" by (rule m2)
  next
    fix n
    show "datagrams (snd (drain_steps n (fire (next_timer r) None s2)))
           = datagrams r1 @
             batch_datagrams (length (sockets r)) (port t) (host t) (take (10 * Suc n) (buffer t))"
      by (rule d)
  qed (rule refl)
qed

theorem failed_send_disconnects_witness:
  "reachable (new_GraylogTransport ''graylog.local'' 12201 None runtime0) \<and>
   connected (fst (new_GraylogTransport ''graylog.local'' 12201 None runtime0)) \<and>
   client (fst (new_GraylogTransport ''graylog.local'' 12201 None runtime0)) = Some 0 \<and>
   sock_takes 0 (snd (new_GraylogTransport ''graylog.local'' 12201 None runtime0)) \<and>
   send_attempt 12201 (fst (rec_n 1)) = Inr (Json (fst (rec_n 1))) \<and>
   datagrams (snd (write_log (fst (rec_n 1)) 1
      (new_GraylogTransport ''graylog.local'' 12201 None runtime0)))
     = [(0, 12201, ''graylog.local'', Json (fst (rec_n 1)))] \<and>
   connected (fst (send_callback (Some ''send ENETUNREACH'')
      (write_log (fst (rec_n 1)) 1
        (new_GraylogTransport ''graylog.local'' 12201 None runtime0)))) = False \<and>
   buffer (fst (send_callback (Some ''send ENETUNREACH'')
      (write_log (fst (rec_n 1)) 1
        (new_GraylogTransport ''graylog.local'' 12201 None runtime0)))) = [] \<and>
   (0, 30000, Reconnect) \<in> set (timers (snd (send_callback (Some ''send ENETUNREACH'')
      (write_log (fst (rec_n 1)) 1
        (new_GraylogTransport ''graylog.local'' 12201 None runtime0))))) \<and>
   datagrams (snd (drain_steps 0 (fire 0 None (send_callback (Some ''send ENETUNREACH'')
      (write_log (fst (rec_n 1)) 1
        (new_GraylogTransport ''graylog.local'' 12201 None runtime0))))))
     = [(0, 12201, ''graylog.local'', Json (fst (rec_n 1)))] \<and>
   send_attempt 12201 (JObj [(''amount'', JBigInt 5)])
     = Inl (Exn ''TypeError'' ''Do not know how to serialize a BigInt'') \<and>
   datagrams (snd (write_log (JObj [(''amount'', JBigInt 5)]) 2
      (new_GraylogTransport ''graylog.local'' 12201 None runtime0))) = [] \<and>
   console (snd (write_log (JObj [(''amount'', JBigInt 5)]) 2
      (new_GraylogTransport ''graylog.local'' 12201 None runtime0)))
     = [(CError, [JStr ''Erro ao formatar/enviar log: Do not know how to serialize a BigInt''])] \<and>
   sock_state 0 (snd (close (new_GraylogTransport ''graylog.local'' 12201 None runtime0))) = Closed \<and>
   console (snd (write_log (fst (rec_n 1)) 1
      (close (new_GraylogTransport ''graylog.local'' 12201 None runtime0))))
     = [(CError, [JStr ''Erro ao formatar/enviar log: Not running''])] \<and>
   sock_state 0 (snd (close (write_log (fst (rec_n 1)) 1
      (new_GraylogTransport ''graylog.local'' 12201 None runtime0)))) = Binding [DSend, DClose] \<and>
   uncaught (listening 0 (snd (write_log (fst (rec_n 2)) 2
      (close (write_log (fst (rec_n 1)) 1
        (new_GraylogTransport ''graylog.local'' 12201 None runtime0))))))
     = [Exn ''Error'' ''Not running'']"
proof -
  let ?n = "new_GraylogTransport ''graylog.local'' 12201 None runtime0"
  let ?t = "\<lparr>client = Some 0, host = ''graylog.local'', port = 12201, connected = True,
        buffer = [], maxBufferSize = 100, reconnectTimeout = None\<rparr>"
  let ?r = "runtime0\<lparr>sockets := [Unbound]\<rparr>"
  have n: "?n = (?t, ?r)" by (rule fresh_connected)
  have rn: "reachable ?n" by (rule reachable.constructed)
  have rt: "reachable (?t, ?r)" using rn by (simp only: n)
  have a: "connected ?t" and c: "client ?t = Some 0" by simp_all
  have o: "sock_takes 0 ?r" by (simp add: sock_takes_def sock_state_def)
  have sa: "send_attempt 12201 (fst (rec_n i)) = Inr (Json (fst (rec_n i)))" for i
    by (simp add: send_attempt_def to_message_def rec_n_def valid_port_def)
  have sb: "send_attempt 12201 (JObj [(''amount'', JBigInt 5)])
     = Inl (Exn ''TypeError'' ''Do not know how to serialize a BigInt'')"
    by (simp add: send_attempt_def to_message_def)
  have r0: "datagrams ?r = []" "console ?r = []" "next_timer ?r = 0" "length (sockets ?r) = 1"
    "uncaught ?r = []"
    by (simp_all add: runtime0_def)
  note T1 = failed_send_disconnects[OF rt a c, of "fst (rec_n 1)" 1 "''send ENETUNREACH''",
      unfolded r0, simplified]
  from T1 o sa[of 1]
  have 1: "datagrams (snd (write_log (fst (rec_n 1)) 1 (?t, ?r)))
     = [(0, 12201, ''graylog.local'', Json (fst (rec_n 1)))]"
    by simp
  from T1 have 2: "connected (fst (send_callback (Some ''send ENETUNREACH'')
      (write_log (fst (rec_n 1)) 1 (?t, ?r)))) = False"
    and 3: "buffer (fst (send_callback (Some ''send ENETUNREACH'')
      (write_log (fst (rec_n 1)) 1 (?t, ?r)))) = []"
    and 4: "(0, 30000, Reconnect) \<in> set (timers (snd (send_callback (Some ''send ENETUNREACH'')
      (write_log (fst (rec_n 1)) 1 (?t, ?r)))))"
    by simp_all
  from T1 have "\<forall>n. datagrams (snd (drain_steps n (fire 0 None
              (send_callback (Some ''send ENETUNREACH'') (write_log (fst (rec_n 1)) 1 (?t, ?r))))))
           = datagrams (snd (write_log (fst (rec_n 1)) 1 (?t, ?r))) @
             batch_datagrams 1 12201 ''graylog.local'' []"
    by simp
  from this[rule_format, of 0] have 5: "datagrams (snd (drain_steps 0 (fire 0 None
       (send_callback (Some ''send ENETUNREACH'') (write_log (fst (rec_n 1)) 1 (?t, ?r))))))
     = [(0, 12201, ''graylog.local'', Json (fst (rec_n 1)))]"
    unfolding 1 by (simp add: batch_datagrams_def)
  note T2 = failed_send_disconnects[OF rt a c, of "JObj [(''amount'', JBigInt 5)]" 2 "[]",
      unfolded r0]
  from T2 have "\<forall>x. send_attempt (port ?t) (JObj [(''amount'', JBigInt 5)]) = Inl x \<longrightarrow>
        datagrams (snd (write_log (JObj [(''amount'', JBigInt 5)]) 2 (?t, ?r))) = [] \<and>
        console (snd (write_log (JObj [(''amount'', JBigInt 5)]) 2 (?t, ?r)))
          = [] @ [(CError, [JStr (''Erro ao formatar/enviar log: '' @ exn_message x)])]"
    by blast
  from this[rule_format, of "Exn ''TypeError'' ''Do not know how to serialize a BigInt''"] sb
  have 6: "datagrams (snd (write_log (JObj [(''amount'', JBigInt 5)]) 2 (?t, ?r))) = []"
    and 7: "console (snd (write_log (JObj [(''amount'', JBigInt 5)]) 2 (?t, ?r)))
     = [(CError, [JStr ''Erro ao formatar/enviar log: Do not know how to serialize a BigInt''])]"
    by simp_all
  let ?rc = "runtime0\<lparr>sockets := [Closed]\<rparr>"
  have k: "close (?t, ?r) = (?t, ?rc)"
    by (simp add: close_def Let_def sock_close_def sock_state_def runtime0_def)
  have rk: "reachable (?t, ?rc)"
    using reachable.closed[OF rt] by (simp only: k)
  have sk: "sock_state 0 ?rc = Closed" by (simp add: sock_state_def)
  have rc0: "datagrams ?rc = []" "console ?rc = []" by (simp_all add: runtime0_def)
  note T3 = failed_send_disconnects[OF rk a c, of "fst (rec_n 1)" 1 "[]", unfolded rc0]
  from T3 have "\<forall>p. sock_state 0 ?rc = Closed \<and> send_attempt (port ?t) (fst (rec_n 1)) = Inr p \<longrightarrow>
        datagrams (snd (write_log (fst (rec_n 1)) 1 (?t, ?rc))) = [] \<and>
        console (snd (write_log (fst (rec_n 1)) 1 (?t, ?rc)))
          = [] @ [(CError, [JStr ''Erro ao formatar/enviar log: Not running''])]"
    by blast
  from this[rule_format, of "Json (fst (rec_n 1))"] sk sa[of 1]
  have 8: "console (snd (write_log (fst (rec_n 1)) 1 (?t, ?rc)))
     = [(CError, [JStr ''Erro ao formatar/enviar log: Not running''])]"
    by simp
  let ?rw = "runtime0\<lparr>sockets := [Binding [DSend]],
          datagrams := [(0, 12201, ''graylog.local'', Json (fst (rec_n 1)))], acks := [1]\<rparr>"
  let ?rq = "?rw\<lparr>sockets := [Binding [DSend, DClose]]\<rparr>"
  have w: "write_log (fst (rec_n 1)) 1 (?t, ?r) = (?t, ?rw)"
    using first_record by (simp only: n)
  have kw: "close (?t, ?rw) = (?t, ?rq)"
    by (simp add: close_def Let_def sock_close_def sock_state_def runtime0_def)
  have rq: "reachable (?t, ?rq)"
    using reachable.closed[OF reachable.written[OF rt, of "fst (rec_n 1)" 1]]
    by (simp only: w kw)
  have sq: "sock_state 0 ?rq = Binding [DSend, DClose]" by (simp add: sock_state_def)
  have uq: "uncaught ?rq = []" by (simp add: runtime0_def)
  note T4 = failed_send_disconnects[OF rq a c, of "fst (rec_n 2)" 2 "[]", unfolded uq]
  from T4 have "\<forall>p q. sock_state 0 ?rq = Binding q \<and> DClose \<in> set q \<and>
        send_attempt (port ?t) (fst (rec_n 2)) = Inr p \<longrightarrow>
        datagrams (snd (write_log (fst (rec_n 2)) 2 (?t, ?rq))) = datagrams ?rq \<and>
        console (snd (write_log (fst (rec_n 2)) 2 (?t, ?rq))) = console ?rq \<and>
        uncaught (listening 0 (snd (write_log (fst (rec_n 2)) 2 (?t, ?rq)))) = [] @ [not_running]"
    by blast
  from this[rule_format, of "[DSend, DClose]" "Json (fst (rec_n 2))"] sq sa[of 2]
  have 9: "uncaught (listening 0 (snd (write_log (fst (rec_n 2)) 2 (?t, ?rq))))
      = [Exn ''Error'' ''Not running'']"
    by (simp add: not_running_def)
  show ?thesis
    unfolding n
    using rt a c o sa[of 1] sb 1 2 3 4 5 6 7 sk 8 sq 9
    by (simp only: fst_conv snd_conv k w kw simp_thms)
qed

section \<open>The queue stays within its capacity\<close>

lemma capacity_processBuffer:
  "within_capacity (t, r) \<Longrightarrow> within_capacity (processBuffer (t, r'))"
  using processBuffer_fields(2,7)[of t r'] by (simp add: within_capacity_def)

lemma capacity_scheduleReconnect:
  "within_capacity s \<Longrightarrow> within_capacity (scheduleReconnect s)"
  by (simp add: within_capacity_def scheduleReconnect_def Let_def)

lemma capacity_setupConnection:
  assumes "within_capacity (t, r)"
  shows "within_capacity (setupConnection fails (t, r'))"
proof (cases fails)
  case None
  have "within_capacity (t\<lparr>client := Some (length (sockets r')), connected := True\<rparr>, r)"
    using assms by (simp add: within_capacity_def)
  then show ?thesis
    unfolding None setupConnection_opened by (rule capacity_processBuffer)
next
  case (Some m)
  have "within_capacity (t\<lparr>connected := False\<rparr>,
      console_print CError [JStr (''Erro ao configurar cliente UDP: '' @ m)] r')"
    using assms by (simp add: within_capacity_def)
  then show ?thesis
    by (simp add: Some setupConnection_def createSocket_def capacity_scheduleReconnect)
qed

lemma capacity_write_log:
  assumes "within_capacity s"
  shows "within_capacity (write_log lg cb s)"
proof -
  obtain t r where s: "s = (t, r)" by (cases s)
  show ?thesis
    using assms
    by (auto simp: s write_log_def Let_def invoke_def sendLog_fields within_capacity_def)
qed

lemma capacity_fire:
  assumes "within_capacity s"
  shows "within_capacity (fire h fails s)"
proof -
  obtain t r where s: "s = (t, r)" by (cases s)
  have c: "within_capacity (t, r)" using assms by (simp add: s)
  show ?thesis
  proof (cases "find (\<lambda>tm. fst tm = h) (timers r)")
    case None
    then show ?thesis using assms by (simp add: s fire_def)
  next
    case (Some tm)
    show ?thesis
      by (cases "snd (snd tm)")
         (simp_all add: s fire_def Some capacity_setupConnection[OF c] capacity_processBuffer[OF c])
  qed
qed

lemma capacity_close: "within_capacity s \<Longrightarrow> within_capacity (close s)"
  by (cases s) (simp add: within_capacity_def close_fields(1))

lemma reachable_within_capacity: "reachable s \<Longrightarrow> within_capacity s"
proof (induction rule: reachable.induct)
  case (constructed h p fails)
  have "within_capacity (\<lparr>client = None, host = h, port = p, connected = False, buffer = [],
         maxBufferSize = 100, reconnectTimeout = None\<rparr>, runtime0)"
    by (simp add: within_capacity_def)
  then show ?case unfolding new_GraylogTransport_def by (rule capacity_setupConnection)
next
  case (written s lg cb)
  then show ?case by (simp add: capacity_write_log)
next
  case (fired s h fails)
  then show ?case by (simp add: capacity_fire)
next
  case (completed s err)
  then show ?case
    by (cases err) (simp_all add: send_callback_def within_capacity_def scheduleReconnect_def Let_def)
next
  case (errored s m)
  then show ?case
    by (simp add: on_error_def within_capacity_def scheduleReconnect_def Let_def)
next
  case (closed s)
  then show ?case by (simp add: capacity_close)
next
  case (bound s c)
  then show ?case by (simp add: within_capacity_def)
next
  case (unbound s c)
  then show ?case by (simp add: within_capacity_def)
qed

text \<open>
  C2. In every state the transport can reach, the capacity is 100 and the queue is
  no longer than the capacity. While the transport is not connected, any sequence of
  \<open>write\<close> calls leaves the runtime untouched and the queue equal to the last
  \<open>maxBufferSize\<close> entries of what was queued before followed by what was submitted,
  in submission order. A \<open>write\<close> that finds the queue full drops the oldest entry and
  appends the new one. A transport whose socket could not be created (capacity 100,
  empty queue) that is given records 1 to 150 ends with records 51 to 150, in order.
\<close>

theorem write_log_bounded_queue:
  "(\<forall>s. reachable s \<longrightarrow>
      maxBufferSize (fst s) = 100 \<and> length (buffer (fst s)) \<le> maxBufferSize (fst s))
   \<and> (\<forall>t r items.
      (\<not> connected t \<or> client t = None) \<and> 0 < maxBufferSize t \<and>
      length (buffer t) \<le> maxBufferSize t \<longrightarrow>
        length (buffer (fst (writes items (t, r)))) \<le> maxBufferSize t \<and>
        buffer (fst (writes items (t, r)))
          = drop (length (buffer t @ items) - maxBufferSize t) (buffer t @ items) \<and>
        connected (fst (writes items (t, r))) = connected t \<and>
        client (fst (writes items (t, r))) = client t \<and>
        snd (writes items (t, r)) = r)
   \<and> (\<forall>t r lg cb.
        (\<not> connected t \<or> client t = None) \<and> maxBufferSize t \<le> length (buffer t) \<longrightarrow>
        buffer (fst (write_log lg cb (t, r))) = tl (buffer t) @ [(lg, cb)])
   \<and> (\<forall>h p m.
        maxBufferSize (fst (new_GraylogTransport h p (Some m) runtime0)) = 100 \<and>
        buffer (fst (writes (map rec_n [1..<151]) (new_GraylogTransport h p (Some m) runtime0)))
          = map rec_n [51..<151])"
proof (intro conjI allI impI)
  fix s :: state
  assume "reachable s"
  then have "within_capacity s" by (rule reachable_within_capacity)
  then show "maxBufferSize (fst s) = 100" "length (buffer (fst s)) \<le> maxBufferSize (fst s)"
    by (simp_all add: within_capacity_def)
next
  fix t :: transport and r :: runtime and items
  assume h: "(\<not> connected t \<or> client t = None) \<and> 0 < maxBufferSize t \<and>
      length (buffer t) \<le> maxBufferSize t"
  then have eq: "writes items (t, r) =
     (t\<lparr>buffer := drop (length (buffer t @ items) - maxBufferSize t) (buffer t @ items)\<rparr>, r)"
    by (intro writes_queued) auto
  show "length (buffer (fst (writes items (t, r)))) \<le> maxBufferSize t"
    using h by (simp add: eq)
  show "buffer (fst (writes items (t, r)))
          = drop (length (buffer t @ items) - maxBufferSize t) (buffer t @ items)"
    by (simp add: eq)
  show "connected (fst (writes items (t, r))) = connected t" by (simp add: eq)
  show "client (fst (writes items (t, r))) = client t" by (simp add: eq)
  show "snd (writes items (t, r)) = r" by (simp add: eq)
next
  fix t :: transport and r :: runtime and lg cb
  assume "(\<not> connected t \<or> client t = None) \<and> maxBufferSize t \<le> length (buffer t)"
  then show "buffer (fst (write_log lg cb (t, r))) = tl (buffer t) @ [(lg, cb)]"
    by (simp add: write_log_queued)
next
  fix h p m
  show "maxBufferSize (fst (new_GraylogTransport h p (Some m) runtime0)) = 100"
    by (simp add: fresh_disconnected)
  show "buffer (fst (writes (map rec_n [1..<151]) (new_GraylogTransport h p (Some m) runtime0)))
          = map rec_n [51..<151]"
    by (rule overflow_scenario)
qed

theorem write_log_bounded_queue_witness:
  "connected idle_transport = False \<and> 0 < maxBufferSize idle_transport \<and>
   length (buffer idle_transport) \<le> maxBufferSize idle_transport \<and>
   buffer (fst (writes [rec_n 1, rec_n 2, rec_n 3] (idle_transport, runtime0)))
     = [rec_n 1, rec_n 2, rec_n 3] \<and>
   length (buffer (fst (writes [rec_n 1, rec_n 2, rec_n 3] (idle_transport, runtime0)))) \<le> 100 \<and>
   reachable (backlog 150) \<and> length (buffer (fst (backlog 150))) \<le> 100 \<and>
   connected (fst (backlog 100)) = False \<and>
   length (buffer (fst (backlog 100))) = 100 \<and> maxBufferSize (fst (backlog 100)) = 100 \<and>
   buffer (fst (write_log (fst (rec_n 101)) 101 (backlog 100)))
     = tl (map rec_n [1..<101]) @ [rec_n 101]"
proof -
  have h: "(\<not> connected idle_transport \<or> client idle_transport = None) \<and>
      0 < maxBufferSize idle_transport \<and>
      length (buffer idle_transport) \<le> maxBufferSize idle_transport"
    by (simp add: idle_transport_def)
  note T = write_log_bounded_queue
  from T have c1: "\<forall>s. reachable s \<longrightarrow>
      maxBufferSize (fst s) = 100 \<and> length (buffer (fst s)) \<le> maxBufferSize (fst s)"
    by (rule conjunct1)
  from T have c2:
    "\<forall>t r items.
      (\<not> connected t \<or> client t = None) \<and> 0 < maxBufferSize t \<and>
      length (buffer t) \<le> maxBufferSize t \<longrightarrow>
        length (buffer (fst (writes items (t, r)))) \<le> maxBufferSize t \<and>
        buffer (fst (writes items (t, r)))
          = drop (length (buffer t @ items) - maxBufferSize t) (buffer t @ items) \<and>
        connected (fst (writes items (t, r))) = connected t \<and>
        client (fst (writes items (t, r))) = client t \<and>
        snd (writes items (t, r)) = r"
    by (elim conjE)
  from T have c3: "\<forall>t r lg cb.
        (\<not> connected t \<or> client t = None) \<and> maxBufferSize t \<le> length (buffer t) \<longrightarrow>
        buffer (fst (write_log lg cb (t, r))) = tl (buffer t) @ [(lg, cb)]"
    by (elim conjE)
  have r: "reachable (backlog 150)" by (rule reachable_backlog)
  from c1[rule_format, OF r] have b: "length (buffer (fst (backlog 150))) \<le> 100" by simp
  obtain t r' where f: "backlog 100 = (t, r')" by (cases "backlog 100")
  have ft: "connected t = False" "client t = None" "maxBufferSize t = 100"
    "buffer t = map rec_n [1..<101]"
    using backlog_eq[of 100] by (simp_all add: f)
  have g: "(\<not> connected t \<or> client t = None) \<and> maxBufferSize t \<le> length (buffer t)"
    by (simp add: ft)
  have e: "buffer (fst (write_log (fst (rec_n 101)) 101 (backlog 100)))
     = tl (map rec_n [1..<101]) @ [rec_n 101]"
    using c3[rule_format, OF g, of "fst (rec_n 101)" 101 r'] by (simp add: f ft rec_n_def)
  have k: "connected (fst (backlog 100)) = False" "length (buffer (fst (backlog 100))) = 100"
    "maxBufferSize (fst (backlog 100)) = 100"
    by (simp_all add: f ft)
  have w: "buffer (fst (writes [rec_n 1, rec_n 2, rec_n 3] (idle_transport, runtime0)))
     = [rec_n 1, rec_n 2, rec_n 3]"
    "length (buffer (fst (writes [rec_n 1, rec_n 2, rec_n 3] (idle_transport, runtime0)))) \<le> 100"
    using c2[rule_format, OF h, where r = runtime0 and items = "[rec_n 1, rec_n 2, rec_n 3]"]
    by (simp_all add: idle_transport_def)
  have i: "connected idle_transport = False" "0 < maxBufferSize idle_transport"
    "length (buffer idle_transport) \<le> maxBufferSize idle_transport"
    by (simp_all add: idle_transport_def)
  show ?thesis
    by (intro conjI) (rule i w r b k e)+
qed

end
